(* ===== verification/Prelude.thy ===== *)
theory Prelude
  imports Main
begin

text \<open>
  Shared vocabulary of the development: the JavaScript string primitives the parser of
  \<open>src/code2.js\<close> calls (\<open>String.prototype.trim\<close>, \<open>startsWith\<close>, \<open>split("\n")\<close>,
  \<open>replace\<close> with a string pattern, \<open>replace\<close> with a global literal regex), modelled on
  \<open>string\<close> (a list of 8-bit \<open>char\<close>s, i.e. the UTF-8 bytes of the JS string).
  Whitespace is JavaScript's \<open>\s\<close> restricted to ASCII (space, tab, LF, VT, FF, CR);
  the non-ASCII Unicode spaces are multi-byte sequences in this representation and are not
  whitespace here.  Each primitive comes with the few lemmas the components use, collected
  in the named collection \<open>str_simps\<close>.
\<close>

named_theorems str_simps "equations of the string primitives used by the parser proofs"

definition nl :: char where
  "nl = CHR 0x0A"

definition is_ws :: "char \<Rightarrow> bool" where
  "is_ws c \<longleftrightarrow> c = CHR '' '' \<or> c = CHR 0x09 \<or> c = CHR 0x0A \<or> c = CHR 0x0B
     \<or> c = CHR 0x0C \<or> c = CHR 0x0D"

text \<open>The fence marker, three backticks.\<close>

definition fence :: string where "fence = ''```''"

text \<open>Line terminators: the characters the regex dot \<open>.\<close> does not match.\<close>

definition is_lineterm :: "char \<Rightarrow> bool" where
  "is_lineterm c \<longleftrightarrow> c = CHR 0x0A \<or> c = CHR 0x0D"

text \<open>\<open>s.trim()\<close>: whitespace removed at both ends.\<close>

definition trim :: "string \<Rightarrow> string" where
  "trim s = rev (dropWhile is_ws (rev (dropWhile is_ws s)))"

text \<open>\<open>s.startsWith(p)\<close>, generic over the element type so that it also states
  prefix facts about lists of points.\<close>

fun starts_with :: "'a list \<Rightarrow> 'a list \<Rightarrow> bool" where
  "starts_with [] s = True"
| "starts_with (c # p) [] = False"
| "starts_with (c # p) (d # s) = (c = d \<and> starts_with p s)"

text \<open>\<open>s.replace(pat, rep)\<close> with a string pattern: the first occurrence only.\<close>

fun replace_first :: "string \<Rightarrow> string \<Rightarrow> string \<Rightarrow> string" where
  "replace_first pat rep [] = (if pat = [] then rep else [])"
| "replace_first pat rep (c # s) =
     (if starts_with pat (c # s) then rep @ drop (length pat) (c # s)
      else c # replace_first pat rep s)"

text \<open>\<open>s.replace(/pat/g, rep)\<close> for a literal non-empty pattern: leftmost,
  non-overlapping occurrences, scanning resumes after each replaced one.\<close>

function replace_all :: "string \<Rightarrow> string \<Rightarrow> string \<Rightarrow> string" where
  "replace_all pat rep [] = []"
| "replace_all pat rep (c # s) =
     (if pat \<noteq> [] \<and> starts_with pat (c # s)
      then rep @ replace_all pat rep (drop (length pat - 1) s)
      else c # replace_all pat rep s)"
  by pat_completeness auto
termination
  by (relation "measure (\<lambda>(_, _, s). length s)") auto

text \<open>\<open>s.split("\n")\<close>: always at least one piece.\<close>

fun split_nl :: "string \<Rightarrow> string list" where
  "split_nl [] = [[]]"
| "split_nl (c # s) =
     (let r = split_nl s in if c = nl then [] # r else (c # hd r) # tl r)"

text \<open>The inverse direction, \<open>lines.join("\n")\<close>.\<close>

fun join_nl :: "string list \<Rightarrow> string" where
  "join_nl [] = []"
| "join_nl [l] = l"
| "join_nl (l # ls) = l @ nl # join_nl ls"

subsection \<open>Lemmas on the primitives\<close>

lemma starts_with_iff [str_simps]: "starts_with p s \<longleftrightarrow> (\<exists>r. s = p @ r)"
  by (induction p s rule: starts_with.induct) auto

lemma starts_with_append [simp]: "starts_with p (p @ r)"
  by (simp add: starts_with_iff)

lemma starts_with_refl [simp]: "starts_with xs xs"
  using starts_with_append [of xs "[]"] by simp

lemma starts_with_trans:
  "starts_with p q \<Longrightarrow> starts_with q s \<Longrightarrow> starts_with p s"
  by (auto simp: starts_with_iff)

lemma replace_first_prefix [str_simps]:
  "starts_with pat s \<Longrightarrow> replace_first pat rep s = rep @ drop (length pat) s"
  by (cases s) (auto simp: starts_with_iff)

lemma split_nl_nonempty [simp]: "split_nl s \<noteq> []"
  by (induction s) (auto simp: Let_def)

lemma split_nl_append:
  "nl \<notin> set l \<Longrightarrow> split_nl (l @ nl # rest) = l # split_nl rest"
  by (induction l) (auto simp: Let_def)

lemma split_nl_plain: "nl \<notin> set l \<Longrightarrow> split_nl l = [l]"
  by (induction l) (auto simp: Let_def)

lemma length_split_nl: "length (split_nl s) \<le> Suc (length s)"
  by (induction s) (auto simp: Let_def)

lemma all_dropWhile_iff: "(\<forall>x\<in>set (dropWhile P s). P x) \<longleftrightarrow> (\<forall>x\<in>set s. P x)"
  by (induction s) auto

lemma trim_Nil_iff [str_simps]: "trim s = [] \<longleftrightarrow> (\<forall>c\<in>set s. is_ws c)"
  by (simp add: trim_def dropWhile_eq_Nil_conv all_dropWhile_iff)

lemma trim_id [str_simps]:
  "s = [] \<or> (\<not> is_ws (hd s) \<and> \<not> is_ws (last s)) \<Longrightarrow> trim s = s"
proof (cases "s = []")
  case False
  moreover assume "s = [] \<or> (\<not> is_ws (hd s) \<and> \<not> is_ws (last s))"
  ultimately have h: "\<not> is_ws (hd s)" and l: "\<not> is_ws (hd (rev s))"
    by (auto simp: hd_rev)
  from False h have "dropWhile is_ws s = s"
    by (cases s) auto
  moreover from False l have "dropWhile is_ws (rev s) = rev s"
    by (cases "rev s") auto
  ultimately show ?thesis by (simp add: trim_def)
qed (simp add: trim_def)

lemma set_trim: "set (trim s) \<subseteq> set s"
  unfolding trim_def using set_dropWhileD by (fastforce simp: set_dropWhileD)

lemma trim_prefix: "\<exists>ys. xs = rev (dropWhile P (rev xs)) @ ys"
  by (metis rev_append rev_rev_ident takeWhile_dropWhile_id)

lemma trim_ends:
  assumes ne: "trim s \<noteq> []"
  shows "\<not> is_ws (hd (trim s)) \<and> \<not> is_ws (last (trim s))"
proof
  let ?d = "dropWhile is_ws s"
  obtain ys where ys: "?d = trim s @ ys" using trim_prefix [of ?d is_ws] by (auto simp: trim_def)
  have "?d \<noteq> []" using ys ne by simp
  then have "\<not> is_ws (hd ?d)" by (metis hd_dropWhile)
  with ys ne show "\<not> is_ws (hd (trim s))" by simp
  have "dropWhile is_ws (rev ?d) \<noteq> []" using ne by (simp add: trim_def)
  then have "\<not> is_ws (hd (dropWhile is_ws (rev ?d)))" by (metis hd_dropWhile)
  then show "\<not> is_ws (last (trim s))" by (simp add: trim_def last_rev)
qed

lemma trim_trim: "trim (trim s) = trim s"
  using trim_ends [of s] trim_id [of "trim s"] by blast

text \<open>Trimming a text made of lines: the white space removed at the front lies in the
  first line when that line is not blank, and at the back in the last line.\<close>

lemma ltrim_append: "\<exists>x\<in>set xs. \<not> is_ws x \<Longrightarrow> dropWhile is_ws (xs @ ys) = dropWhile is_ws xs @ ys"
  by (metis dropWhile_append1)

lemma rtrim_append:
  "\<exists>y\<in>set ys. \<not> is_ws y \<Longrightarrow> rev (dropWhile is_ws (rev (xs @ ys))) = xs @ rev (dropWhile is_ws (rev ys))"
  by (metis dropWhile_append1 rev_append rev_rev_ident set_rev)

lemma rtrim_ws_append:
  "\<forall>y\<in>set ys. is_ws y \<Longrightarrow> rev (dropWhile is_ws (rev (xs @ ys))) = rev (dropWhile is_ws (rev xs))"
  by (metis dropWhile_append2 rev_append set_rev)

lemma trim_ltrim: "trim (dropWhile is_ws s) = trim s"
  by (simp add: trim_def)

lemma ltrim_rtrim:
  "dropWhile is_ws (rev (dropWhile is_ws (rev s))) = rev (dropWhile is_ws (rev (dropWhile is_ws s)))"
proof (cases "\<exists>x\<in>set s. \<not> is_ws x")
  case False
  then have "dropWhile is_ws s = []" "dropWhile is_ws (rev s) = []"
    by (simp_all add: dropWhile_eq_Nil_conv)
  then show ?thesis by (metis rev.simps(1) dropWhile.simps(1))
next
  case True
  let ?W = "takeWhile is_ws s" and ?L = "dropWhile is_ws s"
  have L: "\<exists>x\<in>set ?L. \<not> is_ws x" using True by (metis dropWhile_append3 in_set_conv_decomp split_list_first_prop takeWhile_dropWhile_id)
  have s: "s = ?W @ ?L" by simp
  have "rev (dropWhile is_ws (rev s)) = ?W @ rev (dropWhile is_ws (rev ?L))"
    using rtrim_append [OF L, of ?W] s by metis
  moreover have "dropWhile is_ws (?W @ y) = dropWhile is_ws y" for y
    by (rule dropWhile_append2) (metis set_takeWhileD)
  moreover have "dropWhile is_ws (rev (dropWhile is_ws (rev ?L))) = rev (dropWhile is_ws (rev ?L))"
  proof -
    obtain ys where ys: "?L = rev (dropWhile is_ws (rev ?L)) @ ys" using trim_prefix [of ?L is_ws] by blast
    have ne: "rev (dropWhile is_ws (rev ?L)) \<noteq> []" using L by (simp add: dropWhile_eq_Nil_conv)
    have "?L \<noteq> []" using L by (metis empty_iff list.set(1))
    then have "\<not> is_ws (hd ?L)" by (metis hd_dropWhile)
    with ys ne have "\<not> is_ws (hd (rev (dropWhile is_ws (rev ?L))))" by (metis hd_append2)
    with ne show ?thesis by (cases "rev (dropWhile is_ws (rev ?L))") auto
  qed
  ultimately show ?thesis by simp
qed

lemma trim_rtrim: "trim (rev (dropWhile is_ws (rev s))) = trim s"
  unfolding trim_def by (simp add: ltrim_rtrim [symmetric])


lemma trim_alt: "trim s = dropWhile is_ws (rev (dropWhile is_ws (rev s)))"
  by (simp add: trim_def ltrim_rtrim)

lemma trim_snoc_ws: "is_ws c \<Longrightarrow> trim (s @ [c]) = trim s"
  by (simp add: trim_alt)

lemma join_nl_snoc: "ls \<noteq> [] \<Longrightarrow> join_nl (ls @ [m]) = join_nl ls @ nl # m"
  by (induction ls rule: join_nl.induct) auto

lemma split_nl_set: "l \<in> set (split_nl s) \<Longrightarrow> set l \<subseteq> set s - {nl}"
proof (induction s arbitrary: l)
  case (Cons c s)
  have hd: "set (hd (split_nl s)) \<subseteq> set s - {nl}"
    using Cons.IH split_nl_nonempty [of s] by (simp add: hd_in_set)
  have tl: "set x \<subseteq> set s - {nl}" if "x \<in> set (tl (split_nl s))" for x
    using Cons.IH that by (metis list.set_sel(2) split_nl_nonempty)
  show ?case
  proof (cases "c = nl")
    case True
    with Cons.prems Cons.IH show ?thesis by (auto simp: Let_def)
  next
    case False
    with Cons.prems have "l = c # hd (split_nl s) \<or> l \<in> set (tl (split_nl s))"
      by (auto simp: Let_def)
    then show ?thesis using hd tl False by auto
  qed
qed simp

lemma ltrim_join_nl:
  "trim l \<noteq> [] \<Longrightarrow> dropWhile is_ws (join_nl (l # rest)) = join_nl (dropWhile is_ws l # rest)"
  by (cases rest) (simp_all add: ltrim_append trim_Nil_iff)

lemma rtrim_join_nl:
  assumes "trim m \<noteq> []"
  shows "rev (dropWhile is_ws (rev (join_nl (ls @ [m])))) = join_nl (ls @ [rev (dropWhile is_ws (rev m))])"
proof (cases "ls = []")
  case False
  have "\<exists>y\<in>set m. \<not> is_ws y" using assms by (simp add: trim_Nil_iff)
  from rtrim_append [OF this, of "join_nl ls @ [nl]"] False show ?thesis
    by (simp add: join_nl_snoc)
qed simp

text \<open>Trimming joined lines that are not blank changes each line at most by trimming it.\<close>

lemma trim_join_nl:
  assumes ne: "ls \<noteq> []" and nb: "\<forall>l\<in>set ls. trim l \<noteq> []"
  shows "\<exists>ms. ms \<noteq> [] \<and> trim (join_nl ls) = join_nl ms
           \<and> (\<forall>m\<in>set ms. \<exists>l\<in>set ls. trim m = trim l \<and> set m \<subseteq> set l)"
proof -
  obtain l rest where ls: "ls = l # rest" using ne by (cases ls) auto
  let ?l = "dropWhile is_ws l"
  have one: "\<forall>x\<in>set (?l # rest). \<exists>l\<in>set ls. trim x = trim l \<and> set x \<subseteq> set l"
    using ls by (auto simp: trim_ltrim dest: set_dropWhileD)
  obtain ys m where ym: "?l # rest = ys @ [m]" by (metis list.distinct(1) rev_exhaust)
  have m: "m \<in> set (?l # rest)" using ym by (metis in_set_conv_decomp)
  with one nb have mne: "trim m \<noteq> []" by fastforce
  have "trim (join_nl ls) = rev (dropWhile is_ws (rev (join_nl (?l # rest))))"
    using nb ls by (simp add: trim_def ltrim_join_nl)
  also have "\<dots> = join_nl (ys @ [rev (dropWhile is_ws (rev m))])"
    by (simp only: ym rtrim_join_nl [OF mne])
  finally have eq: "trim (join_nl ls) = join_nl (ys @ [rev (dropWhile is_ws (rev m))])" .
  have "\<exists>l\<in>set ls. trim (rev (dropWhile is_ws (rev m))) = trim l \<and> set (rev (dropWhile is_ws (rev m))) \<subseteq> set l"
    using one m by (fastforce simp: trim_rtrim dest: set_dropWhileD)
  moreover have "\<forall>y\<in>set ys. \<exists>l\<in>set ls. trim y = trim l \<and> set y \<subseteq> set l"
    using one ym by (metis Un_iff set_append)
  ultimately show ?thesis using eq by (intro exI [of _ "ys @ [rev (dropWhile is_ws (rev m))]"]) auto
qed

end
