(* ===== verification/Store.thy ===== *)
theory Store
  imports Prelude
begin

text \<open>
  The slide objects of \<open>parseMarkdownToSlides\<close> (\<open>src/code2.js\<close>) and the store that
  holds them.  The JavaScript code keeps references to the same object in two places (the
  local \<open>currentSlide\<close> and the array \<open>slides\<close>) and mutates it through either; which
  slides end up equal, duplicated or lost depends on that aliasing.  So objects live in an
  explicit heap, a list of slide records indexed by address, and the parser's state holds
  addresses.  Allocation appends; \<open>obj.points.push(p)\<close>, \<open>obj.code = c\<close> and
  \<open>obj.sectionHeader = true\<close> update one address.  \<open>heap_ext\<close> is the relation
  between a heap and a later one that every operation respects: nothing is freed, titles
  never change and points only grow at the end.
\<close>

text \<open>\<open>{ title, points, code?, sectionHeader? }\<close>; an absent \<open>code\<close> is \<open>None\<close>,
  an absent \<open>sectionHeader\<close> (falsy) is \<open>False\<close>.\<close>

record slide =
  title :: string
  points :: "string list"
  code :: "string option"
  sectionHeader :: bool

type_synonym sref = nat
type_synonym heap = "slide list"

text \<open>\<open>{ title: t, points: [] }\<close>\<close>

definition new_slide :: "string \<Rightarrow> slide" where
  "new_slide t = \<lparr>title = t, points = [], code = None, sectionHeader = False\<rparr>"

definition alloc :: "slide \<Rightarrow> heap \<Rightarrow> sref \<times> heap" where
  "alloc s h = (length h, h @ [s])"

text \<open>\<open>h[r].points.push(p)\<close>\<close>

definition push_point :: "sref \<Rightarrow> string \<Rightarrow> heap \<Rightarrow> heap" where
  "push_point r p h = h[r := (h ! r)\<lparr>points := points (h ! r) @ [p]\<rparr>]"

text \<open>\<open>h[r].code = c\<close>\<close>

definition set_code :: "sref \<Rightarrow> string \<Rightarrow> heap \<Rightarrow> heap" where
  "set_code r c h = h[r := (h ! r)\<lparr>code := Some c\<rparr>]"

text \<open>\<open>if (!slide.points || slide.points.length === 0) slide.sectionHeader = true\<close>
  (\<open>src/code2.js\<close>, the post-pass).\<close>

definition mark_section :: "sref \<Rightarrow> heap \<Rightarrow> heap" where
  "mark_section r h =
     (if points (h ! r) = [] then h[r := (h ! r)\<lparr>sectionHeader := True\<rparr>] else h)"

definition heap_ext :: "heap \<Rightarrow> heap \<Rightarrow> bool" where
  "heap_ext h h' \<longleftrightarrow> length h \<le> length h' \<and>
     (\<forall>r < length h. title (h' ! r) = title (h ! r)
        \<and> starts_with (points (h ! r)) (points (h' ! r)))"

text \<open>Every address held is allocated; no object is marked before the post-pass.\<close>

definition refs_ok :: "sref list \<Rightarrow> sref option \<Rightarrow> heap \<Rightarrow> bool" where
  "refs_ok sl cur h \<longleftrightarrow> list_all (\<lambda>r. r < length h) sl
     \<and> (case cur of None \<Rightarrow> True | Some r \<Rightarrow> r < length h)"

definition unmarked :: "heap \<Rightarrow> bool" where
  "unmarked h \<longleftrightarrow> list_all (\<lambda>s. \<not> sectionHeader s) h"

named_theorems heap_ext_intros "operations that extend the heap"

subsection \<open>Reading after writing\<close>

lemma alloc_fst [simp]: "fst (alloc s h) = length h"
  by (simp add: alloc_def)

lemma alloc_nth_old [simp]: "r < length h \<Longrightarrow> snd (alloc s h) ! r = h ! r"
  by (simp add: alloc_def nth_append)

lemma alloc_nth_new [simp]: "snd (alloc s h) ! length h = s"
  by (simp add: alloc_def)

lemma length_alloc [simp]: "length (snd (alloc s h)) = Suc (length h)"
  by (simp add: alloc_def)

lemma length_push_point [simp]: "length (push_point r p h) = length h"
  by (simp add: push_point_def)

lemma length_set_code [simp]: "length (set_code r c h) = length h"
  by (simp add: set_code_def)

lemma length_mark_section [simp]: "length (mark_section r h) = length h"
  by (simp add: mark_section_def)

lemma push_point_nth:
  "push_point r p h ! q =
     (if q = r \<and> r < length h then (h ! r)\<lparr>points := points (h ! r) @ [p]\<rparr> else h ! q)"
  by (cases "r < length h") (auto simp: push_point_def nth_list_update list_update_beyond)

lemma set_code_nth:
  "set_code r c h ! q = (if q = r \<and> r < length h then (h ! r)\<lparr>code := Some c\<rparr> else h ! q)"
  by (cases "r < length h") (auto simp: set_code_def nth_list_update list_update_beyond)

lemma mark_section_nth:
  "mark_section r h ! q =
     (if q = r \<and> r < length h \<and> points (h ! r) = [] then (h ! r)\<lparr>sectionHeader := True\<rparr>
      else h ! q)"
  by (cases "r < length h") (auto simp: mark_section_def nth_list_update list_update_beyond)

lemmas heap_nth_simps = push_point_nth set_code_nth mark_section_nth

text \<open>Pushing a list of points one by one, as \<open>forEach(item => t.points.push(...))\<close>.\<close>

lemma fold_push_point:
  "r < length h \<Longrightarrow>
   fold (\<lambda>x. push_point r (f x)) xs h = h[r := (h ! r)\<lparr>points := points (h ! r) @ map f xs\<rparr>]"
proof (induction xs arbitrary: h)
  case Nil
  then show ?case by simp
next
  case (Cons x xs)
  then show ?case by (simp add: push_point_def)
qed

subsection \<open>Heap extension\<close>

lemma heap_ext_refl [heap_ext_intros]: "heap_ext h h"
  by (simp add: heap_ext_def)

lemma heap_ext_trans:
  "heap_ext h1 h2 \<Longrightarrow> heap_ext h2 h3 \<Longrightarrow> heap_ext h1 h3"
  unfolding heap_ext_def by (auto intro: starts_with_trans)

lemma heap_ext_alloc [heap_ext_intros]: "heap_ext h (snd (alloc s h))"
  by (simp add: heap_ext_def)

lemma heap_ext_push_point [heap_ext_intros]: "heap_ext h (push_point r p h)"
  by (auto simp: heap_ext_def push_point_nth starts_with_iff)

lemma heap_ext_set_code [heap_ext_intros]: "heap_ext h (set_code r c h)"
  by (simp add: heap_ext_def set_code_nth)

lemma heap_ext_mark_section [heap_ext_intros]: "heap_ext h (mark_section r h)"
  by (simp add: heap_ext_def mark_section_nth)

lemma heap_ext_fold:
  "(\<And>x h. heap_ext h (f x h)) \<Longrightarrow> heap_ext h (fold f xs h)"
proof (induction xs arbitrary: h)
  case Nil
  then show ?case by (simp add: heap_ext_refl)
next
  case (Cons x xs)
  then show ?case by (metis fold_simps(2) heap_ext_trans)
qed

subsection \<open>Allocated addresses and unmarked objects\<close>

lemma refs_ok_mono:
  "refs_ok sl cur h \<Longrightarrow> length h \<le> length h' \<Longrightarrow> refs_ok sl cur h'"
  by (auto simp: refs_ok_def list_all_iff split: option.splits)

lemma refs_ok_snoc [simp]: "refs_ok (sl @ [r]) cur h \<longleftrightarrow> refs_ok sl cur h \<and> r < length h"
  by (auto simp: refs_ok_def)

lemma refs_ok_Some [simp]:
  "refs_ok sl (Some r) h \<longleftrightarrow> refs_ok sl None h \<and> r < length h"
  by (simp add: refs_ok_def)

lemma refs_ok_last: "refs_ok sl cur h \<Longrightarrow> sl \<noteq> [] \<Longrightarrow> last sl < length h"
  by (simp add: refs_ok_def list_all_iff)

lemma unmarked_alloc [simp]:
  "unmarked (snd (alloc s h)) \<longleftrightarrow> unmarked h \<and> \<not> sectionHeader s"
  by (simp add: unmarked_def alloc_def)

lemma unmarked_snoc [simp]: "unmarked (h @ [s]) \<longleftrightarrow> unmarked h \<and> \<not> sectionHeader s"
  by (simp add: unmarked_def)

lemma heap_ext_length: "heap_ext h h' \<Longrightarrow> length h \<le> length h'"
  by (simp add: heap_ext_def)

lemma unmarked_push_point [simp]: "unmarked h \<Longrightarrow> unmarked (push_point r p h)"
  by (auto simp: unmarked_def list_all_length push_point_nth)

lemma unmarked_set_code [simp]: "unmarked h \<Longrightarrow> unmarked (set_code r c h)"
  by (auto simp: unmarked_def list_all_length set_code_nth)

lemma new_slide_unmarked [simp]: "\<not> sectionHeader (new_slide t)"
  by (simp add: new_slide_def)

lemma unmarked_fold_push_point [simp]:
  "unmarked h \<Longrightarrow> unmarked (fold (\<lambda>x. push_point r (f x)) xs h)"
  by (induction xs arbitrary: h) simp_all

lemma length_fold_push_point [simp]:
  "length (fold (\<lambda>x. push_point r (f x)) xs h) = length h"
  by (induction xs arbitrary: h) simp_all

end
