(* ===== verification/Flush.thy ===== *)
theory Flush
  imports Store
begin

text \<open>
  The content-group aggregator: the closure \<open>flushContentGroup\<close> of
  \<open>parseMarkdownToSlides\<close> (\<open>src/code2.js\<close> lines 110--156) together with the parser
  state it closes over.  The state record \<open>pstate\<close> holds the local variables of
  \<open>parseMarkdownToSlides\<close> (\<open>title\<close>, \<open>slides\<close>, \<open>currentSlide\<close>,
  \<open>inCodeBlock\<close>, \<open>codeBuffer\<close>, \<open>contentGroup\<close>) and the heap of slide objects;
  \<open>slides\<close> and \<open>currentSlide\<close> are addresses into that heap.  A group is
  hierarchical when some bullet is indented: then every indent-0 bullet opens a new slide
  (\<open>hier_walk\<close>, the \<open>forEach\<close> with \<open>currentBulletSlide\<close>); otherwise all items are
  appended to the last pushed slide, or to \<open>currentSlide\<close>, or to a new placeholder
  slide (\<open>flush_flat\<close>).
\<close>

text \<open>\<open>{ indent, content, isPlainText }\<close>\<close>

record item =
  indent :: nat
  content :: string
  isPlainText :: bool

record pstate =
  p_title :: string
  p_slides :: "sref list"
  p_currentSlide :: "sref option"
  p_inCodeBlock :: bool
  p_codeBuffer :: string
  p_contentGroup :: "item list"
  p_heap :: heap

text \<open>The placeholder title \<open>"\<close>\<^emph>\<open>naiyou\<close>\<open>"\<close> (Japanese for ``content''),
  as its UTF-8 bytes.\<close>

definition content_title :: string where
  "content_title = [CHR 0xE5, CHR 0x86, CHR 0x85, CHR 0xE5, CHR 0xAE, CHR 0xB9]"

text \<open>\<open>!item.isPlainText && item.indent === 0\<close>: a bullet that heads a slide.\<close>

definition is_head :: "item \<Rightarrow> bool" where
  "is_head it \<longleftrightarrow> \<not> isPlainText it \<and> indent it = 0"

text \<open>\<open>contentGroup.some(item => !item.isPlainText && item.indent > 0)\<close>\<close>

definition hierarchical :: "item list \<Rightarrow> bool" where
  "hierarchical g \<longleftrightarrow> list_ex (\<lambda>it. \<not> isPlainText it \<and> 0 < indent it) g"

text \<open>The \<open>contentGroup.forEach\<close> of the hierarchical branch; its accumulator is
  \<open>currentBulletSlide\<close>, the array \<open>slides\<close> and the heap.\<close>

fun hier_walk :: "item list \<Rightarrow> sref option \<Rightarrow> sref list \<Rightarrow> heap \<Rightarrow> sref option \<times> sref list \<times> heap"
where
  "hier_walk [] cbs sl h = (cbs, sl, h)"
| "hier_walk (it # g) cbs sl h =
     (if is_head it then
        (let sl' = (case cbs of None \<Rightarrow> sl | Some r \<Rightarrow> sl @ [r]);
             (r', h') = alloc (new_slide (content it)) h
         in hier_walk g (Some r') sl' h')
      else
        (let (r, h1) = (case cbs of None \<Rightarrow> alloc (new_slide content_title) h | Some r \<Rightarrow> (r, h))
         in hier_walk g (Some r) sl (push_point r (content it) h1)))"

definition flush_hier :: "item list \<Rightarrow> sref list \<Rightarrow> heap \<Rightarrow> sref list \<times> heap" where
  "flush_hier g sl h =
     (case hier_walk g None sl h of
        (cbs, sl', h') \<Rightarrow> ((case cbs of None \<Rightarrow> sl' | Some r \<Rightarrow> sl' @ [r]), h'))"

definition flush_flat :: "item list \<Rightarrow> sref list \<Rightarrow> sref option \<Rightarrow> heap \<Rightarrow> sref list \<times> sref option \<times> heap"
where
  "flush_flat g sl cur h =
     (let target = (if sl \<noteq> [] then Some (last sl) else cur) in
      case target of
        Some t \<Rightarrow> (sl, cur, fold (\<lambda>it. push_point t (content it)) g h)
      | None \<Rightarrow>
          (let (t, h1) = alloc (new_slide content_title) h
           in (sl @ [t], Some t, fold (\<lambda>it. push_point t (content it)) g h1)))"

definition flushContentGroup :: "pstate \<Rightarrow> pstate" where
  "flushContentGroup st =
     (let g = p_contentGroup st in
      if g = [] then st
      else if hierarchical g then
        (case flush_hier g (p_slides st) (p_heap st) of
           (sl, h) \<Rightarrow> st\<lparr>p_slides := sl, p_heap := h, p_contentGroup := []\<rparr>)
      else
        (case flush_flat g (p_slides st) (p_currentSlide st) (p_heap st) of
           (sl, cur, h) \<Rightarrow>
             st\<lparr>p_slides := sl, p_currentSlide := cur, p_heap := h, p_contentGroup := []\<rparr>))"

text \<open>Well-formed state: every address the state holds is allocated, a group is
  never pending inside a code block, and no slide object has been marked as a
  section header yet (that happens only in the post-pass).\<close>

definition wf_state :: "pstate \<Rightarrow> bool" where
  "wf_state st \<longleftrightarrow> refs_ok (p_slides st) (p_currentSlide st) (p_heap st)
     \<and> (p_inCodeBlock st \<longrightarrow> p_contentGroup st = [])
     \<and> unmarked (p_heap st)"

text \<open>A later state only extends an earlier one: the heap grows by
  \<open>heap_ext\<close> and the array \<open>slides\<close> only grows at the end.\<close>

definition extends_state :: "pstate \<Rightarrow> pstate \<Rightarrow> bool" where
  "extends_state st st' \<longleftrightarrow> heap_ext (p_heap st) (p_heap st') \<and> starts_with (p_slides st) (p_slides st')"

text \<open>Number of indent-0 bullets of a group: the slide heads of the hierarchical branch.\<close>

definition n_heads :: "item list \<Rightarrow> nat" where
  "n_heads g = length (filter is_head g)"

subsection \<open>The flush keeps the state well-formed and only extends it\<close>

lemma hier_walk_wf:
  "hier_walk g cbs sl h = (cbs', sl', h') \<Longrightarrow> refs_ok sl cbs h \<Longrightarrow> unmarked h \<Longrightarrow>
   refs_ok sl' cbs' h' \<and> unmarked h' \<and> heap_ext h h' \<and> starts_with sl sl'"
proof (induction g arbitrary: cbs sl h)
  case Nil
  then show ?case by (simp add: heap_ext_refl)
next
  case (Cons it g)
  show ?case
  proof (cases "is_head it")
    case True
    define sl1 where "sl1 = (case cbs of None \<Rightarrow> sl | Some r \<Rightarrow> sl @ [r])"
    define h1 where "h1 = snd (alloc (new_slide (content it)) h)"
    have eq: "hier_walk g (Some (length h)) sl1 h1 = (cbs', sl', h')"
      using Cons.prems(1) True by (simp add: sl1_def h1_def alloc_def)
    have ok: "refs_ok sl1 (Some (length h)) h1" and um: "unmarked h1"
      using Cons.prems(2,3) by (auto simp: sl1_def h1_def intro: refs_ok_mono split: option.splits)
    have "starts_with sl sl1" by (simp add: sl1_def split: option.splits)
    moreover have "heap_ext h h1" by (simp add: h1_def heap_ext_alloc)
    moreover note Cons.IH [OF eq ok um]
    ultimately show ?thesis by (blast intro: heap_ext_trans starts_with_trans)
  next
    case False
    define r where "r = (case cbs of None \<Rightarrow> length h | Some r \<Rightarrow> r)"
    define h1 where "h1 = (case cbs of None \<Rightarrow> snd (alloc (new_slide content_title) h) | Some r \<Rightarrow> h)"
    have eq: "hier_walk g (Some r) sl (push_point r (content it) h1) = (cbs', sl', h')"
      using Cons.prems(1) False by (simp add: r_def h1_def alloc_def split: option.splits)
    have ok: "refs_ok sl (Some r) (push_point r (content it) h1)"
      and um: "unmarked (push_point r (content it) h1)"
      using Cons.prems(2,3) by (auto simp: r_def h1_def intro: refs_ok_mono split: option.splits)
    have "heap_ext h (push_point r (content it) h1)"
      by (auto simp: h1_def split: option.splits
          intro: heap_ext_trans heap_ext_alloc heap_ext_push_point)
    moreover note Cons.IH [OF eq ok um]
    ultimately show ?thesis by (blast intro: heap_ext_trans)
  qed
qed
lemma flush_flat_wf:
  "flush_flat g sl cur h = (sl', cur', h') \<Longrightarrow> refs_ok sl cur h \<Longrightarrow> unmarked h \<Longrightarrow>
   refs_ok sl' cur' h' \<and> unmarked h' \<and> heap_ext h h' \<and> starts_with sl sl'"
  by (auto simp: flush_flat_def Let_def alloc_def refs_ok_last split: if_splits option.splits
      intro: heap_ext_fold heap_ext_push_point heap_ext_trans [OF heap_ext_alloc [unfolded alloc_def, simplified]]
      refs_ok_mono, auto simp: refs_ok_def)

lemma flush_hier_wf:
  assumes fh: "flush_hier g sl h = (sl', h')" and ok: "refs_ok sl None h" and um: "unmarked h"
  shows "refs_ok sl' None h' \<and> unmarked h' \<and> heap_ext h h' \<and> starts_with sl sl'"
proof -
  obtain cbs sl1 h1 where hw: "hier_walk g None sl h = (cbs, sl1, h1)"
    by (cases "hier_walk g None sl h") auto
  from hier_walk_wf [OF hw ok um]
  have "refs_ok sl1 cbs h1" "unmarked h1" "heap_ext h h1" "starts_with sl sl1" by simp_all
  with fh hw show ?thesis
    by (auto simp: flush_hier_def refs_ok_def split: option.splits intro: starts_with_trans)
qed

lemma flushContentGroup_fields [simp]:
  "p_title (flushContentGroup st) = p_title st"
  "p_inCodeBlock (flushContentGroup st) = p_inCodeBlock st"
  "p_codeBuffer (flushContentGroup st) = p_codeBuffer st"
  "p_contentGroup (flushContentGroup st) = []"
  by (auto simp: flushContentGroup_def Let_def split: prod.splits)

lemma flushContentGroup_wf:
  assumes ok: "refs_ok (p_slides st) (p_currentSlide st) (p_heap st)" and um: "unmarked (p_heap st)"
  shows "refs_ok (p_slides (flushContentGroup st)) (p_currentSlide (flushContentGroup st)) (p_heap (flushContentGroup st))
    \<and> unmarked (p_heap (flushContentGroup st))
    \<and> heap_ext (p_heap st) (p_heap (flushContentGroup st))
    \<and> starts_with (p_slides st) (p_slides (flushContentGroup st))"
proof -
  let ?g = "p_contentGroup st"
  consider (empty) "?g = []" | (hier) "?g \<noteq> []" "hierarchical ?g" | (flat) "?g \<noteq> []" "\<not> hierarchical ?g"
    by blast
  then show ?thesis
  proof cases
    case empty
    with assms show ?thesis by (simp add: flushContentGroup_def heap_ext_refl)
  next
    case hier
    obtain sl' h' where fh: "flush_hier ?g (p_slides st) (p_heap st) = (sl', h')"
      by (cases "flush_hier ?g (p_slides st) (p_heap st)")
    have n: "refs_ok (p_slides st) None (p_heap st)" using ok by (simp add: refs_ok_def)
    from flush_hier_wf [OF fh n um] ok
    have "refs_ok sl' (p_currentSlide st) h'"
      by (auto simp: refs_ok_def dest!: heap_ext_length split: option.splits)
    with flush_hier_wf [OF fh n um] hier fh show ?thesis
      by (simp add: flushContentGroup_def)
  next
    case flat
    with flush_flat_wf [OF _ ok um] show ?thesis
      by (auto simp: flushContentGroup_def split: prod.splits)
  qed
qed
subsection \<open>Well-formed states\<close>

lemma extends_state_refl [simp]: "extends_state st st"
  by (simp add: extends_state_def heap_ext_refl)

lemma extends_state_trans:
  "extends_state s1 s2 \<Longrightarrow> extends_state s2 s3 \<Longrightarrow> extends_state s1 s3"
  unfolding extends_state_def by (blast intro: heap_ext_trans starts_with_trans)

lemma flush_keeps:
  assumes "wf_state st"
  shows "wf_state (flushContentGroup st) \<and> extends_state st (flushContentGroup st)"
  using assms flushContentGroup_wf [of st]
  by (simp add: wf_state_def extends_state_def)

lemma alloc_keeps:
  "wf_state st \<Longrightarrow> \<not> sectionHeader s \<Longrightarrow> alloc s (p_heap st) = (r, h) \<Longrightarrow>
   wf_state (st\<lparr>p_heap := h\<rparr>) \<and> extends_state st (st\<lparr>p_heap := h\<rparr>) \<and> r < length h
   \<and> r \<notin> set (p_slides st) \<and> p_currentSlide st \<noteq> Some r"
  by (auto simp: wf_state_def extends_state_def refs_ok_def alloc_def list_all_iff
      split: option.splits intro: heap_ext_alloc [unfolded alloc_def, simplified])

lemma wf_set_current:
  "wf_state st \<Longrightarrow> (case c of None \<Rightarrow> True | Some r \<Rightarrow> r < length (p_heap st)) \<Longrightarrow>
   wf_state (st\<lparr>p_currentSlide := c\<rparr>)"
  by (simp add: wf_state_def refs_ok_def)

lemma wf_push_slide:
  "wf_state st \<Longrightarrow> r < length (p_heap st) \<Longrightarrow>
   wf_state (st\<lparr>p_slides := p_slides st @ [r]\<rparr>) \<and> extends_state st (st\<lparr>p_slides := p_slides st @ [r]\<rparr>)"
  by (simp add: wf_state_def refs_ok_def extends_state_def heap_ext_refl)

subsection \<open>Behaviour of the two branches\<close>

lemma flush_current_Some:
  "p_currentSlide st = Some r \<Longrightarrow> p_currentSlide (flushContentGroup st) = Some r"
  by (auto simp: flushContentGroup_def flush_flat_def Let_def split: prod.splits)

lemma flush_empty [simp]: "p_contentGroup st = [] \<Longrightarrow> flushContentGroup st = st"
  by (simp add: flushContentGroup_def)


lemma hier_walk_count:
  "hier_walk g cbs sl h = (cbs', sl', h') \<Longrightarrow>
   (cbs' = None \<longleftrightarrow> cbs = None \<and> g = []) \<and>
   length sl' + (if cbs' = None then 0 else 1) =
     length sl + (if cbs = None then 0 else 1) + n_heads g
     + (if cbs = None \<and> g \<noteq> [] \<and> \<not> is_head (hd g) then 1 else 0)"
proof (induction g arbitrary: cbs sl h)
  case Nil
  then show ?case by (simp add: n_heads_def)
next
  case (Cons it g)
  show ?case
  proof (cases "is_head it")
    case True
    with Cons.prems have "hier_walk g (Some (length h)) (case cbs of None \<Rightarrow> sl | Some r \<Rightarrow> sl @ [r])
        (snd (alloc (new_slide (content it)) h)) = (cbs', sl', h')"
      by (simp add: alloc_def)
    from Cons.IH [OF this] True show ?thesis
      by (auto simp: n_heads_def split: option.splits)
  next
    case False
    with Cons.prems obtain r h1 where "hier_walk g (Some r) sl h1 = (cbs', sl', h')"
      by (auto simp: alloc_def split: option.splits)
    from Cons.IH [OF this] False show ?thesis
      by (auto simp: n_heads_def split: option.splits)
  qed
qed

lemma flush_hier_count:
  "g \<noteq> [] \<Longrightarrow> length (fst (flush_hier g sl h)) =
     length sl + n_heads g + (if is_head (hd g) then 0 else 1)"
  using hier_walk_count [of g None sl h]
  by (auto simp: flush_hier_def split: prod.splits option.splits)

text \<open>C5: flushing a hierarchical group pushes one slide per indent-0 bullet, plus one
  placeholder slide when the group does not start with an indent-0 bullet (a plain-text
  line first counts as well as an indented bullet).\<close>

theorem flushContentGroup_hier_count:
  assumes "hierarchical (p_contentGroup st)"
  shows "length (p_slides (flushContentGroup st)) =
     length (p_slides st) + n_heads (p_contentGroup st)
     + (if is_head (hd (p_contentGroup st)) then 0 else 1)"
proof -
  have ne: "p_contentGroup st \<noteq> []" using assms by (auto simp: hierarchical_def)
  with assms flush_hier_count [OF ne, of "p_slides st" "p_heap st"] show ?thesis
    by (auto simp: flushContentGroup_def split: prod.splits)
qed
lemma flushContentGroup_flat_eq:
  assumes "p_contentGroup st \<noteq> []" "\<not> hierarchical (p_contentGroup st)"
    and "t = (if p_slides st \<noteq> [] then last (p_slides st) else r)"
    and "p_slides st \<noteq> [] \<or> p_currentSlide st = Some r"
  shows "flushContentGroup st = st\<lparr>p_heap := fold (\<lambda>it. push_point t (content it)) (p_contentGroup st) (p_heap st),
           p_contentGroup := []\<rparr>"
  using assms by (auto simp: flushContentGroup_def flush_flat_def)

text \<open>C6: flushing a flat group when a slide is already open (some slide pushed, or
  \<open>currentSlide\<close> set) creates no slide: the array \<open>slides\<close>,
  \<open>currentSlide\<close> and the number of objects are unchanged, and the items' contents are
  appended, in order, to the points of the last pushed slide if there is one, else of
  \<open>currentSlide\<close>.\<close>

theorem flushContentGroup_flat:
  assumes g: "p_contentGroup st \<noteq> []" "\<not> hierarchical (p_contentGroup st)"
    and ok: "refs_ok (p_slides st) (p_currentSlide st) (p_heap st)"
    and t: "t = (if p_slides st \<noteq> [] then last (p_slides st) else r)"
    and open_: "p_slides st \<noteq> [] \<or> p_currentSlide st = Some r"
  shows "p_slides (flushContentGroup st) = p_slides st
    \<and> p_currentSlide (flushContentGroup st) = p_currentSlide st
    \<and> length (p_heap (flushContentGroup st)) = length (p_heap st)
    \<and> points (p_heap (flushContentGroup st) ! t) = points (p_heap st ! t) @ map content (p_contentGroup st)"
proof -
  have "t < length (p_heap st)"
    using ok open_ t by (auto simp: refs_ok_def list_all_iff)
  with flushContentGroup_flat_eq [OF g t open_] show ?thesis
    by (simp add: fold_push_point)
qed

end
