(* ===== verification/Parser.thy ===== *)
theory Parser
  imports Flush
begin

text \<open>
  The line loop of \<open>parseMarkdownToSlides\<close> (\<open>src/code2.js\<close> lines 84--247).  The
  tests of one line are kept in the source's order (blank, fence, level-1 heading,
  level-2/3 heading, separator, bullet, plain text); each branch is one handler on the
  state \<open>pstate\<close> of \<^theory_text>\<open>Flush\<close>, and \<open>step\<close> is the body of the
  \<open>for\<close> loop.  \<open>run\<close> is the loop over \<open>markdown.split("\n")\<close>, \<open>finish\<close> the
  final flush and the guarded push of \<open>currentSlide\<close>, \<open>mark_sections\<close> the
  \<open>sectionHeader\<close> post-pass, and \<open>parseMarkdownToSlides\<close> dereferences the slide
  addresses into the returned value.
\<close>

record deck =
  deck_title :: string
  deck_slides :: "slide list"

text \<open>The default deck title \<open>"\<close>\<^emph>\<open>taitoru\<close>\<open>"\<close> (Japanese katakana for
  ``title''), as its UTF-8 bytes.\<close>

definition title_placeholder :: string where
  "title_placeholder =
     [CHR 0xE3, CHR 0x82, CHR 0xBF, CHR 0xE3, CHR 0x82, CHR 0xA4,
      CHR 0xE3, CHR 0x83, CHR 0x88, CHR 0xE3, CHR 0x83, CHR 0xAB]"

definition init_state :: pstate where
  "init_state = \<lparr>p_title = [], p_slides = [], p_currentSlide = None, p_inCodeBlock = False,
     p_codeBuffer = [], p_contentGroup = [], p_heap = []\<rparr>"

subsection \<open>Line tests\<close>

text \<open>\<open>trimmed.startsWith("# ") && !trimmed.startsWith("## ") && !trimmed.startsWith("### ")\<close>\<close>

definition is_h1 :: "string \<Rightarrow> bool" where
  "is_h1 t \<longleftrightarrow> starts_with ''# '' t \<and> \<not> starts_with ''## '' t \<and> \<not> starts_with ''### '' t"

definition is_h23 :: "string \<Rightarrow> bool" where
  "is_h23 t \<longleftrightarrow> starts_with ''## '' t \<or> starts_with ''### '' t"

text \<open>\<open>trimmed.replace("# ", "").trim()\<close>\<close>

definition h1_text :: "string \<Rightarrow> string" where
  "h1_text t = trim (replace_first ''# '' [] t)"

text \<open>\<open>trimmed.replace(/^#{2,3}\s*/, "").trim()\<close>: the greedy \<open>#{2,3}\<close> takes up to
  three leading hashes, at least two, then \<open>\s*\<close> all following whitespace.\<close>

definition h23_text :: "string \<Rightarrow> string" where
  "h23_text t =
     (let n = length (takeWhile (\<lambda>c. c = CHR ''#'') (take 3 t))
      in trim (if 2 \<le> n then dropWhile is_ws (drop n t) else t))"

text \<open>\<open>line.match(/^(\s*)[-*]\s+(.*)/)\<close>: \<open>Some (indent, content)\<close> on a match,
  with \<open>content = match[2].trim()\<close>.  The groups are determined: \<open>\s*\<close> takes all
  leading whitespace (a bullet marker is not whitespace), \<open>\s+\<close> all whitespace after
  the marker, and \<open>.*\<close> runs up to the first line terminator.\<close>

definition bullet_match :: "string \<Rightarrow> (nat \<times> string) option" where
  "bullet_match line =
     (case dropWhile is_ws line of
        c # r \<Rightarrow>
          (if (c = CHR ''-'' \<or> c = CHR ''*'') \<and> r \<noteq> [] \<and> is_ws (hd r)
           then Some (length (takeWhile is_ws line),
                      trim (takeWhile (\<lambda>x. \<not> is_lineterm x) (dropWhile is_ws r)))
           else None)
      | [] \<Rightarrow> None)"

text \<open>\<open>getIndent\<close> (lines 101--104): defined in the source but never called.\<close>

definition getIndent :: "string \<Rightarrow> nat" where
  "getIndent line = length (takeWhile is_ws line)"

subsection \<open>Handlers\<close>

text \<open>\<open>if (currentSlide) { slides.push(currentSlide); currentSlide = null; }\<close>\<close>

definition push_current :: "pstate \<Rightarrow> pstate" where
  "push_current st =
     (case p_currentSlide st of
        None \<Rightarrow> st
      | Some r \<Rightarrow> st\<lparr>p_slides := p_slides st @ [r], p_currentSlide := None\<rparr>)"

text \<open>A fence line (lines 168--176): flush, toggle the mode, and on closing assign the
  trimmed buffer to \<open>currentSlide\<close> when both exist; only then is the buffer reset.\<close>

definition fence_toggle :: "pstate \<Rightarrow> pstate" where
  "fence_toggle st =
     (let st1 = flushContentGroup st; ic = \<not> p_inCodeBlock st1 in
      case p_currentSlide st1 of
        Some r \<Rightarrow>
          (if \<not> ic \<and> p_codeBuffer st1 \<noteq> []
           then st1\<lparr>p_inCodeBlock := ic, p_heap := set_code r (trim (p_codeBuffer st1)) (p_heap st1),
                    p_codeBuffer := []\<rparr>
           else st1\<lparr>p_inCodeBlock := ic\<rparr>)
      | None \<Rightarrow> st1\<lparr>p_inCodeBlock := ic\<rparr>)"

text \<open>A line inside a code block (lines 178--181).\<close>

definition code_line :: "pstate \<Rightarrow> string \<Rightarrow> pstate" where
  "code_line st line = st\<lparr>p_codeBuffer := p_codeBuffer st @ line @ [nl]\<rparr>"

text \<open>A level-1 heading (lines 184--197): the first one is the deck title, later ones
  push \<open>currentSlide\<close> (unguarded) and open a new one.\<close>

definition heading1 :: "pstate \<Rightarrow> string \<Rightarrow> pstate" where
  "heading1 st hdr =
     (let st1 = flushContentGroup st in
      if p_title st1 = [] then st1\<lparr>p_title := hdr\<rparr>
      else
        (let st2 = push_current st1;
             (r, h) = alloc (new_slide hdr) (p_heap st2)
         in st2\<lparr>p_currentSlide := Some r, p_heap := h\<rparr>))"

text \<open>A level-2/3 heading (lines 200--209): push \<open>currentSlide\<close> (unguarded), then push a
  new title-only slide.\<close>

definition heading23 :: "pstate \<Rightarrow> string \<Rightarrow> pstate" where
  "heading23 st hdr =
     (let st2 = push_current (flushContentGroup st);
          (r, h) = alloc (new_slide hdr) (p_heap st2)
      in st2\<lparr>p_heap := h, p_slides := p_slides st2 @ [r]\<rparr>)"

text \<open>A separator \<open>---\<close> (lines 212--220): \<open>currentSlide\<close> is dropped, not pushed,
  and an empty slide is pushed.\<close>

definition separator :: "pstate \<Rightarrow> pstate" where
  "separator st =
     (let st1 = flushContentGroup st;
          (r, h) = alloc (new_slide []) (p_heap st1)
      in st1\<lparr>p_currentSlide := None, p_heap := h, p_slides := p_slides st1 @ [r]\<rparr>)"

text \<open>A bullet or plain-text line (lines 223--231) becomes an item of the group.\<close>

definition line_item :: "string \<Rightarrow> string \<Rightarrow> item" where
  "line_item line trimmed =
     (case bullet_match line of
        Some (ind, c) \<Rightarrow> \<lparr>indent = ind, content = c, isPlainText = False\<rparr>
      | None \<Rightarrow> \<lparr>indent = 0, content = trimmed, isPlainText = True\<rparr>)"

definition add_item :: "pstate \<Rightarrow> item \<Rightarrow> pstate" where
  "add_item st it = st\<lparr>p_contentGroup := p_contentGroup st @ [it]\<rparr>"

subsection \<open>The loop, the end of input and the post-pass\<close>

definition step :: "pstate \<Rightarrow> string \<Rightarrow> pstate" where
  "step st line =
     (let trimmed = trim line in
      if trimmed = [] then st
      else if starts_with ''```'' trimmed then fence_toggle st
      else if p_inCodeBlock st then code_line st line
      else if is_h1 trimmed then heading1 st (h1_text trimmed)
      else if is_h23 trimmed then heading23 st (h23_text trimmed)
      else if trimmed = ''---'' then separator st
      else add_item st (line_item line trimmed))"

definition run :: "pstate \<Rightarrow> string list \<Rightarrow> pstate" where
  "run st lines = fold (\<lambda>line st. step st line) lines st"

text \<open>Lines 234--237: \<open>flushContentGroup(); if (currentSlide &&
  !slides.includes(currentSlide)) slides.push(currentSlide);\<close> (reference equality).\<close>

definition finish :: "pstate \<Rightarrow> pstate" where
  "finish st =
     (let st1 = flushContentGroup st in
      case p_currentSlide st1 of
        Some r \<Rightarrow> (if r \<notin> set (p_slides st1) then st1\<lparr>p_slides := p_slides st1 @ [r]\<rparr> else st1)
      | None \<Rightarrow> st1)"

text \<open>Lines 240--244, \<open>slides.forEach(...)\<close> on the objects.\<close>

definition mark_sections :: "sref list \<Rightarrow> heap \<Rightarrow> heap" where
  "mark_sections sl h = fold mark_section sl h"

definition parseMarkdownToSlides :: "string \<Rightarrow> deck" where
  "parseMarkdownToSlides markdown =
     (let st = finish (run init_state (split_nl markdown));
          h = mark_sections (p_slides st) (p_heap st)
      in \<lparr>deck_title = (if p_title st = [] then title_placeholder else p_title st),
          deck_slides = map (\<lambda>r. h ! r) (p_slides st)\<rparr>)"

text \<open>An object lost to the parser: allocated, but neither in \<open>slides\<close> nor
  \<open>currentSlide\<close> (what a separator does to a slide opened by a level-1 heading).\<close>

definition orphan :: "sref \<Rightarrow> pstate \<Rightarrow> bool" where
  "orphan r st \<longleftrightarrow> r < length (p_heap st) \<and> r \<notin> set (p_slides st) \<and> p_currentSlide st \<noteq> Some r"

subsection \<open>The loop over lines\<close>

lemma run_append: "run st (xs @ ys) = run (run st xs) ys"
  by (simp add: run_def)

lemma run_Nil [simp]: "run st [] = st"
  by (simp add: run_def)

lemma run_Cons: "run st (x # xs) = run (step st x) xs"
  by (simp add: run_def)

lemma run_code_lines:
  assumes "p_inCodeBlock st" "\<forall>l\<in>set ls. trim l \<noteq> [] \<and> \<not> starts_with ''```'' (trim l)"
  shows "run st ls = st\<lparr>p_codeBuffer := p_codeBuffer st @ concat (map (\<lambda>l. l @ [nl]) ls)\<rparr>"
  using assms
proof (induction ls arbitrary: st)
  case Nil
  then show ?case by (simp add: run_def)
next
  case (Cons l ls)
  have "step st l = code_line st l"
    using Cons.prems by (simp add: step_def Let_def)
  with Cons.prems Cons.IH [of "code_line st l"] show ?case
    by (simp add: run_Cons code_line_def)
qed

lemma step_title:
  "p_title st \<noteq> [] \<Longrightarrow> p_title (step st line) = p_title st"
  by (auto simp: step_def Let_def fence_toggle_def code_line_def heading1_def heading23_def
      separator_def add_item_def push_current_def split: option.splits prod.splits)

lemma run_title:
  "p_title st \<noteq> [] \<Longrightarrow> p_title (run st lines) = p_title st"
  by (induction lines arbitrary: st) (simp_all add: run_Cons step_title)

lemma finish_title [simp]: "p_title (finish st) = p_title st"
  by (simp add: finish_def Let_def split: option.splits)

subsection \<open>Every handler keeps the state well-formed and only extends it\<close>

lemma push_current_keeps:
  "wf_state st \<Longrightarrow> wf_state (push_current st) \<and> extends_state st (push_current st)"
  by (auto simp: push_current_def wf_state_def extends_state_def heap_ext_refl refs_ok_def
      split: option.splits)

lemma fence_toggle_keeps:
  "wf_state st \<Longrightarrow> wf_state (fence_toggle st) \<and> extends_state st (fence_toggle st)"
  using flush_keeps [of st]
  by (auto simp: fence_toggle_def Let_def wf_state_def extends_state_def refs_ok_def
      split: option.splits intro: heap_ext_trans heap_ext_set_code)

lemma code_line_keeps:
  "wf_state st \<Longrightarrow> wf_state (code_line st l) \<and> extends_state st (code_line st l)"
  by (simp add: code_line_def wf_state_def extends_state_def heap_ext_refl)

lemma heading1_keeps:
  assumes "wf_state st"
  shows "wf_state (heading1 st t) \<and> extends_state st (heading1 st t)"
proof -
  let ?st1 = "flushContentGroup st"
  let ?st2 = "push_current ?st1"
  obtain r h where a: "alloc (new_slide t) (p_heap ?st2) = (r, h)" by fastforce
  have 1: "wf_state ?st1 \<and> extends_state st ?st1" using assms by (rule flush_keeps)
  hence 2: "wf_state ?st2 \<and> extends_state st ?st2"
    using push_current_keeps extends_state_trans by blast
  hence 3: "wf_state (?st2\<lparr>p_heap := h\<rparr>) \<and> extends_state st (?st2\<lparr>p_heap := h\<rparr>) \<and> r < length h"
    using alloc_keeps [OF _ _ a] extends_state_trans by (meson new_slide_unmarked)
  hence "wf_state (?st2\<lparr>p_heap := h, p_currentSlide := Some r\<rparr>)"
    using wf_set_current [of "?st2\<lparr>p_heap := h\<rparr>" "Some r"] by simp
  with 1 2 3 a show ?thesis
    by (auto simp: heading1_def Let_def wf_state_def extends_state_def)
qed

lemma heading23_keeps:
  assumes "wf_state st"
  shows "wf_state (heading23 st t) \<and> extends_state st (heading23 st t)"
proof -
  let ?st2 = "push_current (flushContentGroup st)"
  obtain r h where a: "alloc (new_slide t) (p_heap ?st2) = (r, h)" by fastforce
  have 2: "wf_state ?st2 \<and> extends_state st ?st2"
    using assms flush_keeps push_current_keeps extends_state_trans by blast
  hence 3: "wf_state (?st2\<lparr>p_heap := h\<rparr>) \<and> extends_state st (?st2\<lparr>p_heap := h\<rparr>) \<and> r < length h"
    using alloc_keeps [OF _ _ a] extends_state_trans by (meson new_slide_unmarked)
  hence "wf_state (?st2\<lparr>p_heap := h, p_slides := p_slides ?st2 @ [r]\<rparr>)
      \<and> extends_state st (?st2\<lparr>p_heap := h, p_slides := p_slides ?st2 @ [r]\<rparr>)"
    using wf_push_slide [of "?st2\<lparr>p_heap := h\<rparr>" r] extends_state_trans by fastforce
  with a 3 show ?thesis
    by (simp add: heading23_def Let_def)
qed

text \<open>A level-2 heading pushes a slide object titled with its text.\<close>

lemma heading23_pushes:
  "\<exists>r. r \<in> set (p_slides (heading23 st t)) \<and> r < length (p_heap (heading23 st t))
       \<and> title (p_heap (heading23 st t) ! r) = t"
  by (auto simp: heading23_def Let_def alloc_def new_slide_def)

lemma separator_keeps:
  assumes "wf_state st"
  shows "wf_state (separator st) \<and> extends_state st (separator st)"
proof -
  let ?st1 = "flushContentGroup st\<lparr>p_currentSlide := None\<rparr>"
  obtain r h where a: "alloc (new_slide []) (p_heap ?st1) = (r, h)" by fastforce
  have 2: "wf_state ?st1 \<and> extends_state st ?st1"
    using assms flush_keeps [of st] wf_set_current [of _ None]
    by (simp add: extends_state_def)
  hence 3: "wf_state (?st1\<lparr>p_heap := h\<rparr>) \<and> extends_state st (?st1\<lparr>p_heap := h\<rparr>) \<and> r < length h"
    using alloc_keeps [OF _ _ a] extends_state_trans by (meson new_slide_unmarked)
  hence "wf_state (?st1\<lparr>p_heap := h, p_slides := p_slides ?st1 @ [r]\<rparr>)
      \<and> extends_state st (?st1\<lparr>p_heap := h, p_slides := p_slides ?st1 @ [r]\<rparr>)"
    using wf_push_slide [of "?st1\<lparr>p_heap := h\<rparr>" r] extends_state_trans by fastforce
  with a show ?thesis
    by (simp add: separator_def Let_def)
qed

lemma add_item_keeps:
  "wf_state st \<Longrightarrow> \<not> p_inCodeBlock st \<Longrightarrow> wf_state (add_item st it) \<and> extends_state st (add_item st it)"
  by (simp add: add_item_def wf_state_def extends_state_def heap_ext_refl)

lemma step_keeps:
  "wf_state st \<Longrightarrow> wf_state (step st line) \<and> extends_state st (step st line)"
  by (simp add: step_def Let_def fence_toggle_keeps code_line_keeps heading1_keeps
      heading23_keeps separator_keeps add_item_keeps)

lemma run_keeps:
  "wf_state st \<Longrightarrow> wf_state (run st lines) \<and> extends_state st (run st lines)"
proof (induction lines arbitrary: st)
  case Nil
  then show ?case by (simp add: run_def)
next
  case (Cons line lines)
  from step_keeps [OF Cons.prems] Cons.IH [of "step st line"] show ?case
    by (auto simp: run_def intro: extends_state_trans)
qed
lemma finish_keeps:
  "wf_state st \<Longrightarrow> wf_state (finish st) \<and> extends_state st (finish st)"
  using flush_keeps [of st] wf_push_slide [of "flushContentGroup st"]
  by (auto simp: finish_def Let_def wf_state_def refs_ok_def intro: extends_state_trans
      split: option.splits)

lemma mark_sections_nth:
  "points (mark_sections sl h ! q) = points (h ! q)
   \<and> sectionHeader (mark_sections sl h ! q) =
       (sectionHeader (h ! q) \<or> (q \<in> set sl \<and> q < length h \<and> points (h ! q) = []))
   \<and> length (mark_sections sl h) = length h"
proof (induction sl arbitrary: h)
  case Nil
  then show ?case by (simp add: mark_sections_def)
next
  case (Cons r sl)
  from Cons.IH [of "mark_section r h"] show ?case
    by (auto simp: mark_sections_def mark_section_nth)
qed

lemma wf_init [simp]: "wf_state init_state"
  by (simp add: init_state_def wf_state_def refs_ok_def unmarked_def)

text \<open>The post-pass is the only place that sets \<open>sectionHeader\<close>, and it sets it on
  exactly the slides without points.\<close>

lemma parse_section_iff:
  assumes s: "s \<in> set (deck_slides (parseMarkdownToSlides md))"
  shows "sectionHeader s \<longleftrightarrow> points s = []"
proof -
  define st where "st = finish (run init_state (split_nl md))"
  have wf: "wf_state st" unfolding st_def using wf_init run_keeps finish_keeps by blast
  from s obtain r where r: "r \<in> set (p_slides st)"
    and s_eq: "s = mark_sections (p_slides st) (p_heap st) ! r"
    by (auto simp: parseMarkdownToSlides_def st_def Let_def)
  from wf r have "r < length (p_heap st)" and "\<not> sectionHeader (p_heap st ! r)"
    by (auto simp: wf_state_def refs_ok_def unmarked_def list_all_iff)
  with r s_eq mark_sections_nth [of "p_slides st" "p_heap st" r] show ?thesis by simp
qed

subsection \<open>Code blocks\<close>

text \<open>C4: inside a code block every non-blank line that is not a fence goes to the code
  buffer verbatim, with a newline; no heading, separator or bullet test is applied to it.
  Blank lines are skipped even inside a code block (the blank test comes first).\<close>

theorem code_line_opaque:
  "p_inCodeBlock st \<Longrightarrow> \<not> starts_with ''```'' (trim line) \<Longrightarrow>
   step st line = (if trim line = [] then st else st\<lparr>p_codeBuffer := p_codeBuffer st @ line @ [nl]\<rparr>)"
  by (simp add: step_def Let_def code_line_def)

text \<open>C3: a fenced block closed while \<open>currentSlide\<close> is set assigns to that slide the
  trimmed concatenation of the buffer and the block's lines, each with its newline; the
  buffer is then empty and the mode normal.  The buffer's previous content is part of the
  result: the opening fence does not reset it.\<close>

theorem code_block_captured:
  assumes wf: "wf_state st" and nc: "\<not> p_inCodeBlock st" and cur: "p_currentSlide st = Some r"
    and ls: "ls \<noteq> []" "\<forall>l\<in>set ls. trim l \<noteq> [] \<and> \<not> starts_with ''```'' (trim l)"
    and f1: "starts_with ''```'' (trim f1)" and f2: "starts_with ''```'' (trim f2)"
  shows "code (p_heap (run st (f1 # ls @ [f2])) ! r)
           = Some (trim (p_codeBuffer st @ concat (map (\<lambda>l. l @ [nl]) ls)))
         \<and> p_codeBuffer (run st (f1 # ls @ [f2])) = []
         \<and> \<not> p_inCodeBlock (run st (f1 # ls @ [f2]))"
proof -
  let ?st1 = "flushContentGroup st"
  have ne1: "trim f1 \<noteq> []" using f1 by (auto simp: starts_with_iff)
  have ne2: "trim f2 \<noteq> []" using f2 by (auto simp: starts_with_iff)
  have c1: "p_currentSlide ?st1 = Some r" using cur by (rule flush_current_Some)
  have s1: "step st f1 = ?st1\<lparr>p_inCodeBlock := True\<rparr>"
    using ne1 f1 nc c1 by (simp add: step_def fence_toggle_def Let_def)
  have wf1: "wf_state ?st1" using flush_keeps [OF wf] by simp
  hence r: "r < length (p_heap ?st1)" using c1 by (simp add: wf_state_def refs_ok_def)
  define buf where "buf = p_codeBuffer st @ concat (map (\<lambda>l. l @ [nl]) ls)"
  have s2: "run (step st f1) ls = ?st1\<lparr>p_inCodeBlock := True, p_codeBuffer := buf\<rparr>"
    using run_code_lines [of "step st f1" ls] ls s1 by (simp add: buf_def)
  have bne: "buf \<noteq> []" using ls by (auto simp: buf_def)
  have s3: "step (?st1\<lparr>p_inCodeBlock := True, p_codeBuffer := buf\<rparr>) f2
      = ?st1\<lparr>p_inCodeBlock := False, p_heap := set_code r (trim buf) (p_heap ?st1), p_codeBuffer := []\<rparr>"
    using ne2 f2 c1 bne by (simp add: step_def fence_toggle_def Let_def)
  show ?thesis
    using s2 s3 r by (simp add: run_Cons run_append set_code_nth buf_def)
qed

text \<open>A block closed while no slide is open: the fences only toggle the mode, the lines
  stay in the buffer, and no slide object changes.\<close>

lemma block_closed_without_slide:
  assumes nc: "\<not> p_inCodeBlock st" and cur: "p_currentSlide st = None"
    and g: "p_contentGroup st = []"
    and ls: "\<forall>l\<in>set ls. trim l \<noteq> [] \<and> \<not> starts_with ''```'' (trim l)"
    and f1: "starts_with ''```'' (trim f1)" and f2: "starts_with ''```'' (trim f2)"
  shows "run st (f1 # ls @ [f2])
           = st\<lparr>p_codeBuffer := p_codeBuffer st @ concat (map (\<lambda>l. l @ [nl]) ls)\<rparr>"
proof -
  have ne1: "trim f1 \<noteq> []" using f1 by (auto simp: starts_with_iff)
  have ne2: "trim f2 \<noteq> []" using f2 by (auto simp: starts_with_iff)
  have s1: "step st f1 = st\<lparr>p_inCodeBlock := True\<rparr>"
    using ne1 f1 nc cur g by (simp add: step_def fence_toggle_def Let_def)
  have s2: "run (step st f1) ls
      = st\<lparr>p_inCodeBlock := True, p_codeBuffer := p_codeBuffer st @ concat (map (\<lambda>l. l @ [nl]) ls)\<rparr>"
    using run_code_lines [of "step st f1" ls] ls s1 by simp
  show ?thesis
    using s2 ne2 f2 nc cur g by (simp add: run_Cons run_append step_def fence_toggle_def Let_def)
qed

subsection \<open>Lost slides stay lost\<close>

lemma hier_walk_fresh:
  "hier_walk g cbs sl h = (cbs', sl', h') \<Longrightarrow>
   (\<forall>x\<in>set sl'. x \<in> set sl \<or> cbs = Some x \<or> length h \<le> x)
   \<and> (\<forall>x. cbs' = Some x \<longrightarrow> cbs = Some x \<or> length h \<le> x) \<and> length h \<le> length h'"
proof (induction g arbitrary: cbs sl h)
  case Nil
  then show ?case by simp
next
  case (Cons it g)
  show ?case
  proof (cases "is_head it")
    case True
    with Cons.prems have "hier_walk g (Some (length h)) (case cbs of None \<Rightarrow> sl | Some r \<Rightarrow> sl @ [r])
        (snd (alloc (new_slide (content it)) h)) = (cbs', sl', h')"
      by (simp add: alloc_def)
    from Cons.IH [OF this] show ?thesis
      by (auto split: option.splits)
  next
    case False
    show ?thesis
    proof (cases cbs)
      case None
      with Cons.prems False have "hier_walk g (Some (length h)) sl
          (push_point (length h) (content it) (snd (alloc (new_slide content_title) h))) = (cbs', sl', h')"
        by (simp add: alloc_def)
      from Cons.IH [OF this] None show ?thesis by auto
    next
      case (Some r)
      with Cons.prems False have "hier_walk g (Some r) sl (push_point r (content it) h) = (cbs', sl', h')"
        by simp
      from Cons.IH [OF this] Some show ?thesis by auto
    qed
  qed
qed

lemma flush_hier_fresh:
  "flush_hier g sl h = (sl', h') \<Longrightarrow> (\<forall>x\<in>set sl'. x \<in> set sl \<or> length h \<le> x)"
  using hier_walk_fresh [of g None sl h]
  by (fastforce simp: flush_hier_def split: prod.splits option.splits)

lemma flush_orphan:
  assumes o: "orphan r st" and wf: "wf_state st"
  shows "orphan r (flushContentGroup st)"
proof -
  let ?g = "p_contentGroup st"
  have len: "length (p_heap st) \<le> length (p_heap (flushContentGroup st))"
    using flush_keeps [OF wf] by (simp add: extends_state_def heap_ext_length)
  consider (empty) "?g = []" | (hier) "?g \<noteq> []" "hierarchical ?g" | (flat) "?g \<noteq> []" "\<not> hierarchical ?g"
    by blast
  then show ?thesis
  proof cases
    case empty
    with o show ?thesis by simp
  next
    case hier
    obtain sl' h' where fh: "flush_hier ?g (p_slides st) (p_heap st) = (sl', h')"
      by (cases "flush_hier ?g (p_slides st) (p_heap st)")
    from flush_hier_fresh [OF fh] o have "r \<notin> set sl'"
      by (auto simp: orphan_def)
    with hier fh o len show ?thesis
      by (simp add: orphan_def flushContentGroup_def)
  next
    case flat
    with o len show ?thesis
      by (auto simp: orphan_def flushContentGroup_def flush_flat_def Let_def alloc_def
          split: option.splits if_splits)
  qed
qed

text \<open>A flush pushes only freshly allocated objects.\<close>

lemma flush_unpushed:
  assumes "r < length (p_heap st)" "r \<notin> set (p_slides st)"
  shows "r \<notin> set (p_slides (flushContentGroup st))"
proof -
  let ?g = "p_contentGroup st"
  consider (empty) "?g = []" | (hier) "?g \<noteq> []" "hierarchical ?g" | (flat) "?g \<noteq> []" "\<not> hierarchical ?g"
    by blast
  then show ?thesis
  proof cases
    case empty
    with assms show ?thesis by simp
  next
    case hier
    obtain sl' h' where fh: "flush_hier ?g (p_slides st) (p_heap st) = (sl', h')"
      by (cases "flush_hier ?g (p_slides st) (p_heap st)")
    from flush_hier_fresh [OF fh] assms have "r \<notin> set sl'" by auto
    with hier fh show ?thesis by (simp add: flushContentGroup_def)
  next
    case flat
    with assms show ?thesis
      by (auto simp: flushContentGroup_def flush_flat_def Let_def alloc_def
          split: option.splits if_splits)
  qed
qed

lemma orphan_alloc:
  "orphan r st \<Longrightarrow> alloc s (p_heap st) = (x, h) \<Longrightarrow> orphan r (st\<lparr>p_heap := h\<rparr>) \<and> x \<noteq> r"
  by (auto simp: orphan_def alloc_def)

lemma step_orphan:
  assumes "orphan r st" "wf_state st"
  shows "orphan r (step st line)"
proof -
  have f: "orphan r (flushContentGroup st)" using assms by (rule flush_orphan)
  have wf1: "wf_state (flushContentGroup st)" using flush_keeps [OF assms(2)] by simp
  have pc: "orphan r (push_current (flushContentGroup st))"
    using f by (auto simp: orphan_def push_current_def split: option.splits)
  show ?thesis
    using f pc assms(1)
    by (auto simp: step_def Let_def fence_toggle_def code_line_def heading1_def heading23_def
        separator_def add_item_def orphan_def alloc_def set_code_def split: option.splits prod.splits)
qed

lemma run_orphan:
  "orphan r st \<Longrightarrow> wf_state st \<Longrightarrow> orphan r (run st ys)"
proof (induction ys arbitrary: st)
  case Nil
  then show ?case by simp
next
  case (Cons y ys)
  from step_orphan [OF Cons.prems] step_keeps [OF Cons.prems(2)] Cons.IH show ?case
    by (simp add: run_Cons)
qed

text \<open>Once a slide object is neither in \<open>slides\<close> nor \<open>currentSlide\<close>, no
  later line and not the end of input puts it back: it never reaches the deck.  Every
  push is of \<open>currentSlide\<close> or of a freshly allocated object.\<close>

lemma orphan_never_emitted:
  assumes "orphan r st" "wf_state st"
  shows "r \<notin> set (p_slides (finish (run st ys)))"
proof -
  have o: "orphan r (run st ys)" and wf: "wf_state (run st ys)"
    using run_orphan [OF assms] run_keeps [OF assms(2)] by simp_all
  hence "orphan r (flushContentGroup (run st ys))" by (rule flush_orphan)
  then show ?thesis
    by (auto simp: finish_def Let_def orphan_def split: option.splits)
qed

subsection \<open>The deck title\<close>

text \<open>C7: an input whose first line is \<open># t\<close> has deck title \<open>t\<close>, whatever follows:
  the first level-1 heading sets the title and nothing changes it afterwards.\<close>

theorem parse_deck_title:
  assumes "t \<noteq> []" "\<not> is_ws (hd t)" "\<not> is_ws (last t)" "nl \<notin> set t"
  shows "deck_title (parseMarkdownToSlides (''# '' @ t @ nl # rest)) = t"
proof -
  let ?l = "''# '' @ t"
  have tl: "trim ?l = ?l" using assms(1,3) by (intro trim_id) (simp add: is_ws_def)
  have tt: "trim t = t" using assms(1,2,3) by (intro trim_id) simp
  have nl: "nl \<notin> set ?l" using assms(4) by (simp add: nl_def)
  have h1: "is_h1 ?l" by (simp add: is_h1_def)
  have "step init_state ?l = init_state\<lparr>p_title := t\<rparr>"
    using tl h1 tt by (simp add: step_def heading1_def h1_text_def replace_first_prefix init_state_def)
  moreover have "split_nl (''# '' @ t @ nl # rest) = ?l # split_nl rest"
    using split_nl_append [OF nl, of rest] by simp
  ultimately have "p_title (run init_state (split_nl (''# '' @ t @ nl # rest))) = t"
    using assms(1) by (simp only: run_Cons) (simp add: run_title)
  with assms(1) show ?thesis
    unfolding parseMarkdownToSlides_def Let_def by simp
qed

end
