(* ===== verification/Printer.thy ===== *)
theory Printer
  imports Parser
begin

text \<open>
  The Markdown format of \<open>spec.md\<close> read in the other direction.  The specification's
  idempotence rule describes the re-serialisation of a deck: a \<open># \<close> deck title
  followed by, for each slide, a \<open>## \<close> heading, its \<open>- \<close> bullets and an optional
  fenced code block.  \<open>print_deck\<close> writes a deck in that format;
  it models no code of the repository and serves as the specification of the parser's
  input.  The theorem \<open>parse_print_roundtrip\<close> runs \<open>parseMarkdownToSlides\<close> on
  every printed deck whose texts are already trimmed and free of line breaks: the title,
  every slide's title and bullets come back in order, a slide without bullets is marked as a
  section header, and every code block is lost (the \<open>##\<close> branch of the parser never
  sets \<open>currentSlide\<close>, so the closing fence has no slide to attach the code to).
  The proof is a simulation: one printed slide takes a \<open>ready\<close> parser state (outside
  code, no open slide, a pending group of top-level bullets) to another one whose flush has
  one more slide, \<open>run_print_slide\<close>; induction over the slides gives the deck.
\<close>

text \<open>Texts the printer can write so that the parser reads them back unchanged: a heading
  text is non-empty, trimmed and on one line; a bullet is trimmed and contains no line
  terminator (the regex \<open>(.*)\<close> stops at one); no line of a code block is a fence.\<close>

definition clean_text :: "string \<Rightarrow> bool" where
  "clean_text t \<longleftrightarrow> t \<noteq> [] \<and> \<not> is_ws (hd t) \<and> \<not> is_ws (last t) \<and> nl \<notin> set t"

definition clean_point :: "string \<Rightarrow> bool" where
  "clean_point p \<longleftrightarrow> (p = [] \<or> \<not> is_ws (hd p) \<and> \<not> is_ws (last p)) \<and> list_all (\<lambda>c. \<not> is_lineterm c) p"

definition clean_code :: "string \<Rightarrow> bool" where
  "clean_code c \<longleftrightarrow> list_all (\<lambda>l. \<not> starts_with ''```'' (trim l)) (split_nl c)"

definition clean_slide :: "slide \<Rightarrow> bool" where
  "clean_slide s \<longleftrightarrow> clean_text (title s) \<and> list_all clean_point (points s)
     \<and> (case code s of None \<Rightarrow> True | Some c \<Rightarrow> clean_code c)"

text \<open>The printer.\<close>

definition print_slide :: "slide \<Rightarrow> string list" where
  "print_slide s = (''## '' @ title s) # map (\<lambda>p. ''- '' @ p) (points s)
     @ (case code s of None \<Rightarrow> [] | Some c \<Rightarrow> fence # split_nl c @ [fence])"

definition print_deck :: "deck \<Rightarrow> string" where
  "print_deck d = join_nl ((''# '' @ deck_title d) # concat (map print_slide (deck_slides d)))"

definition printable :: "deck \<Rightarrow> bool" where
  "printable d \<longleftrightarrow> clean_text (deck_title d) \<and> list_all clean_slide (deck_slides d)"

text \<open>The parser's view of a printed slide: the bullets it pushes (top-level, not plain
  text), the object its \<open>##\<close> branch creates once the bullets are flushed into it, and the
  slide that comes out of \<open>parseMarkdownToSlides\<close>.\<close>

definition pitem :: "string \<Rightarrow> item" where
  "pitem p = \<lparr>indent = 0, content = p, isPlainText = False\<rparr>"

definition slide_obj :: "slide \<Rightarrow> slide" where
  "slide_obj s = (new_slide (title s))\<lparr>points := points s\<rparr>"

definition parsed_slide :: "slide \<Rightarrow> slide" where
  "parsed_slide s = \<lparr>title = title s, points = points s, code = None, sectionHeader = (points s = [])\<rparr>"

text \<open>The simulation invariant between printed slides.\<close>

definition ready :: "pstate \<Rightarrow> bool" where
  "ready st \<longleftrightarrow> \<not> p_inCodeBlock st \<and> p_currentSlide st = None
     \<and> list_all is_head (p_contentGroup st) \<and> (p_contentGroup st \<noteq> [] \<longrightarrow> p_slides st \<noteq> [])
     \<and> refs_ok (p_slides st) None (p_heap st)"

subsection \<open>Single lines\<close>

lemma trim_clean: "clean_text t \<Longrightarrow> trim t = t"
  by (simp add: clean_text_def trim_id)

lemma step_h23:
  assumes "clean_text t" "\<not> p_inCodeBlock st"
  shows "step st (''## '' @ t) = heading23 st t"
proof -
  have tr: "trim (''## '' @ t) = ''## '' @ t"
    using assms(1) by (intro trim_id) (auto simp: clean_text_def is_ws_def)
  have "h23_text (''## '' @ t) = t"
    using assms(1) by (cases t) (auto simp: h23_text_def clean_text_def trim_id is_ws_def)
  with tr assms(2) show ?thesis
    by (simp add: step_def is_h1_def is_h23_def)
qed

lemma bullet_match_point:
  "clean_point p \<Longrightarrow> bullet_match (''- '' @ p) = Some (0, p)"
proof -
  assume c: "clean_point p"
  have d: "dropWhile is_ws p = p" using c by (cases p) (auto simp: clean_point_def)
  have t: "takeWhile (\<lambda>x. \<not> is_lineterm x) p = p"
    using c by (simp add: clean_point_def list_all_iff takeWhile_eq_all_conv)
  have tp: "trim p = p" using c by (auto simp: clean_point_def intro: trim_id)
  show ?thesis by (simp add: bullet_match_def is_ws_def d t tp)
qed

lemma step_point:
  assumes "clean_point p" "\<not> p_inCodeBlock st"
  shows "step st (''- '' @ p) = add_item st \<lparr>indent = 0, content = p, isPlainText = False\<rparr>"
proof -
  have ne: "trim (''- '' @ p) \<noteq> []" by (simp add: trim_Nil_iff is_ws_def)
  have tr: "trim (''- '' @ p) = (if p = [] then ''-'' else ''- '' @ p)"
  proof (cases "p = []")
    case True
    then show ?thesis by (simp add: trim_def is_ws_def)
  next
    case False
    with assms(1) have "trim (''- '' @ p) = ''- '' @ p"
      by (intro trim_id) (simp add: clean_point_def is_ws_def)
    with False show ?thesis by simp
  qed
  have "\<not> starts_with ''```'' (trim (''- '' @ p))" "\<not> is_h1 (trim (''- '' @ p))"
       "\<not> is_h23 (trim (''- '' @ p))" "trim (''- '' @ p) \<noteq> ''---''"
    using tr by (auto simp: is_h1_def is_h23_def)
  with ne assms show ?thesis
    using bullet_match_point [OF assms(1), simplified] by (simp add: step_def line_item_def)
qed

lemma step_fence: "step st ''```'' = fence_toggle st"
  by (simp add: step_def trim_def is_ws_def)

lemma run_points:
  "\<not> p_inCodeBlock st \<Longrightarrow> list_all clean_point ps \<Longrightarrow>
   run st (map (\<lambda>p. ''- '' @ p) ps) = st\<lparr>p_contentGroup := p_contentGroup st @ map pitem ps\<rparr>"
proof (induction ps arbitrary: st)
  case Nil
  then show ?case by simp
next
  case (Cons p ps)
  have "step st (''- '' @ p) = add_item st (pitem p)"
    using Cons.prems step_point [of p st] by (simp add: pitem_def)
  with Cons.prems Cons.IH [of "add_item st (pitem p)"] show ?case
    by (simp add: run_Cons add_item_def)
qed

lemma run_code_any:
  "p_inCodeBlock st \<Longrightarrow> list_all (\<lambda>l. \<not> starts_with ''```'' (trim l)) ls \<Longrightarrow>
   \<exists>b. run st ls = st\<lparr>p_codeBuffer := b\<rparr>"
proof (induction ls arbitrary: st)
  case Nil
  then show ?case by (intro exI [of _ "p_codeBuffer st"]) simp
next
  case (Cons l ls)
  have "\<exists>b1. step st l = st\<lparr>p_codeBuffer := b1\<rparr>"
  proof (cases "trim l = []")
    case True
    then show ?thesis by (intro exI [of _ "p_codeBuffer st"]) (simp add: step_def)
  next
    case False
    with Cons.prems show ?thesis by (auto simp: step_def Let_def code_line_def)
  qed
  then obtain b1 where s1: "step st l = st\<lparr>p_codeBuffer := b1\<rparr>" ..
  from Cons.IH [of "st\<lparr>p_codeBuffer := b1\<rparr>"] Cons.prems obtain b where
    "run (st\<lparr>p_codeBuffer := b1\<rparr>) ls = st\<lparr>p_codeBuffer := b1, p_codeBuffer := b\<rparr>" by auto
  with s1 show ?case by (auto simp: run_Cons)
qed

lemma flush_pending:
  assumes "list_all is_head (p_contentGroup st)" "p_contentGroup st \<noteq> [] \<longrightarrow> p_slides st \<noteq> []"
  shows "flushContentGroup st = st\<lparr>p_heap := fold (\<lambda>it. push_point (last (p_slides st)) (content it))
           (p_contentGroup st) (p_heap st), p_contentGroup := []\<rparr>"
proof (cases "p_contentGroup st = []")
  case True
  then show ?thesis by simp
next
  case False
  have "\<not> hierarchical (p_contentGroup st)"
    using assms(1) by (auto simp: hierarchical_def list_all_iff list_ex_iff is_head_def)
  with False assms(2) show ?thesis
    using flushContentGroup_flat_eq [of st "last (p_slides st)" 0] by simp
qed

lemma ready_flush:
  assumes "ready st"
  shows "flushContentGroup st = st\<lparr>p_heap := fold (\<lambda>it. push_point (last (p_slides st)) (content it))
           (p_contentGroup st) (p_heap st), p_contentGroup := []\<rparr>"
  using assms flush_pending [of st] by (simp add: ready_def)

lemma is_head_pitem [simp]: "is_head (pitem p)"
  by (simp add: is_head_def pitem_def)

lemma content_pitem [simp]: "content \<circ> pitem = id"
  by (simp add: fun_eq_iff pitem_def)

lemma run_print_slide:
  assumes r: "ready st" and c: "clean_slide s"
  defines "st' \<equiv> run st (print_slide s)" and "F \<equiv> flushContentGroup st"
  shows "ready st' \<and> p_title st' = p_title st \<and> p_slides st' \<noteq> []
    \<and> p_slides (flushContentGroup st') = p_slides F @ [length (p_heap F)]
    \<and> p_heap (flushContentGroup st') = p_heap F @ [slide_obj s]"
proof -
  have F: "F = st\<lparr>p_heap := p_heap F, p_contentGroup := []\<rparr>"
    using ready_flush [OF r] by (simp add: F_def)
  have lenF: "length (p_heap F) = length (p_heap st)"
    using ready_flush [OF r] by (simp add: F_def)
  define S1 where "S1 = F\<lparr>p_heap := p_heap F @ [new_slide (title s)],
                           p_slides := p_slides F @ [length (p_heap F)]\<rparr>"
  have nc: "\<not> p_inCodeBlock st" "p_currentSlide st = None" using r by (auto simp: ready_def)
  have Ff: "p_currentSlide F = None" "\<not> p_inCodeBlock F" "p_slides F = p_slides st"
    "p_contentGroup F = []" "p_title F = p_title st" "p_codeBuffer F = p_codeBuffer st"
    using ready_flush [OF r] nc by (simp_all add: F_def)
  have s1: "step st (''## '' @ title s) = S1"
    using c nc Ff step_h23 [of "title s" st]
    by (simp add: clean_slide_def heading23_def push_current_def alloc_def S1_def F_def [symmetric] Let_def)
  have ok1: "refs_ok (p_slides S1) None (p_heap S1)"
    using r refs_ok_mono [of "p_slides st" None "p_heap st" "p_heap F @ [new_slide (title s)]"]
    by (simp add: S1_def ready_def lenF Ff)
  define S2 where "S2 = S1\<lparr>p_contentGroup := map pitem (points s)\<rparr>"
  have s2: "run S1 (map (\<lambda>p. ''- '' @ p) (points s)) = S2"
    using c run_points [of S1 "points s"] Ff by (simp add: S1_def S2_def clean_slide_def)
  have S2f: "p_currentSlide S2 = None" "\<not> p_inCodeBlock S2" "p_title S2 = p_title st"
    "p_slides S2 = p_slides F @ [length (p_heap F)]" "list_all is_head (p_contentGroup S2)"
    "refs_ok (p_slides S2) None (p_heap S2)"
    using Ff ok1 by (simp_all add: S2_def S1_def list_all_iff)
  have Fg: "F\<lparr>p_contentGroup := []\<rparr> = F" using Ff(4) by simp
  have fl2: "flushContentGroup S2 = S1\<lparr>p_heap := p_heap F @ [slide_obj s]\<rparr>"
  proof (cases "points s = []")
    case True
    then have "flushContentGroup S2 = S1" by (simp add: S2_def S1_def Ff(4))
    with True show ?thesis by (simp add: S1_def slide_obj_def new_slide_def)
  next
    case False
    have "length (p_heap F) < length (p_heap S2)" by (simp add: S2_def S1_def)
    with False flush_pending [of S2] S2f show ?thesis
      by (intro pstate.equality) (simp_all add: fold_push_point Ff S2_def S1_def slide_obj_def new_slide_def
          list_update_append comp_def pitem_def)
  qed
  have okS: "refs_ok (p_slides S2) None (p_heap F @ [slide_obj s])"
    using S2f(6) refs_ok_mono [of "p_slides S2" None "p_heap S2"] by (simp add: S2_def S1_def)
  show ?thesis
  proof (cases "code s")
    case None
    then have "st' = S2"
      using s1 s2 by (simp add: st'_def print_slide_def run_Cons)
    with S2f fl2 okS show ?thesis by (simp add: ready_def S1_def Ff)
  next
    case (Some cd)
    define S3 where "S3 = (flushContentGroup S2)\<lparr>p_inCodeBlock := True\<rparr>"
    have s3: "step S2 fence = S3"
      using fl2 Ff by (simp add: fence_def step_fence fence_toggle_def S3_def S1_def Let_def)
    obtain b where s4: "run S3 (split_nl cd) = S3\<lparr>p_codeBuffer := b\<rparr>"
      using run_code_any [of S3 "split_nl cd"] c Some
      by (auto simp: S3_def clean_slide_def clean_code_def)
    have s5: "step (S3\<lparr>p_codeBuffer := b\<rparr>) fence = S3\<lparr>p_codeBuffer := b, p_inCodeBlock := False\<rparr>"
      using fl2 Ff by (simp add: fence_def step_fence fence_toggle_def S3_def S1_def Let_def)
    have "st' = S3\<lparr>p_codeBuffer := b, p_inCodeBlock := False\<rparr>"
      using s1 s2 s3 s4 s5 Some by (simp add: st'_def print_slide_def run_Cons run_append)
    with S2f fl2 okS show ?thesis by (simp add: ready_def S1_def S3_def Ff)
  qed
qed

lemma run_print_slides:
  "ready st \<Longrightarrow> list_all clean_slide ss \<Longrightarrow>
   ready (run st (concat (map print_slide ss))) \<and> p_title (run st (concat (map print_slide ss))) = p_title st
   \<and> p_slides (flushContentGroup (run st (concat (map print_slide ss))))
       = p_slides (flushContentGroup st)
         @ [length (p_heap (flushContentGroup st)) ..< length (p_heap (flushContentGroup st)) + length ss]
   \<and> p_heap (flushContentGroup (run st (concat (map print_slide ss))))
       = p_heap (flushContentGroup st) @ map slide_obj ss"
proof (induction ss arbitrary: st)
  case Nil
  then show ?case by simp
next
  case (Cons s ss)
  let ?st1 = "run st (print_slide s)"
  from Cons.prems run_print_slide [of st s] have b: "ready ?st1" "p_title ?st1 = p_title st"
    "p_slides (flushContentGroup ?st1) = p_slides (flushContentGroup st) @ [length (p_heap (flushContentGroup st))]"
    "p_heap (flushContentGroup ?st1) = p_heap (flushContentGroup st) @ [slide_obj s]"
    by auto
  have u: "[n..<Suc (n + k)] = n # [Suc n..<Suc (n + k)]" for n k :: nat
    by (simp add: upt_rec)
  from Cons.IH [of ?st1] Cons.prems b show ?case
    by (simp del: upt_Suc add: run_append u)
qed

lemma split_nl_join_nl:
  "ls \<noteq> [] \<Longrightarrow> list_all (\<lambda>l. nl \<notin> set l) ls \<Longrightarrow> split_nl (join_nl ls) = ls"
proof (induction ls rule: join_nl.induct)
  case (3 l v vs)
  then show ?case by (simp add: split_nl_append)
qed (auto simp: split_nl_plain)

lemma mark_sections_at:
  "q < length h \<Longrightarrow> mark_sections sl h ! q
     = (h ! q)\<lparr>sectionHeader := sectionHeader (h ! q) \<or> (q \<in> set sl \<and> points (h ! q) = [])\<rparr>"
proof (induction sl arbitrary: h)
  case Nil
  then show ?case by (simp add: mark_sections_def)
next
  case (Cons r sl)
  from Cons.prems Cons.IH [of "mark_section r h"] show ?case
    by (cases "q = r") (auto simp: mark_sections_def mark_section_nth)
qed

lemma split_nl_no_nl: "list_all (\<lambda>l. nl \<notin> set l) (split_nl c)"
proof (induction c)
  case (Cons a c)
  then show ?case by (cases "split_nl c") (auto simp: Let_def)
qed simp

lemma print_slide_lines:
  "clean_slide s \<Longrightarrow> list_all (\<lambda>l. nl \<notin> set l) (print_slide s)"
proof -
  assume c: "clean_slide s"
  have "nl \<notin> set p" if "p \<in> set (points s)" for p
    using c that by (fastforce simp: clean_slide_def clean_point_def list_all_iff is_lineterm_def nl_def)
  with c split_nl_no_nl [of "the (code s)"] show ?thesis
    by (auto simp: print_slide_def clean_slide_def clean_text_def list_all_iff nl_def fence_def
        split: option.splits)
qed

lemma step_h1_init:
  "clean_text t \<Longrightarrow> step init_state (''# '' @ t) = init_state\<lparr>p_title := t\<rparr>"
proof -
  assume c: "clean_text t"
  have tr: "trim (''# '' @ t) = ''# '' @ t"
    using c by (intro trim_id) (auto simp: clean_text_def is_ws_def)
  have "h1_text (''# '' @ t) = t"
    using c by (simp add: h1_text_def replace_first_prefix trim_clean)
  with tr c show ?thesis
    by (simp add: step_def is_h1_def is_h23_def heading1_def init_state_def clean_text_def)
qed

lemma ready_init_title [simp]: "ready (init_state\<lparr>p_title := t\<rparr>)"
  by (simp add: ready_def init_state_def refs_ok_def)



subsection \<open>The round trip\<close>

text \<open>C19: for every deck whose title, slide titles and bullets are trimmed, non-empty
  (titles) and on one line, and whose code blocks contain no fence line, parsing the printed
  Markdown gives back the deck title and, in order, every slide's title and bullets; each
  slide's code is lost, and a slide is a section header exactly when it has no bullets.\<close>

theorem parse_print_roundtrip:
  assumes "printable d"
  shows "parseMarkdownToSlides (print_deck d)
           = \<lparr>deck_title = deck_title d, deck_slides = map parsed_slide (deck_slides d)\<rparr>"
proof -
  let ?t = "deck_title d" and ?ss = "deck_slides d"
  have c: "clean_text ?t" "list_all clean_slide ?ss" using assms by (auto simp: printable_def)
  have "list_all (\<lambda>l. nl \<notin> set l) (concat (map print_slide ?ss))"
    using c(2) print_slide_lines by (auto simp: list_all_iff)
  then have lines: "split_nl (print_deck d) = (''# '' @ ?t) # concat (map print_slide ?ss)"
    using c(1) split_nl_join_nl [of "(''# '' @ ?t) # concat (map print_slide ?ss)"]
    by (simp add: print_deck_def clean_text_def nl_def)
  define st where "st = run (init_state\<lparr>p_title := ?t\<rparr>) (concat (map print_slide ?ss))"
  have run0: "run init_state (split_nl (print_deck d)) = st"
    using step_h1_init [OF c(1)] by (simp only: lines run_Cons st_def)
  have I: "flushContentGroup (init_state\<lparr>p_title := ?t\<rparr>) = init_state\<lparr>p_title := ?t\<rparr>"
    by (simp add: init_state_def)
  from run_print_slides [OF ready_init_title c(2), unfolded I]
  have r: "ready st" "p_title st = ?t"
    "p_slides (flushContentGroup st) = [0..<length ?ss]"
    "p_heap (flushContentGroup st) = map slide_obj ?ss"
    by (simp_all add: st_def init_state_def)
  have fin: "finish st = flushContentGroup st"
    using ready_flush [OF r(1)] r(1) by (simp add: finish_def ready_def)
  have "p_title (finish st) \<noteq> []" using fin r(2) c(1) by (simp add: clean_text_def)
  moreover have "map (\<lambda>q. mark_sections [0..<length ?ss] (map slide_obj ?ss) ! q) [0..<length ?ss]
      = map parsed_slide ?ss"
    by (rule nth_equalityI)
       (simp_all add: mark_sections_at slide_obj_def parsed_slide_def new_slide_def)
  ultimately show ?thesis
    using fin r by (simp add: parseMarkdownToSlides_def run0)
qed

theorem parse_print_roundtrip_witness:
  "printable \<lparr>deck_title = ''T'', deck_slides =
      [\<lparr>title = ''A'', points = [''x'', ''y z''], code = Some ''f x\<newline>\<newline>g'', sectionHeader = False\<rparr>,
       \<lparr>title = ''B'', points = [], code = None, sectionHeader = True\<rparr>]\<rparr>
   \<and> parseMarkdownToSlides (print_deck \<lparr>deck_title = ''T'', deck_slides =
      [\<lparr>title = ''A'', points = [''x'', ''y z''], code = Some ''f x\<newline>\<newline>g'', sectionHeader = False\<rparr>,
       \<lparr>title = ''B'', points = [], code = None, sectionHeader = True\<rparr>]\<rparr>)
     = \<lparr>deck_title = ''T'', deck_slides =
      [\<lparr>title = ''A'', points = [''x'', ''y z''], code = None, sectionHeader = False\<rparr>,
       \<lparr>title = ''B'', points = [], code = None, sectionHeader = True\<rparr>]\<rparr>"
proof -
  have p: "printable \<lparr>deck_title = ''T'', deck_slides =
      [\<lparr>title = ''A'', points = [''x'', ''y z''], code = Some ''f x\<newline>\<newline>g'', sectionHeader = False\<rparr>,
       \<lparr>title = ''B'', points = [], code = None, sectionHeader = True\<rparr>]\<rparr>"
    by code_simp
  show ?thesis
    using parse_print_roundtrip [OF p] p by (simp add: parsed_slide_def)
qed

end
