(* ===== verification/Deck.thy ===== *)
theory Deck
  imports Printer
begin

text \<open>
  Properties of the whole decks \<open>parseMarkdownToSlides\<close> (\<open>src/code2.js\<close>)
  produces.  An invariant of the parser state, \<open>state_ok X\<close>, says that every text the
  state holds (deck title, pending items, slide titles and points) is trimmed and free of
  the characters \<open>X\<close>, that every stored code block has no fence line, and that the code
  buffer is a sequence of non-blank, non-fence lines each ended by a newline; every handler
  of the loop keeps it (\<open>step_ok\<close>).  Instantiated with \<open>X = {nl}\<close> it shows that
  every text of a parsed deck is one trimmed line (\<open>parse_one_line\<close>); with the carriage
  return added, that a parsed deck whose slide titles are not empty can be printed by
  \<open>Printer.print_deck\<close> and parses back to itself without its code
  (\<open>parse_print_parse\<close>).  The last group shows progress of the line loop: a \<open>##\<close>
  heading reached outside a code block always yields a slide (\<open>heading2_slide_emitted\<close>).
\<close>

subsection \<open>What the parser produces\<close>

text \<open>A text free of the characters \<open>X\<close> and already trimmed.  With \<open>X = {nl}\<close>
  it is one trimmed line; with the carriage return added, no line terminator at all.\<close>

definition text_ok :: "char set \<Rightarrow> string \<Rightarrow> bool" where
  "text_ok X t \<longleftrightarrow> set t \<inter> X = {} \<and> trim t = t"

definition slide_texts :: "char set \<Rightarrow> slide \<Rightarrow> bool" where
  "slide_texts X s \<longleftrightarrow> text_ok X (title s) \<and> list_all (text_ok X) (points s)"

text \<open>A line the parser appends to \<open>codeBuffer\<close>: not blank and not a fence, since
  those are dispatched before the \<open>inCodeBlock\<close> test of the loop.\<close>

definition code_line_ok :: "string \<Rightarrow> bool" where
  "code_line_ok l \<longleftrightarrow> nl \<notin> set l \<and> trim l \<noteq> [] \<and> \<not> starts_with ''```'' (trim l)"

definition buffer_ok :: "string \<Rightarrow> bool" where
  "buffer_ok b \<longleftrightarrow> (\<exists>ls. b = concat (map (\<lambda>l. l @ [nl]) ls) \<and> list_all code_line_ok ls)"

definition slide_ok :: "char set \<Rightarrow> slide \<Rightarrow> bool" where
  "slide_ok X s \<longleftrightarrow> slide_texts X s \<and> (case code s of None \<Rightarrow> True | Some c \<Rightarrow> clean_code c)"

definition state_ok :: "char set \<Rightarrow> pstate \<Rightarrow> bool" where
  "state_ok X st \<longleftrightarrow> list_all (slide_ok X) (p_heap st)
     \<and> list_all (\<lambda>it. text_ok X (content it)) (p_contentGroup st) \<and> text_ok X (p_title st)
     \<and> buffer_ok (p_codeBuffer st)"

subsection \<open>The texts stay trimmed and free of \<open>X\<close>\<close>

lemma text_ok_trim: "set s \<inter> X = {} \<Longrightarrow> text_ok X (trim s)"
  using set_trim [of s] by (auto simp: text_ok_def trim_trim)

lemma text_ok_Nil [simp]: "text_ok X []"
  by (simp add: text_ok_def trim_def)

lemma slide_ok_new [simp]: "slide_ok X (new_slide t) \<longleftrightarrow> text_ok X t"
  by (simp add: slide_ok_def slide_texts_def new_slide_def)

lemma list_all_update: "list_all P xs \<Longrightarrow> P x \<Longrightarrow> list_all P (xs[i := x])"
  by (auto simp: list_all_iff dest: set_update_subset_insert [THEN subsetD])

lemma ok_push_point:
  assumes h: "list_all (slide_ok X) h" and p: "text_ok X p"
  shows "list_all (slide_ok X) (push_point r p h)"
proof (cases "r < length h")
  case True
  from h True have "slide_ok X (h ! r)" by (simp add: list_all_length)
  with p have "slide_ok X ((h ! r)\<lparr>points := points (h ! r) @ [p]\<rparr>)"
    by (simp add: slide_ok_def slide_texts_def)
  with h show ?thesis by (simp add: push_point_def list_all_update)
qed (simp add: h push_point_def list_update_beyond)

lemma ok_set_code:
  "list_all (slide_ok X) h \<Longrightarrow> clean_code c \<Longrightarrow> list_all (slide_ok X) (set_code r c h)"
  by (auto simp: list_all_length set_code_nth slide_ok_def slide_texts_def)

lemma ok_fold_push:
  "list_all (slide_ok X) h \<Longrightarrow> list_all (\<lambda>it. text_ok X (content it)) g \<Longrightarrow>
   list_all (slide_ok X) (fold (\<lambda>it. push_point r (content it)) g h)"
  by (induction g arbitrary: h) (simp_all add: ok_push_point)

lemma ok_hier_walk:
  "hier_walk g cbs sl h = (cbs', sl', h') \<Longrightarrow> list_all (slide_ok X) h \<Longrightarrow>
   list_all (\<lambda>it. text_ok X (content it)) g \<Longrightarrow> text_ok X content_title \<Longrightarrow>
   list_all (slide_ok X) h'"
proof (induction g arbitrary: cbs sl h)
  case (Cons it g)
  then show ?case
    by (cases "is_head it") (auto simp: alloc_def ok_push_point Let_def split: option.splits)
qed simp

lemma ok_flush:
  "state_ok X st \<Longrightarrow> text_ok X content_title \<Longrightarrow> state_ok X (flushContentGroup st)"
  unfolding state_ok_def flushContentGroup_def
  using ok_hier_walk [of "p_contentGroup st" None "p_slides st" "p_heap st" _ _ _ X]
  by (auto simp: flush_hier_def flush_flat_def Let_def alloc_def ok_fold_push
      split: prod.splits option.splits)

lemma set_replace_first_Nil: "set (replace_first pat [] t) \<subseteq> set t"
  by (induction t) (auto dest: in_set_dropD)

lemma text_ok_h1_text: "set t \<inter> X = {} \<Longrightarrow> text_ok X (h1_text t)"
  unfolding h1_text_def using set_replace_first_Nil [of "''# ''" t]
  by (intro text_ok_trim) blast

lemma text_ok_h23_text: "set t \<inter> X = {} \<Longrightarrow> text_ok X (h23_text t)"
  unfolding h23_text_def Let_def
  by (intro text_ok_trim) (auto dest: set_dropWhileD in_set_dropD)

lemma bullet_match_content:
  assumes "bullet_match line = Some (i, c)"
  shows "set c \<subseteq> set line \<and> trim c = c"
proof (cases "dropWhile is_ws line")
  case Nil
  with assms show ?thesis by (simp add: bullet_match_def)
next
  case (Cons x r)
  with assms have c: "c = trim (takeWhile (\<lambda>x. \<not> is_lineterm x) (dropWhile is_ws r))"
    by (simp add: bullet_match_def split: if_splits)
  have "set r \<subseteq> set line"
    using Cons set_dropWhileD [of _ is_ws line] by (metis list.set_intros(2) subsetI)
  moreover have "set c \<subseteq> set r"
    unfolding c using set_trim by (fastforce dest: set_takeWhileD set_dropWhileD)
  ultimately show ?thesis using c trim_trim by blast
qed

lemma text_ok_line_item:
  assumes "set line \<inter> X = {}"
  shows "text_ok X (content (line_item line (trim line)))"
proof (cases "bullet_match line")
  case None
  with assms show ?thesis by (simp add: line_item_def text_ok_trim)
next
  case (Some m)
  then obtain i c where m: "bullet_match line = Some (i, c)" by (cases m) simp
  with bullet_match_content [OF m] assms show ?thesis
    by (auto simp: line_item_def text_ok_def)
qed

subsection \<open>The code buffer holds whole code lines\<close>

lemma is_ws_nl: "is_ws nl"
  by (simp add: is_ws_def nl_def)

lemma buffer_ok_Nil [simp]: "buffer_ok []"
  by (auto simp: buffer_ok_def intro: exI [of _ "[]"])

lemma buffer_ok_snoc:
  assumes "buffer_ok b" "code_line_ok l"
  shows "buffer_ok (b @ l @ [nl])"
proof -
  obtain ls where "b = concat (map (\<lambda>l. l @ [nl]) ls)" "list_all code_line_ok ls"
    using assms(1) by (auto simp: buffer_ok_def)
  with assms(2) show ?thesis by (auto simp: buffer_ok_def intro!: exI [of _ "ls @ [l]"])
qed

lemma concat_map_nl: "ls \<noteq> [] \<Longrightarrow> concat (map (\<lambda>l. l @ [nl]) ls) = join_nl ls @ [nl]"
  by (induction ls rule: join_nl.induct) auto

text \<open>What \<open>currentSlide.code = codeBuffer.trim()\<close> stores has no fence line: the
  trim only shortens the first and the last line.\<close>

lemma clean_code_buffer:
  assumes b: "buffer_ok b" and ne: "b \<noteq> []"
  shows "clean_code (trim b)"
proof -
  obtain ls where ls: "b = concat (map (\<lambda>l. l @ [nl]) ls)" "list_all code_line_ok ls"
    using b by (auto simp: buffer_ok_def)
  have lne: "ls \<noteq> []" using ls(1) ne by auto
  have "trim b = trim (join_nl ls)"
    using ls(1) lne is_ws_nl by (simp add: concat_map_nl trim_snoc_ws)
  moreover obtain ms where ms: "ms \<noteq> []" "trim (join_nl ls) = join_nl ms"
      "\<forall>m\<in>set ms. \<exists>l\<in>set ls. trim m = trim l \<and> set m \<subseteq> set l"
    using trim_join_nl [OF lne] ls(2) by (auto simp: list_all_iff code_line_ok_def)
  moreover have "list_all (\<lambda>l. nl \<notin> set l) ms"
    using ms(3) ls(2) by (fastforce simp: list_all_iff code_line_ok_def)
  ultimately show ?thesis
    using ms(3) ls(2) by (fastforce simp: clean_code_def split_nl_join_nl list_all_iff code_line_ok_def)
qed

subsection \<open>The loop keeps the invariant\<close>

lemma ok_fence_toggle:
  assumes "state_ok X st" "text_ok X content_title"
  shows "state_ok X (fence_toggle st)"
proof -
  have f: "state_ok X (flushContentGroup st)" using assms by (rule ok_flush)
  then have "clean_code (trim (p_codeBuffer (flushContentGroup st)))"
    if "p_codeBuffer (flushContentGroup st) \<noteq> []"
    using that clean_code_buffer by (simp add: state_ok_def)
  with f show ?thesis
    by (auto simp: fence_toggle_def Let_def state_ok_def ok_set_code split: option.splits)
qed

lemma ok_code_line:
  "state_ok X st \<Longrightarrow> code_line_ok line \<Longrightarrow> state_ok X (code_line st line)"
  by (simp add: state_ok_def code_line_def buffer_ok_snoc)

lemma step_ok:
  assumes st: "state_ok X st" and l: "set line \<inter> X = {}" "nl \<notin> set line"
    and ct: "text_ok X content_title"
  shows "state_ok X (step st line)"
proof -
  have f: "state_ok X (flushContentGroup st)" using st ct by (rule ok_flush)
  hence pf: "state_ok X (push_current (flushContentGroup st))"
    by (simp add: state_ok_def push_current_def split: option.splits)
  have tl: "set (trim line) \<inter> X = {}" using l(1) set_trim by blast
  have h1: "text_ok X (h1_text (trim line))" using tl by (rule text_ok_h1_text)
  have h23: "text_ok X (h23_text (trim line))" using tl by (rule text_ok_h23_text)
  have it: "text_ok X (content (line_item line (trim line)))" using l(1) by (rule text_ok_line_item)
  have cl: "trim line \<noteq> [] \<Longrightarrow> \<not> starts_with ''```'' (trim line) \<Longrightarrow> state_ok X (code_line st line)"
    using st l(2) by (simp add: ok_code_line code_line_ok_def)
  show ?thesis
    using st f pf h1 h23 it cl ok_fence_toggle [OF st ct]
    by (auto simp: step_def Let_def heading1_def heading23_def separator_def add_item_def
        state_ok_def alloc_def split: prod.splits)
qed

lemma run_ok:
  "state_ok X st \<Longrightarrow> \<forall>l\<in>set ls. set l \<inter> X = {} \<and> nl \<notin> set l \<Longrightarrow> text_ok X content_title \<Longrightarrow>
   state_ok X (run st ls)"
  by (induction ls arbitrary: st) (simp_all add: run_Cons step_ok)

lemma finish_ok:
  "state_ok X st \<Longrightarrow> text_ok X content_title \<Longrightarrow> state_ok X (finish st)"
  using ok_flush [of X st]
  by (auto simp: finish_def Let_def state_ok_def split: option.splits)

subsection \<open>Parsed decks\<close>

lemma parse_ok:
  assumes md: "set md \<inter> X \<subseteq> {nl}" and ct: "text_ok X content_title"
    and tp: "text_ok X title_placeholder"
  shows "text_ok X (deck_title (parseMarkdownToSlides md))
         \<and> list_all (slide_ok X) (deck_slides (parseMarkdownToSlides md))"
proof -
  define st where "st = finish (run init_state (split_nl md))"
  have "state_ok X init_state" by (simp add: state_ok_def init_state_def)
  moreover have "\<forall>l\<in>set (split_nl md). set l \<inter> X = {} \<and> nl \<notin> set l"
    using md split_nl_set by fastforce
  ultimately have o: "state_ok X st" unfolding st_def using ct by (intro finish_ok run_ok)
  have wf: "wf_state st" unfolding st_def using wf_init run_keeps finish_keeps by blast
  have "slide_ok X (mark_sections (p_slides st) (p_heap st) ! r)" if r: "r \<in> set (p_slides st)" for r
  proof -
    have "r < length (p_heap st)" using wf r by (auto simp: wf_state_def refs_ok_def list_all_iff)
    with o show ?thesis
      by (simp add: mark_sections_at state_ok_def list_all_length slide_ok_def slide_texts_def)
  qed
  with o tp show ?thesis
    by (auto simp: parseMarkdownToSlides_def st_def [symmetric] Let_def state_ok_def list_all_iff)
qed

lemma deck_title_nonempty: "deck_title (parseMarkdownToSlides md) \<noteq> []"
  by (simp add: parseMarkdownToSlides_def Let_def title_placeholder_def)

lemma text_ok_consts:
  "text_ok {nl, CHR 0x0D} content_title" "text_ok {nl, CHR 0x0D} title_placeholder"
  by (simp_all add: text_ok_def content_title_def title_placeholder_def nl_def trim_def is_ws_def)

lemma clean_text_ok: "text_ok X t \<Longrightarrow> nl \<in> X \<Longrightarrow> t \<noteq> [] \<Longrightarrow> clean_text t"
  using trim_ends [of t] by (auto simp: text_ok_def clean_text_def)

lemma clean_point_ok: "text_ok {nl, CHR 0x0D} p \<Longrightarrow> clean_point p"
  using trim_ends [of p]
  by (auto simp: text_ok_def clean_point_def list_all_iff is_lineterm_def nl_def)

lemma clean_slide_ok:
  "slide_ok {nl, CHR 0x0D} s \<Longrightarrow> title s \<noteq> [] \<Longrightarrow> clean_slide s"
  by (auto simp: slide_ok_def slide_texts_def clean_slide_def clean_text_ok clean_point_ok
      list_all_iff)

subsection \<open>Every text of a parsed deck is one trimmed line\<close>

text \<open>C26: every text of a parsed deck is one trimmed line: the deck title, and every
  slide's title and points, contain no newline and are unchanged by \<open>trim\<close>.  So the
  re-serialisation of a parsed deck writes each of them on a line of its own.\<close>

theorem parse_one_line:
  "text_ok {nl} (deck_title (parseMarkdownToSlides md))
   \<and> (\<forall>s \<in> set (deck_slides (parseMarkdownToSlides md)). slide_texts {nl} s)"
proof -
  have "text_ok {nl} content_title" "text_ok {nl} title_placeholder"
    using text_ok_consts by (auto simp: text_ok_def)
  from parse_ok [of md "{nl}", OF _ this] show ?thesis
    by (auto simp: list_all_iff slide_ok_def)
qed

theorem parse_one_line_witness:
  "text_ok {nl} (deck_title (parseMarkdownToSlides ''# D\<newline>## A\<newline>- a\<newline>---''))
   \<and> slide_texts {nl} (hd (deck_slides (parseMarkdownToSlides ''# D\<newline>## A\<newline>- a\<newline>---'')))"
proof -
  have ne: "deck_slides (parseMarkdownToSlides ''# D\<newline>## A\<newline>- a\<newline>---'') \<noteq> []" by code_simp
  from parse_one_line [of "''# D\<newline>## A\<newline>- a\<newline>---''"] ne show ?thesis by simp
qed

subsection \<open>Printing a parsed deck and parsing it again\<close>

text \<open>C28: the Markdown printed from a parsed deck parses back to the same deck except for
  the code blocks, provided the input has no carriage return and no slide of the deck has an
  empty title (a \<open>---\<close> separator, or a bullet \<open>"- "\<close> without text heading a
  hierarchical group, gives one).  Parsing is idempotent up to code: the deck title, every
  slide's title, points and section flag survive; the code a level-1 slide carries is
  dropped, because the reparsed slides come from \<open>##\<close> headings.\<close>

theorem parse_print_parse:
  assumes cr: "CHR 0x0D \<notin> set md"
    and t: "list_all (\<lambda>s. title s \<noteq> []) (deck_slides (parseMarkdownToSlides md))"
  shows "parseMarkdownToSlides (print_deck (parseMarkdownToSlides md))
         = (parseMarkdownToSlides md)\<lparr>deck_slides :=
              map (\<lambda>s. s\<lparr>code := None\<rparr>) (deck_slides (parseMarkdownToSlides md))\<rparr>"
proof -
  let ?d = "parseMarkdownToSlides md"
  have "set md \<inter> {nl, CHR 0x0D} \<subseteq> {nl}" using cr by auto
  from parse_ok [OF this text_ok_consts]
  have ok: "text_ok {nl, CHR 0x0D} (deck_title ?d)" "list_all (slide_ok {nl, CHR 0x0D}) (deck_slides ?d)"
    by auto
  have "printable ?d"
    using ok t deck_title_nonempty [of md]
    by (auto simp: printable_def list_all_iff clean_text_ok clean_slide_ok)
  from parse_print_roundtrip [OF this]
  have rt: "parseMarkdownToSlides (print_deck ?d)
      = \<lparr>deck_title = deck_title ?d, deck_slides = map parsed_slide (deck_slides ?d)\<rparr>" .
  have "parsed_slide s = s\<lparr>code := None\<rparr>" if "s \<in> set (deck_slides ?d)" for s
    using parse_section_iff [OF that] by (cases s) (simp add: parsed_slide_def)
  then show ?thesis by (simp add: rt)
qed

theorem parse_print_parse_witness:
  "CHR 0x0D \<notin> set ''# D\<newline># S\<newline>- a\<newline>```\<newline>x\<newline>```''
   \<and> list_all (\<lambda>s. title s \<noteq> []) (deck_slides (parseMarkdownToSlides ''# D\<newline># S\<newline>- a\<newline>```\<newline>x\<newline>```''))
   \<and> parseMarkdownToSlides ''# D\<newline># S\<newline>- a\<newline>```\<newline>x\<newline>```''
       = \<lparr>deck_title = ''D'', deck_slides =
            [\<lparr>title = ''S'', points = [''a''], code = Some ''x'', sectionHeader = False\<rparr>]\<rparr>
   \<and> parseMarkdownToSlides (print_deck (parseMarkdownToSlides ''# D\<newline># S\<newline>- a\<newline>```\<newline>x\<newline>```''))
       = \<lparr>deck_title = ''D'', deck_slides =
            [\<lparr>title = ''S'', points = [''a''], code = None, sectionHeader = False\<rparr>]\<rparr>"
proof -
  have cr: "CHR 0x0D \<notin> set ''# D\<newline># S\<newline>- a\<newline>```\<newline>x\<newline>```''" by simp
  have p: "parseMarkdownToSlides ''# D\<newline># S\<newline>- a\<newline>```\<newline>x\<newline>```''
       = \<lparr>deck_title = ''D'', deck_slides =
            [\<lparr>title = ''S'', points = [''a''], code = Some ''x'', sectionHeader = False\<rparr>]\<rparr>"
    by code_simp
  have t: "list_all (\<lambda>s. title s \<noteq> []) (deck_slides (parseMarkdownToSlides ''# D\<newline># S\<newline>- a\<newline>```\<newline>x\<newline>```''))"
    by (simp add: p)
  show ?thesis using parse_print_parse [OF cr t] cr t p by simp
qed

subsection \<open>Every heading outside a code block yields a slide\<close>

lemma step_h23_line:
  "is_h23 (trim l) \<Longrightarrow> \<not> p_inCodeBlock st \<Longrightarrow> step st l = heading23 st (h23_text (trim l))"
  by (auto simp: step_def Let_def is_h1_def is_h23_def starts_with_iff)

lemma extends_keeps_slide:
  "extends_state st st' \<Longrightarrow> r \<in> set (p_slides st) \<Longrightarrow> r < length (p_heap st) \<Longrightarrow>
   r \<in> set (p_slides st') \<and> r < length (p_heap st') \<and> title (p_heap st' ! r) = title (p_heap st ! r)"
  by (auto simp: extends_state_def heap_ext_def starts_with_iff)

text \<open>C27: whatever follows it, a \<open>##\<close> (or \<open>###\<close>) heading line that the parser
  reaches outside a fenced code block ends up as a slide of the parsed deck, titled with the
  heading's text.  No later line can remove it: the slide list and the heap only grow.\<close>

theorem heading2_slide_emitted:
  assumes lines: "list_all (\<lambda>x. nl \<notin> set x) (pre @ l # post)"
    and h: "is_h23 (trim l)" and nc: "\<not> p_inCodeBlock (run init_state pre)"
  shows "\<exists>s \<in> set (deck_slides (parseMarkdownToSlides (join_nl (pre @ l # post)))).
           title s = h23_text (trim l)"
proof -
  let ?st0 = "run init_state pre"
  let ?st1 = "step ?st0 l"
  define st where "st = finish (run ?st1 post)"
  have wf0: "wf_state ?st0" using run_keeps [OF wf_init] by blast
  have wf1: "wf_state ?st1" using step_keeps [OF wf0] by blast
  have ext: "extends_state ?st1 st"
    unfolding st_def using run_keeps [OF wf1] finish_keeps extends_state_trans by blast
  have split: "split_nl (join_nl (pre @ l # post)) = pre @ l # post"
    using lines by (simp add: split_nl_join_nl)
  have st: "finish (run init_state (split_nl (join_nl (pre @ l # post)))) = st"
    by (simp add: split st_def run_append run_Cons)
  obtain r where r: "r \<in> set (p_slides ?st1)" "r < length (p_heap ?st1)"
      "title (p_heap ?st1 ! r) = h23_text (trim l)"
    using heading23_pushes [of ?st0 "h23_text (trim l)"] step_h23_line [OF h nc] by auto
  from extends_keeps_slide [OF ext r(1,2)] r(3) have
    r': "r \<in> set (p_slides st)" "r < length (p_heap st)" "title (p_heap st ! r) = h23_text (trim l)"
    by auto
  then have "title (mark_sections (p_slides st) (p_heap st) ! r) = h23_text (trim l)"
    by (simp add: mark_sections_at)
  with r' show ?thesis
    by (auto simp: parseMarkdownToSlides_def st Let_def)
qed

theorem heading2_slide_emitted_witness:
  "list_all (\<lambda>x. nl \<notin> set x) ([''```'', ''x'', ''```''] @ ''  ## Plan'' # [''- a''])
   \<and> is_h23 (trim ''  ## Plan'') \<and> \<not> p_inCodeBlock (run init_state [''```'', ''x'', ''```''])
   \<and> (\<exists>s \<in> set (deck_slides (parseMarkdownToSlides
        (join_nl ([''```'', ''x'', ''```''] @ ''  ## Plan'' # [''- a''])))). title s = ''Plan'')"
proof -
  have a: "list_all (\<lambda>x. nl \<notin> set x) ([''```'', ''x'', ''```''] @ ''  ## Plan'' # [''- a''])"
    by (simp add: nl_def)
  have b: "is_h23 (trim ''  ## Plan'')" by code_simp
  have c: "\<not> p_inCodeBlock (run init_state [''```'', ''x'', ''```''])" by code_simp
  have d: "h23_text (trim ''  ## Plan'') = ''Plan''" by code_simp
  show ?thesis using heading2_slide_emitted [OF a b c] a b c d by simp
qed

end
