(* ===== verification/Render.thy ===== *)
theory Render
  imports Parser
begin

text \<open>
  Rendering of a parsed deck into the host presentation (\<open>createSlidesFromMarkdown\<close>,
  \<open>src/code2.js\<close> lines 11--65) and the code-block insertion it calls
  (\<open>insertCodeBlockText_\<close>, \<open>src/code.js\<close> lines 305--327).  The host (SlidesApp) is
  not repository code; it is modelled at the interface the code uses: a presentation is a
  list of slides with object ids, \<open>appendSlide\<close> adds one at the end with a fresh id,
  \<open>Slide.move(i)\<close> re-inserts a slide at index \<open>i\<close> read in the arrangement before the
  move, and a layout has a fixed number of placeholder shapes (\<open>layout_shapes\<close>:
  TITLE and TITLE_AND_BODY two, SECTION_HEADER one, the title only).  Setting text,
  fonts and list styles is recorded as the slide's title, body paragraphs and code box.
  An exception (\<open>getShapes()[1]\<close> undefined) aborts the loop after the current slide
  was appended, leaving the appended slides in place and unmoved.  Names drop the
  source's trailing underscore, which Isabelle does not accept.
\<close>

text \<open>\<open>codeblock.replace(/(\\n)+/g, "\\n")\<close>: each run of newlines becomes one.\<close>

function collapse_nl :: "string \<Rightarrow> string" where
  "collapse_nl [] = []"
| "collapse_nl (c # s) =
     (if c = nl then nl # collapse_nl (dropWhile (\<lambda>x. x = nl) s) else c # collapse_nl s)"
  by pat_completeness auto
termination
  by (relation "measure length") (auto simp: le_imp_less_Suc length_dropWhile_le)

text \<open>The text box \<open>insertCodeBlockText_\<close> adds.  It is
  \<open>bodyShape.duplicate()\<close>, so it starts with a copy of the paragraphs the body shape
  holds at the time of the call (\<open>cb_copied\<close>), unformatted; then one paragraph per code
  line, Courier, size 8 above 20 lines and 12 otherwise.\<close>

record code_box =
  cb_copied :: "string list"
  cb_paragraphs :: "string list"
  cb_fontSize :: nat

text \<open>\<open>insertCodeBlockText_(codeblock, slide)\<close>, given the paragraphs of
  \<open>slide.getShapes()[1]\<close>; \<open>None\<close> is the early \<open>return\<close> taken when the collapsed
  code has at most one line.\<close>

definition insertCodeBlockText :: "string \<Rightarrow> string list \<Rightarrow> code_box option" where
  "insertCodeBlockText codeblock body =
     (let texts = split_nl (collapse_nl codeblock) in
      if length texts \<le> 1 then None
      else Some \<lparr>cb_copied = body, cb_paragraphs = texts,
                  cb_fontSize = (if 20 < length texts then 8 else 12)\<rparr>)"

text \<open>No two consecutive newlines.\<close>

fun no_double_nl :: "string \<Rightarrow> bool" where
  "no_double_nl (a # b # s) = (\<not> (a = nl \<and> b = nl) \<and> no_double_nl (b # s))"
| "no_double_nl _ = True"

text \<open>Position of an object id in the slide list (\<open>findIndex\<close>; length when absent).\<close>

fun pos_of :: "'a \<Rightarrow> 'a list \<Rightarrow> nat" where
  "pos_of x [] = 0"
| "pos_of x (y # ys) = (if x = y then 0 else Suc (pos_of x ys))"

text \<open>\<open>Slide.move(i)\<close>: the index is read in the arrangement before the move.\<close>

definition move_slide :: "'a \<Rightarrow> nat \<Rightarrow> 'a list \<Rightarrow> 'a list" where
  "move_slide x i xs =
     (let p = pos_of x xs; rest = remove1 x xs; j = (if i \<le> p then i else i - 1)
      in take j rest @ x # drop j rest)"

definition move_all :: "'a list \<Rightarrow> nat \<Rightarrow> 'a list \<Rightarrow> 'a list" where
  "move_all added i xs = fold (\<lambda>x. move_slide x i) (rev added) xs"


datatype layout = TITLE | TITLE_AND_BODY | SECTION_HEADER

definition layout_shapes :: "layout \<Rightarrow> nat" where
  "layout_shapes l = (case l of TITLE \<Rightarrow> 2 | TITLE_AND_BODY \<Rightarrow> 2 | SECTION_HEADER \<Rightarrow> 1)"

record rslide =
  rs_layout :: layout
  rs_title :: string
  rs_body :: "string list"
  rs_code :: "code_box list"

datatype render_error = NoBodyShape

record presentation =
  pr_slides :: "(nat \<times> rslide) list"
  pr_next :: nat

definition appendSlide :: "rslide \<Rightarrow> presentation \<Rightarrow> (nat \<times> rslide) \<times> presentation" where
  "appendSlide r p =
     (let x = (pr_next p, r) in (x, p\<lparr>pr_slides := pr_slides p @ [x], pr_next := Suc (pr_next p)\<rparr>))"

definition getSlideIndexByObjectId :: "nat \<Rightarrow> presentation \<Rightarrow> nat" where
  "getSlideIndexByObjectId oid p =
     (let i = pos_of oid (map fst (pr_slides p)) in if i < length (pr_slides p) then i else 0)"

definition render_md_slide :: "slide \<Rightarrow> rslide \<times> render_error option" where
  "render_md_slide s =
     (let lay = (if sectionHeader s then SECTION_HEADER else TITLE_AND_BODY);
          has_body = 2 \<le> layout_shapes lay;
          base = \<lparr>rs_layout = lay, rs_title = title s, rs_body = [], rs_code = []\<rparr>
      in if points s \<noteq> [] \<and> \<not> has_body then (base, Some NoBodyShape)
         else
           (let r1 = base\<lparr>rs_body := points s\<rparr> in
            case code s of
              None \<Rightarrow> (r1, None)
            | Some c \<Rightarrow>
                (if c = [] then (r1, None)
                 else case insertCodeBlockText c (points s) of
                   None \<Rightarrow> (r1, None)
                 | Some b \<Rightarrow> (if has_body then (r1\<lparr>rs_code := [b]\<rparr>, None) else (r1, Some NoBodyShape)))))"

text \<open>The \<open>forEach\<close> over the slide data shared by both renderers, given the renderer of
  one slide: each slide is appended, then filled; an exception stops the loop with the
  slides appended so far left in place.\<close>

fun render_all :: "('s \<Rightarrow> rslide \<times> 'e option) \<Rightarrow> 's list \<Rightarrow> presentation \<Rightarrow> (nat \<times> rslide) list
    \<Rightarrow> 'e option \<times> presentation \<times> (nat \<times> rslide) list" where
  "render_all f [] p added = (None, p, added)"
| "render_all f (s # ss) p added =
     (case f s of
        (r, err) \<Rightarrow>
          (let (x, p') = appendSlide r p in
           case err of
             Some e \<Rightarrow> (Some e, p', added @ [x])
           | None \<Rightarrow> render_all f ss p' (added @ [x])))"

definition title_rslide :: "string \<Rightarrow> rslide" where
  "title_rslide t = \<lparr>rs_layout = TITLE, rs_title = t, rs_body = [], rs_code = []\<rparr>"

definition createSlidesFromMarkdown :: "string \<Rightarrow> nat option \<Rightarrow> presentation
    \<Rightarrow> render_error option \<times> presentation" where
  "createSlidesFromMarkdown markdown sel p =
     (let d = parseMarkdownToSlides markdown;
          si = (case sel of
                  Some oid \<Rightarrow> int (getSlideIndexByObjectId oid p)
                | None \<Rightarrow> int (length (pr_slides p)) - 1);
          (t, p1) = appendSlide (title_rslide (deck_title d)) p;
          (err, p2, added) = render_all render_md_slide (deck_slides d) p1 [t]
      in case err of
           Some e \<Rightarrow> (Some e, p2)
         | None \<Rightarrow> (None, p2\<lparr>pr_slides := move_all added (nat (si + 1)) (pr_slides p2)\<rparr>))"

subsection \<open>Code boxes\<close>

lemma collapse_nl_hd: "collapse_nl s \<noteq> [] \<Longrightarrow> s \<noteq> [] \<and> hd (collapse_nl s) = hd s"
  by (cases s) auto

lemma no_double_nl_collapse: "no_double_nl (collapse_nl s)"
proof (induction s rule: collapse_nl.induct)
  case 1
  then show ?case by simp
next
  case (2 c s)
  show ?case
  proof (cases "c = nl")
    case True
    let ?r = "dropWhile (\<lambda>x. x = nl) s"
    have "?r = [] \<or> hd ?r \<noteq> nl"
      by (metis (mono_tags) dropWhile_eq_Nil_conv hd_dropWhile)
    hence "collapse_nl ?r = [] \<or> hd (collapse_nl ?r) \<noteq> nl"
      using collapse_nl_hd by metis
    with True "2.IH"(1) show ?thesis
      by (cases "collapse_nl ?r") auto
  next
    case False
    with "2.IH"(2) show ?thesis
      by (cases "collapse_nl s") auto
  qed
qed

lemma collapse_nl_plain: "nl \<notin> set l \<Longrightarrow> collapse_nl l = l"
  by (induction l rule: collapse_nl.induct) auto

lemma collapse_nl_append:
  "nl \<notin> set l \<Longrightarrow> collapse_nl (l @ rest) = l @ collapse_nl rest"
  by (induction l) auto

lemma join_nl_lines:
  "\<forall>l\<in>set ls. l \<noteq> [] \<and> nl \<notin> set l \<Longrightarrow> ls \<noteq> [] \<Longrightarrow>
   collapse_nl (join_nl ls) = join_nl ls \<and> split_nl (join_nl ls) = ls"
proof (induction ls rule: join_nl.induct)
  case 1
  then show ?case by simp
next
  case (2 l)
  then show ?case by (simp add: collapse_nl_plain split_nl_plain)
next
  case (3 l l' ls)
  hence IH: "collapse_nl (join_nl (l' # ls)) = join_nl (l' # ls) \<and> split_nl (join_nl (l' # ls)) = l' # ls"
    by simp
  have l: "nl \<notin> set l" using "3.prems" by simp
  have hd: "hd (join_nl (l' # ls)) \<noteq> nl" "join_nl (l' # ls) \<noteq> []"
    using "3.prems" by (cases ls; cases l'; auto)+
  have "collapse_nl (nl # join_nl (l' # ls)) = nl # join_nl (l' # ls)"
    using hd IH by (cases "join_nl (l' # ls)") auto
  with l IH show ?case
    by (simp add: collapse_nl_append split_nl_append)
qed

text \<open>C13: code made of at least two non-empty lines joined by newlines (as the parser
  produces for a block of non-blank lines) is drawn as one paragraph per line, in order,
  at size 12, or 8 above twenty lines, below a copy of the body's paragraphs.\<close>

theorem insertCodeBlockText_lines:
  assumes "2 \<le> length ls" "\<forall>l\<in>set ls. l \<noteq> [] \<and> nl \<notin> set l"
  shows "insertCodeBlockText (join_nl ls) body =
           Some \<lparr>cb_copied = body, cb_paragraphs = ls, cb_fontSize = (if 20 < length ls then 8 else 12)\<rparr>"
proof -
  have "ls \<noteq> []" using assms(1) by auto
  with assms join_nl_lines [of ls] show ?thesis
    by (simp add: insertCodeBlockText_def)
qed

text \<open>C14: code without a newline is never drawn: the collapsed text splits into one
  line and \<open>insertCodeBlockText_\<close> returns before creating the box, so a one-line
  fenced block of the outline is silently lost.\<close>

theorem insertCodeBlockText_single_line:
  "nl \<notin> set c \<Longrightarrow> insertCodeBlockText c body = None"
  by (simp add: insertCodeBlockText_def collapse_nl_plain split_nl_plain)

text \<open>C24: in \<open>createSlidesFromMarkdown\<close> the bullets are appended before
  \<open>insertCodeBlockText_\<close> runs, and the code box is a duplicate of the body shape: every
  drawn code box of a body slide starts with a copy of that slide's bullets.\<close>

theorem render_md_code_copies_points:
  assumes "\<not> sectionHeader s" "code s = Some c" "insertCodeBlockText c (points s) = Some b"
  shows "rs_code (fst (render_md_slide s)) = [b] \<and> cb_copied b = points s"
proof -
  have "c \<noteq> []" using assms(3) by (auto simp: insertCodeBlockText_def)
  with assms show ?thesis
    by (auto simp: render_md_slide_def Let_def layout_shapes_def insertCodeBlockText_def
        split: if_splits)
qed

subsection \<open>Moving the new slides after the selected one\<close>

lemma pos_of_append: "x \<notin> set ys \<Longrightarrow> pos_of x (ys @ x # zs) = length ys"
  by (induction ys) auto

lemma move_slide_last:
  assumes "distinct (ys @ [x])" "k \<le> length ys"
  shows "move_slide x k (ys @ [x]) = take k ys @ x # drop k ys"
proof -
  have "x \<notin> set ys" using assms(1) by simp
  hence "pos_of x (ys @ [x]) = length ys" and "remove1 x (ys @ [x]) = ys"
    by (simp_all add: pos_of_append remove1_append)
  with assms(2) show ?thesis by (simp add: move_slide_def)
qed

lemma distinct_take_drop_mix:
  assumes "distinct (old @ xs @ ys)"
  shows "distinct (take k old @ ys @ drop k old @ xs)"
proof -
  have o: "distinct old" using assms by simp
  have dj: "set (take k old) \<inter> set (drop k old) = {}"
    using set_take_disj_set_drop_if_distinct [OF o order_refl] .
  from assms show ?thesis
    using o dj by (auto dest: in_set_takeD in_set_dropD)
qed

lemma move_all_block:
  assumes "distinct (old @ xs @ ys)" "k \<le> length old"
  shows "fold (\<lambda>x. move_slide x k) (rev xs) (take k old @ ys @ drop k old @ xs)
           = take k old @ xs @ ys @ drop k old"
  using assms
proof (induction xs arbitrary: ys rule: rev_induct)
  case Nil
  then show ?case by simp
next
  case (snoc y xs)
  let ?pre = "take k old @ ys @ drop k old @ xs"
  have d: "distinct (?pre @ [y])"
    using distinct_take_drop_mix [of old "xs @ [y]" ys k] snoc.prems(1) by simp
  have k: "k \<le> length ?pre" using snoc.prems(2) by simp
  have "move_slide y k (?pre @ [y]) = take k old @ (y # ys) @ drop k old @ xs"
    using move_slide_last [OF d k] snoc.prems(2) by (simp add: min_def)
  moreover have "distinct (old @ xs @ y # ys)" using snoc.prems(1) by auto
  ultimately show ?case
    using snoc.IH [of "y # ys"] snoc.prems(2) by simp
qed

lemma move_all_after:
  "distinct (old @ added) \<Longrightarrow> k \<le> length old \<Longrightarrow>
   move_all added k (old @ added) = take k old @ added @ drop k old"
proof -
  assume d: "distinct (old @ added)" and k: "k \<le> length old"
  have eq: "take k old @ [] @ drop k old @ added = old @ added"
    by (metis append_Nil append_assoc append_take_drop_id)
  from move_all_block [of old added "[]" k] d k show ?thesis
    by (simp only: eq move_all_def) simp
qed


subsection \<open>Placement of the rendered deck\<close>

lemma render_all_ok:
  "render_all f ss p added = (None, p', added') \<Longrightarrow>
   \<exists>xs. pr_slides p' = pr_slides p @ xs \<and> added' = added @ xs
     \<and> map snd xs = map (\<lambda>s. fst (f s)) ss
     \<and> map fst xs = [pr_next p ..< pr_next p + length ss]"
proof (induction ss arbitrary: p added)
  case Nil
  then show ?case by simp
next
  case (Cons s ss)
  obtain r e where rs: "f s = (r, e)" by fastforce
  let ?p1 = "snd (appendSlide r p)"
  have e: "e = None" and rec: "render_all f ss ?p1 (added @ [(pr_next p, r)]) = (None, p', added')"
    using Cons.prems rs by (auto simp: appendSlide_def Let_def split: option.splits)
  from Cons.IH [OF rec] obtain xs where
    "pr_slides p' = pr_slides ?p1 @ xs" "added' = (added @ [(pr_next p, r)]) @ xs"
    "map snd xs = map (\<lambda>s. fst (f s)) ss"
    "map fst xs = [pr_next ?p1 ..< pr_next ?p1 + length ss]" by blast
  with rs show ?case
    by (intro exI [of _ "(pr_next p, r) # xs"]) (simp del: upt_Suc add: appendSlide_def Let_def upt_conv_Cons)
qed

lemma nat_int_Suc: "nat (int k + 1) = Suc k"
  by simp

lemma pos_of_less: "x \<in> set xs \<Longrightarrow> pos_of x xs < length xs"
  by (induction xs) auto

lemma distinct_fst_imp: "distinct (map fst xs) \<Longrightarrow> distinct xs"
  by (simp add: distinct_map)

text \<open>The move loop shared by both renderers: slides appended with fresh ids, then moved
  one by one, last first, to the index after the selected slide.\<close>

lemma placement:
  assumes ids: "distinct (map fst (pr_slides p))" "\<forall>i\<in>set (map fst (pr_slides p)). i < pr_next p"
    and sel: "oid \<in> set (map fst (pr_slides p))"
    and new: "map fst added = [pr_next p ..< pr_next p + length added]"
  shows "map snd (move_all added (Suc (getSlideIndexByObjectId oid p)) (pr_slides p @ added))
    = take (Suc (pos_of oid (map fst (pr_slides p)))) (map snd (pr_slides p)) @ map snd added
      @ drop (Suc (pos_of oid (map fst (pr_slides p)))) (map snd (pr_slides p))"
proof -
  let ?old = "pr_slides p"
  let ?k = "pos_of oid (map fst ?old)"
  have k: "?k < length ?old" using pos_of_less [OF sel] by simp
  have gi: "getSlideIndexByObjectId oid p = ?k"
    using k by (simp add: getSlideIndexByObjectId_def)
  have "distinct (map fst (?old @ added))"
    using ids new by auto
  hence d: "distinct (?old @ added)" by (rule distinct_fst_imp)
  show ?thesis
    using move_all_after [OF d] k gi by (simp add: take_map drop_map)
qed

text \<open>The loop and the moves together: after a successful loop the added slides sit,
  in order, right after the selected one.\<close>

lemma render_and_place:
  assumes ids: "distinct (map fst (pr_slides p))" "\<forall>i\<in>set (map fst (pr_slides p)). i < pr_next p"
    and sel: "oid \<in> set (map fst (pr_slides p))"
    and ra: "render_all f ss (snd (appendSlide r p)) [(pr_next p, r)] = (None, p2, added)"
  shows "map snd (move_all added (Suc (getSlideIndexByObjectId oid p)) (pr_slides p2)) =
           take (Suc (pos_of oid (map fst (pr_slides p)))) (map snd (pr_slides p))
           @ r # map (\<lambda>s. fst (f s)) ss
           @ drop (Suc (pos_of oid (map fst (pr_slides p)))) (map snd (pr_slides p))"
proof -
  let ?p1 = "snd (appendSlide r p)"
  from render_all_ok [OF ra] obtain xs where
    xs: "pr_slides p2 = pr_slides ?p1 @ xs" "added = [(pr_next p, r)] @ xs"
        "map snd xs = map (\<lambda>s. fst (f s)) ss"
        "map fst xs = [pr_next ?p1 ..< pr_next ?p1 + length ss]"
    by blast
  have p2: "pr_slides p2 = pr_slides p @ added" using xs by (simp add: appendSlide_def Let_def)
  have "length xs = length ss"
    using arg_cong [OF xs(3), of length] by simp
  hence "map fst added = [pr_next p ..< pr_next p + length added]"
    using xs by (simp add: appendSlide_def Let_def upt_conv_Cons del: upt_Suc)
  from placement [OF ids sel this] show ?thesis
    using p2 xs(2,3) by simp
qed

text \<open>C12: when rendering succeeds and the selected page is a slide of the presentation,
  the presentation afterwards is the old slides up to and including the selected one, then
  the title slide and one rendered slide per parsed slide in the parser's order, then the
  rest of the old slides.  Object ids are assumed distinct and below the next fresh id.\<close>

theorem createSlidesFromMarkdown_order:
  assumes ids: "distinct (map fst (pr_slides p))" "\<forall>i\<in>set (map fst (pr_slides p)). i < pr_next p"
    and sel: "oid \<in> set (map fst (pr_slides p))"
    and ok: "fst (createSlidesFromMarkdown md (Some oid) p) = None"
  shows "map snd (pr_slides (snd (createSlidesFromMarkdown md (Some oid) p))) =
           take (Suc (pos_of oid (map fst (pr_slides p)))) (map snd (pr_slides p))
           @ title_rslide (deck_title (parseMarkdownToSlides md))
             # map (\<lambda>s. fst (render_md_slide s)) (deck_slides (parseMarkdownToSlides md))
           @ drop (Suc (pos_of oid (map fst (pr_slides p)))) (map snd (pr_slides p))"
proof -
  let ?d = "parseMarkdownToSlides md"
  let ?r = "title_rslide (deck_title ?d)"
  obtain err p2 added where
    ra: "render_all render_md_slide (deck_slides ?d) (snd (appendSlide ?r p)) [(pr_next p, ?r)] = (err, p2, added)"
    by (metis prod_cases3)
  have cs: "createSlidesFromMarkdown md (Some oid) p =
      (case err of Some e \<Rightarrow> (Some e, p2)
       | None \<Rightarrow> (None, p2\<lparr>pr_slides := move_all added (nat (int (getSlideIndexByObjectId oid p) + 1)) (pr_slides p2)\<rparr>))"
    using ra by (simp add: createSlidesFromMarkdown_def appendSlide_def Let_def)
  with ok have err: "err = None" by (cases err) auto
  from render_and_place [OF ids sel ra [unfolded err]] cs [unfolded nat_int_Suc] err
  show ?thesis by simp
qed

end
