(* ===== verification/Client.thy ===== *)
theory Client
  imports Prelude
begin

text \<open>
  The parts of \<open>src/code.js\<close> that surround the network calls: the clean-up of the
  model's JSON answer (\<open>removeJsonCodeBlock_\<close>, lines 290--293), the text request
  (\<open>getTextResponse_\<close>, lines 160--195, up to the HTTP call, which is the parameter
  \<open>fetch\<close>) and the regeneration of the selected elements
  (\<open>generateTextInCurrentElement\<close>, lines 118--150).  The regeneration is stated over
  any text generator \<open>gen\<close>, the interface that the code instantiates with
  \<open>getTextResponse_(deepDive + "\n" + currentText, creativity)\<close>, i.e.
  \<open>gen = (\<lambda>p. getTextResponse fetch p creativity)\<close>.  The generator may fail: an API
  error answer has no \<open>choices\<close>, and \<open>choices[0].message\<close> (line 192) throws a
  \<open>TypeError\<close>; \<open>fetch\<close> then gives \<open>None\<close>.  The exception leaves the loops of
  \<open>generateTextInCurrentElement\<close> at the failing request, with the texts set so far in
  place.  A selection is the list of its page elements, or \<open>None\<close> when there is no
  page-element range.
\<close>


text \<open>\<open>p\<close> occurs in \<open>s\<close> (\<open>s.includes(p)\<close>).\<close>

fun contains :: "'a list \<Rightarrow> 'a list \<Rightarrow> bool" where
  "contains p [] = (p = [])"
| "contains p (c # s) = (starts_with p (c # s) \<or> contains p s)"

text \<open>\<open>s.replace(/```json/g, "").replace(/```/g, "")\<close>\<close>

definition removeJsonCodeBlock :: "string \<Rightarrow> string" where
  "removeJsonCodeBlock s = replace_all fence [] (replace_all ''```json'' [] s)"

text \<open>\<open>temperature\<close> of a chat request, in tenths: \<open>0.0\<close> for \<open>"low"\<close>,
  \<open>1.0\<close> for \<open>"high"\<close>, else \<open>0.5\<close> (the same code opens \<open>getTextResponse_\<close> and
  \<open>getSlidesResponse_\<close>).\<close>

definition temperature :: "string \<Rightarrow> nat" where
  "temperature creativity = (if creativity = ''low'' then 0 else if creativity = ''high'' then 10 else 5)"

text \<open>The parts of \<open>getTextResponse_\<close>'s request that vary (the model name is a
  constant); the HTTP call and the decoding of its answer are the parameter \<open>fetch\<close>,
  \<open>None\<close> when the answer has no \<open>choices[0]\<close>.\<close>

record text_request =
  tr_prompt :: string
  tr_max_tokens :: nat
  tr_temperature :: nat

definition getTextResponse :: "(text_request \<Rightarrow> string option) \<Rightarrow> string \<Rightarrow> string \<Rightarrow> string option" where
  "getTextResponse fetch prompt creativity =
     map_option trim (fetch \<lparr>tr_prompt = prompt, tr_max_tokens = 1000, tr_temperature = temperature creativity\<rparr>)"

datatype page_element = Shape string | Table "string list list" | OtherElement

text \<open>The exceptions: the selection guard's \<open>throw\<close> (line 121) and a failed request.\<close>

datatype text_error = NoTextSelection | ApiError

definition regen :: "(string \<Rightarrow> string option) \<Rightarrow> string \<Rightarrow> string \<Rightarrow> string option" where
  "regen gen deepDive currentText = gen (deepDive @ nl # currentText)"

text \<open>The nested loop over the table: rows \<open>1..numRows-1\<close>, all columns; once a request
  has failed, the exception skips the rest of both loops.\<close>

definition regen_table ::
  "(string \<Rightarrow> string option) \<Rightarrow> nat \<Rightarrow> nat \<Rightarrow> string list list \<Rightarrow> text_error option \<times> string list list" where
  "regen_table f numRows numCols t =
     fold (\<lambda>i. fold (\<lambda>j (e, t).
                if e \<noteq> None then (e, t)
                else case f (t ! i ! j) of
                       None \<Rightarrow> (Some ApiError, t)
                     | Some c \<Rightarrow> (None, t[i := (t ! i)[j := c]])) [0..<numCols]) [1..<numRows] (None, t)"

text \<open>One iteration of \<open>selectedElements.forEach\<close>.\<close>

fun regen_element :: "(string \<Rightarrow> string option) \<Rightarrow> string \<Rightarrow> page_element \<Rightarrow> text_error option \<times> page_element" where
  "regen_element gen deepDive (Shape txt) =
     (case regen gen deepDive txt of None \<Rightarrow> (Some ApiError, Shape txt) | Some c \<Rightarrow> (None, Shape c))"
| "regen_element gen deepDive (Table t) =
     (case regen_table (regen gen deepDive) (length t) (if t = [] then 0 else length (hd t)) t of
        (e, t') \<Rightarrow> (e, Table t'))"
| "regen_element gen deepDive OtherElement = (None, OtherElement)"

text \<open>The \<open>forEach\<close>: an exception stops it, the elements before keep their new text.\<close>

fun regen_elements :: "(string \<Rightarrow> string option) \<Rightarrow> string \<Rightarrow> page_element list
    \<Rightarrow> text_error option \<times> page_element list" where
  "regen_elements gen deepDive [] = (None, [])"
| "regen_elements gen deepDive (el # els) =
     (case regen_element gen deepDive el of
        (Some e, el') \<Rightarrow> (Some e, el' # els)
      | (None, el') \<Rightarrow> (case regen_elements gen deepDive els of (e, els') \<Rightarrow> (e, el' # els')))"

definition generateTextInCurrentElement ::
  "(string \<Rightarrow> string option) \<Rightarrow> string \<Rightarrow> page_element list option
   \<Rightarrow> text_error option \<times> page_element list option" where
  "generateTextInCurrentElement gen deepDive sel =
     (case sel of
        None \<Rightarrow> (Some NoTextSelection, None)
      | Some els \<Rightarrow> (case regen_elements gen deepDive els of (e, els') \<Rightarrow> (e, Some els')))"

subsection \<open>The JSON clean-up\<close>

lemma replace_all_keep:
  "\<not> starts_with fence (c # s) \<Longrightarrow> replace_all fence [] (c # s) = c # replace_all fence [] s"
  by (simp only: replace_all.simps(2)) simp

lemma replace_all_skip:
  "starts_with fence (c # s) \<Longrightarrow> replace_all fence [] (c # s) = replace_all fence [] (drop 2 s)"
  by (simp only: replace_all.simps(2)) (simp add: fence_def numeral_2_eq_2)

lemma replace_all_no_two_ticks:
  "\<not> starts_with ''``'' s \<Longrightarrow> \<not> starts_with ''``'' (replace_all fence [] s)"
proof (cases s)
  case Nil
  then show ?thesis by simp
next
  case (Cons c s')
  assume n2: "\<not> starts_with ''``'' s"
  hence n3: "\<not> starts_with fence (c # s')" using Cons by (auto simp: fence_def starts_with_iff)
  show ?thesis
  proof (cases "c = CHR ''`''")
    case False
    with Cons n3 show ?thesis by (simp add: replace_all_keep)
  next
    case True
    have s': "s' = [] \<or> hd s' \<noteq> CHR ''`''"
    proof (cases s')
      case (Cons d s'')
      with n2 \<open>s = c # s'\<close> True show ?thesis by auto
    qed simp
    show ?thesis
    proof (cases s')
      case Nil
      with Cons n3 show ?thesis by (simp add: replace_all_keep)
    next
      case (Cons d s'')
      with s' have "\<not> starts_with fence (d # s'')" by (simp add: fence_def)
      with Cons \<open>s = c # s'\<close> n3 s' show ?thesis by (simp add: replace_all_keep starts_with_iff)
    qed
  qed
qed

lemma replace_all_fence_free: "\<not> contains fence (replace_all fence [] s)"
proof (induction s rule: length_induct)
  case (1 s)
  show ?case
  proof (cases s)
    case Nil
    then show ?thesis by (simp add: fence_def)
  next
    case (Cons c s')
    show ?thesis
    proof (cases "starts_with fence (c # s')")
      case True
      hence "replace_all fence [] s = replace_all fence [] (drop 2 s')"
        using Cons by (simp del: replace_all.simps add: replace_all_skip)
      with "1.IH" Cons show ?thesis by simp
    next
      case False
      hence eq: "replace_all fence [] s = c # replace_all fence [] s'"
        using Cons by (simp add: replace_all_keep)
      have "\<not> starts_with fence (c # replace_all fence [] s')"
      proof (cases "c = CHR ''`''")
        case True
        with False have "\<not> starts_with ''``'' s'" by (auto simp: fence_def)
        hence "\<not> starts_with ''``'' (replace_all fence [] s')" by (rule replace_all_no_two_ticks)
        with True show ?thesis by (auto simp: fence_def)
      next
        case False
        then show ?thesis by (simp add: fence_def)
      qed
      with eq "1.IH" Cons show ?thesis by simp
    qed
  qed
qed

text \<open>C16: after \<open>removeJsonCodeBlock_\<close> no triple backtick is left, even where removing
  one occurrence brings backticks together: the global scan removes leftmost occurrences,
  and what remains between two removed ones cannot end in a backtick.\<close>

theorem removeJsonCodeBlock_fence_free: "\<not> contains ''```'' (removeJsonCodeBlock s)"
  using replace_all_fence_free by (simp add: removeJsonCodeBlock_def fence_def)

subsection \<open>Regenerating the selection\<close>

lemma fold_row_prefix:
  "i < length t \<Longrightarrow> m \<le> length (t ! i) \<Longrightarrow>
   fold (\<lambda>j t. t[i := (t ! i)[j := f (t ! i ! j)]]) [0..<m] t
     = t[i := map f (take m (t ! i)) @ drop m (t ! i)]"
proof (induction m)
  case 0
  then show ?case by simp
next
  case (Suc m)
  hence IH: "fold (\<lambda>j t. t[i := (t ! i)[j := f (t ! i ! j)]]) [0..<m] t
     = t[i := map f (take m (t ! i)) @ drop m (t ! i)]" by simp
  from Suc.prems show ?case
    by (simp add: IH take_Suc_conv_app_nth list_update_append nth_append
        Cons_nth_drop_Suc [symmetric] upd_conv_take_nth_drop)
qed

lemma fold_rows:
  assumes "\<forall>r\<in>set t. length r = n" "m \<le> length t"
  shows "fold (\<lambda>i t. fold (\<lambda>j t. t[i := (t ! i)[j := f (t ! i ! j)]]) [0..<n] t) [1..<m] t
     = take 1 t @ map (map f) (take (m - 1) (drop 1 t)) @ drop (max 1 m) t"
  using assms
proof (induction m)
  case 0
  then show ?case by simp
next
  case (Suc m)
  show ?case
  proof (cases "m = 0")
    case True
    then show ?thesis by simp
  next
    case False
    let ?t = "take 1 t @ map (map f) (take (m - 1) (drop 1 t)) @ drop (max 1 m) t"
    have IH: "fold (\<lambda>i t. fold (\<lambda>j t. t[i := (t ! i)[j := f (t ! i ! j)]]) [0..<n] t) [1..<m] t = ?t"
      using Suc by simp
    have m: "m < length t" using Suc.prems by simp
    have len: "length ?t = length t" and row: "?t ! m = t ! m"
      using m False by (auto simp: nth_append min_def)
    have "length (t ! m) = n" using Suc.prems(1) m by auto
    hence "fold (\<lambda>j t. t[m := (t ! m)[j := f (t ! m ! j)]]) [0..<n] ?t = ?t[m := map f (t ! m)]"
      using fold_row_prefix [of m ?t n f] m len row by simp
    moreover have "?t[m := map f (t ! m)] = take 1 t @ map (map f) (take m (drop 1 t)) @ drop (Suc m) t"
    proof -
      have dm: "drop (max 1 m) t = t ! m # drop (Suc m) t"
        using m False by (simp add: max_def Cons_nth_drop_Suc)
      have l: "length (take 1 t @ map (map f) (take (m - 1) (drop 1 t))) = m"
        using m False by simp
      have tk: "take m (drop 1 t) = take (m - 1) (drop 1 t) @ [t ! m]"
        using m False by (cases m) (simp_all add: take_Suc_conv_app_nth)
      define AB where "AB = take 1 t @ map (map f) (take (m - 1) (drop 1 t))"
      have t_eq: "?t = AB @ t ! m # drop (Suc m) t" using dm by (simp add: AB_def)
      have "length AB = m" using l by (simp add: AB_def)
      hence "?t[m := map f (t ! m)] = AB @ map f (t ! m) # drop (Suc m) t"
        using t_eq by (metis list_update_length)
      then show ?thesis unfolding tk AB_def by simp
    qed
    ultimately show ?thesis using IH False by (simp add: max_def)
  qed
qed

text \<open>With a generator that always answers, the table loop is the pure nested loop.\<close>

lemma regen_table_total:
  "regen_table (\<lambda>x. Some (g x)) m n t
   = (None, fold (\<lambda>i t. fold (\<lambda>j t. t[i := (t ! i)[j := g (t ! i ! j)]]) [0..<n] t) [1..<m] t)"
proof -
  have inner: "fold (\<lambda>j (e, t). if e \<noteq> None then (e, t)
                 else case Some (g (t ! i ! j)) of None \<Rightarrow> (Some ApiError, t)
                   | Some c \<Rightarrow> (None, t[i := (t ! i)[j := c]])) js (None, t)
      = (None, fold (\<lambda>j t. t[i := (t ! i)[j := g (t ! i ! j)]]) js t)" for i js t
    by (induction js arbitrary: t) simp_all
  have "fold (\<lambda>i. fold (\<lambda>j (e, t). if e \<noteq> None then (e, t)
                 else case Some (g (t ! i ! j)) of None \<Rightarrow> (Some ApiError, t)
                   | Some c \<Rightarrow> (None, t[i := (t ! i)[j := c]])) [0..<n]) is (None, t)
      = (None, fold (\<lambda>i t. fold (\<lambda>j t. t[i := (t ! i)[j := g (t ! i ! j)]]) [0..<n] t) is t)" for "is"
  proof (induction "is" arbitrary: t)
    case Nil
    then show ?case by simp
  next
    case (Cons i "is")
    show ?case by (simp only: fold.simps comp_apply inner Cons.IH)
  qed
  then show ?thesis by (simp add: regen_table_def)
qed

text \<open>C17: on a rectangular table, with a generator that answers every request, the
  nested loop regenerates every cell except those of the first row, which it leaves
  unchanged (the comment in the source says the first column is the header).\<close>

theorem regen_table_skips_first_row:
  assumes "t \<noteq> []" "\<forall>r\<in>set t. length r = length (hd t)"
  shows "regen_table (\<lambda>x. Some (g x)) (length t) (length (hd t)) t = (None, hd t # map (map g) (tl t))"
proof -
  from fold_rows [OF assms(2) order_refl, of g] assms(1)
  show ?thesis by (cases t) (simp_all add: regen_table_total)
qed

text \<open>C18: a failed request stops the operation where it happens: the elements before it
  keep their regenerated text, the text box whose request failed and every element after
  it are unchanged, and the error is reported.\<close>

theorem generateTextInCurrentElement_error:
  assumes "\<forall>el\<in>set pre. fst (regen_element gen deepDive el) = None"
    and "gen (deepDive @ nl # x) = None"
  shows "generateTextInCurrentElement gen deepDive (Some (pre @ Shape x # post))
         = (Some ApiError, Some (map (\<lambda>el. snd (regen_element gen deepDive el)) pre @ Shape x # post))"
proof -
  have "regen_elements gen deepDive (pre @ Shape x # post)
        = (Some ApiError, map (\<lambda>el. snd (regen_element gen deepDive el)) pre @ Shape x # post)"
    using assms
  proof (induction pre)
    case Nil
    then show ?case by (simp add: regen_def)
  next
    case (Cons el pre)
    then show ?case by (cases "regen_element gen deepDive el") auto
  qed
  then show ?thesis by (simp add: generateTextInCurrentElement_def)
qed

end
