(* ===== verification/Outline.thy ===== *)
theory Outline
  imports Render Client
begin

text \<open>
  The first pathway of the add-on: \<open>createSlidesInCurrentPresentation\<close>
  (\<open>src/code.js\<close> lines 36--87) asks the model for a JSON outline through
  \<open>getSlidesResponse_\<close> (lines 232--288) and renders it.  The HTTP call and the decoding
  of the HTTP response (\<open>UrlFetchApp.fetch\<close>, \<open>JSON.parse(response...)\<close>,
  \<open>choices[0].message.content\<close>) are the parameter \<open>fetch\<close>, from the varying parts of
  the request to the answer's text, \<open>None\<close> when the answer has no \<open>choices[0]\<close> (the
  \<open>TypeError\<close> of line 279, outside the \<open>try\<close>); \<open>JSON.parse\<close> of the cleaned answer is the
  parameter \<open>parse\<close>, \<open>None\<close> when it throws.  The outline is the JSON value the
  prompt's template describes: a title and an optional array of slides, each with a title,
  an optional \<open>code\<close> and an optional array of points; a point is a string, or an object
  whose \<open>code\<close> field the loop reads.  The slide loop and the moves are those of
  \<^theory_text>\<open>Render\<close>, shared with the Markdown pathway.
\<close>

text \<open>The parts of the chat request that vary: the user prompt, the number of slides the
  system message asks for (\<open>${numPages}\<close>) and the temperature; the model name, the
  template and \<open>response_format\<close> are constants.\<close>

record slides_request =
  sr_prompt :: string
  sr_numPages :: nat
  sr_temperature :: nat

datatype jpoint = JText string | JObj "string option"

record jslide =
  js_title :: string
  js_points :: "jpoint list option"
  js_code :: "string option"

record joutline =
  jo_title :: string
  jo_slides :: "jslide list option"

text \<open>The exceptions: the answer has no \<open>choices[0]\<close>; \<open>JSON.parse\<close> rejects the answer (logged and re-thrown);
  \<open>slides.forEach\<close> on an outline without \<open>slides\<close>; \<open>appendParagraph\<close> given a
  point that is neither a string nor an object with a non-empty \<open>code\<close>.\<close>

datatype outline_error = NoAnswer | BadJson | NoSlides | NotAString

definition getSlidesResponse ::
  "(slides_request \<Rightarrow> string option) \<Rightarrow> (string \<Rightarrow> joutline option) \<Rightarrow> string \<Rightarrow> nat \<Rightarrow> string
   \<Rightarrow> outline_error + joutline" where
  "getSlidesResponse fetch parse prompt numPages creativity =
     (case fetch \<lparr>sr_prompt = prompt, sr_numPages = numPages, sr_temperature = temperature creativity\<rparr> of
        None \<Rightarrow> Inl NoAnswer
      | Some answer \<Rightarrow>
          (let content = trim answer
           in case parse (removeJsonCodeBlock content) of None \<Rightarrow> Inl BadJson | Some j \<Rightarrow> Inr j))"

text \<open>\<open>insertCodeBlockText_(code, slide)\<close> on a slide whose body holds
  \<open>rs_body r\<close>: a new text box, or nothing for one-line code.\<close>

definition add_code :: "string \<Rightarrow> rslide \<Rightarrow> rslide" where
  "add_code c r =
     (case insertCodeBlockText c (rs_body r) of None \<Rightarrow> r | Some b \<Rightarrow> r\<lparr>rs_code := rs_code r @ [b]\<rparr>)"

text \<open>One iteration of \<open>for (const point of slideData.points)\<close>.\<close>

definition render_point :: "rslide \<Rightarrow> jpoint \<Rightarrow> outline_error + rslide" where
  "render_point r pt =
     (case pt of
        JText p \<Rightarrow> Inr (r\<lparr>rs_body := rs_body r @ [p]\<rparr>)
      | JObj c \<Rightarrow> (case c of
                   Some cd \<Rightarrow> if cd \<noteq> [] then Inr (add_code cd r) else Inl NotAString
                 | None \<Rightarrow> Inl NotAString))"

fun render_points :: "jpoint list \<Rightarrow> rslide \<Rightarrow> rslide \<times> outline_error option" where
  "render_points [] r = (r, None)"
| "render_points (pt # ps) r =
     (case render_point r pt of Inl e \<Rightarrow> (r, Some e) | Inr r' \<Rightarrow> render_points ps r')"

text \<open>The body of \<open>slides.forEach\<close>: a TITLE_AND_BODY slide, its title, the slide's
  code (inserted while the body is still empty), then the points.\<close>

definition render_json_slide :: "jslide \<Rightarrow> rslide \<times> outline_error option" where
  "render_json_slide sd =
     (let base = \<lparr>rs_layout = TITLE_AND_BODY, rs_title = js_title sd, rs_body = [], rs_code = []\<rparr>;
          r1 = (case js_code sd of Some c \<Rightarrow> if c \<noteq> [] then add_code c base else base | None \<Rightarrow> base)
      in case js_points sd of None \<Rightarrow> (r1, None) | Some ps \<Rightarrow> render_points ps r1)"

definition createSlidesInCurrentPresentation ::
  "(slides_request \<Rightarrow> string option) \<Rightarrow> (string \<Rightarrow> joutline option) \<Rightarrow> string \<Rightarrow> nat \<Rightarrow> string
   \<Rightarrow> nat \<Rightarrow> presentation \<Rightarrow> outline_error option \<times> presentation" where
  "createSlidesInCurrentPresentation fetch parse inputText numPages creativity oid p =
     (case getSlidesResponse fetch parse inputText numPages creativity of
        Inl e \<Rightarrow> (Some e, p)
      | Inr json \<Rightarrow>
          (let slideIndex = getSlideIndexByObjectId oid p;
               (t, p1) = appendSlide (title_rslide (jo_title json)) p
           in case jo_slides json of
                None \<Rightarrow> (Some NoSlides, p1)
              | Some ss \<Rightarrow>
                  (let (err, p2, added) = render_all render_json_slide ss p1 [t]
                   in case err of
                        Some e \<Rightarrow> (Some e, p2)
                      | None \<Rightarrow> (None, p2\<lparr>pr_slides := move_all added (Suc slideIndex) (pr_slides p2)\<rparr>))))"

text \<open>A reference for the point loop: the body is the string points in order, and the
  code of the \<open>i\<close>-th point, when it has two lines or more, becomes a box that copies the
  body as it stands before that point.\<close>

fun point_text :: "jpoint \<Rightarrow> string list" where
  "point_text (JText p) = [p]"
| "point_text (JObj c) = []"

fun point_box :: "string list \<Rightarrow> jpoint \<Rightarrow> code_box list" where
  "point_box body (JText p) = []"
| "point_box body (JObj c) =
     (case c of None \<Rightarrow> [] | Some cd \<Rightarrow> (case insertCodeBlockText cd body of None \<Rightarrow> [] | Some b \<Rightarrow> [b]))"

fun valid_point :: "jpoint \<Rightarrow> bool" where
  "valid_point (JText p) = True"
| "valid_point (JObj c) = (case c of None \<Rightarrow> False | Some cd \<Rightarrow> cd \<noteq> [])"

text \<open>The slide of the Markdown pathway written as the JSON slide the first pathway
  would receive for it.\<close>

definition json_of_slide :: "slide \<Rightarrow> jslide" where
  "json_of_slide s = \<lparr>js_title = title s, js_points = Some (map JText (points s)), js_code = code s\<rparr>"

subsection \<open>The point loop\<close>

lemma render_point_valid:
  "valid_point pt \<Longrightarrow> render_point r pt
     = Inr (r\<lparr>rs_body := rs_body r @ point_text pt, rs_code := rs_code r @ point_box (rs_body r) pt\<rparr>)"
  by (cases pt) (auto simp: render_point_def add_code_def split: option.splits)

text \<open>C21: the loop over \<open>slideData.points\<close>, on points that are strings or objects with a non-empty \<open>code\<close>, equals the reference: the string points are appended to the body in order, and each code point with two lines or more adds a code box that copies the body as it stands before that point (the string points before it, after whatever the body held).\<close>

theorem render_points_spec:
  "list_all valid_point ps \<Longrightarrow>
   render_points ps r =
     (r\<lparr>rs_body := rs_body r @ concat (map point_text ps),
        rs_code := rs_code r @ concat (map (\<lambda>i. point_box (rs_body r @ concat (map point_text (take i ps))) (ps ! i))
                                       [0..<length ps])\<rparr>, None)"
proof (induction ps arbitrary: r)
  case Nil
  then show ?case by simp
next
  case (Cons pt ps)
  let ?r1 = "r\<lparr>rs_body := rs_body r @ point_text pt, rs_code := rs_code r @ point_box (rs_body r) pt\<rparr>"
  have "render_points (pt # ps) r = render_points ps ?r1"
    using Cons.prems render_point_valid [of pt r] by simp
  also have "\<dots> = (?r1\<lparr>rs_body := rs_body ?r1 @ concat (map point_text ps),
        rs_code := rs_code ?r1 @ concat (map (\<lambda>i. point_box (rs_body ?r1 @ concat (map point_text (take i ps))) (ps ! i))
                                       [0..<length ps])\<rparr>, None)"
    using Cons.prems Cons.IH [of ?r1] by simp
  finally show ?case by (simp add: map_upt_Suc del: upt_Suc)
qed

subsection \<open>The whole command\<close>

lemma create_json_unfold:
  assumes "getSlidesResponse fetch parse txt n c = Inr json" "jo_slides json = Some ss"
    and "render_all render_json_slide ss (snd (appendSlide (title_rslide (jo_title json)) p))
           [(pr_next p, title_rslide (jo_title json))] = (err, p2, added)"
  shows "createSlidesInCurrentPresentation fetch parse txt n c oid p =
     (case err of Some e \<Rightarrow> (Some e, p2)
      | None \<Rightarrow> (None, p2\<lparr>pr_slides := move_all added (Suc (getSlideIndexByObjectId oid p)) (pr_slides p2)\<rparr>))"
  using assms by (simp add: createSlidesInCurrentPresentation_def appendSlide_def Let_def)

text \<open>C20: when the answer parses to an outline with a \<open>slides\<close> array and rendering succeeds, the presentation afterwards is the old slides up to and including the selected one, then the title slide and one rendered slide per outline slide in order, then the rest of the old slides.  Object ids are assumed distinct and below the next fresh id.\<close>

theorem createSlidesInCurrentPresentation_order:
  assumes ids: "distinct (map fst (pr_slides p))" "\<forall>i\<in>set (map fst (pr_slides p)). i < pr_next p"
    and sel: "oid \<in> set (map fst (pr_slides p))"
    and resp: "getSlidesResponse fetch parse txt n c = Inr json" "jo_slides json = Some ss"
    and ok: "fst (createSlidesInCurrentPresentation fetch parse txt n c oid p) = None"
  shows "map snd (pr_slides (snd (createSlidesInCurrentPresentation fetch parse txt n c oid p))) =
           take (Suc (pos_of oid (map fst (pr_slides p)))) (map snd (pr_slides p))
           @ title_rslide (jo_title json) # map (\<lambda>s. fst (render_json_slide s)) ss
           @ drop (Suc (pos_of oid (map fst (pr_slides p)))) (map snd (pr_slides p))"
proof -
  let ?r = "title_rslide (jo_title json)"
  obtain err p2 added where
    ra: "render_all render_json_slide ss (snd (appendSlide ?r p)) [(pr_next p, ?r)] = (err, p2, added)"
    by (metis prod_cases3)
  note cs = create_json_unfold [OF resp ra, of oid]
  with ok have err: "err = None" by (cases err) auto
  from render_and_place [OF ids sel ra [unfolded err]] cs err show ?thesis by simp
qed

text \<open>C23: an answer that parses to an outline without a \<open>slides\<close> array makes \<open>slides.forEach\<close> throw after the title slide was appended and titled: that slide stays at the end of the presentation, unmoved, and nothing else changes.\<close>

theorem createSlidesInCurrentPresentation_no_slides:
  "fetch \<lparr>sr_prompt = txt, sr_numPages = n, sr_temperature = temperature c\<rparr> = Some answer \<Longrightarrow>
   parse (removeJsonCodeBlock (trim answer)) = Some json \<Longrightarrow> jo_slides json = None \<Longrightarrow>
   createSlidesInCurrentPresentation fetch parse txt n c oid p
     = (Some NoSlides, p\<lparr>pr_slides := pr_slides p @ [(pr_next p, title_rslide (jo_title json))],
                         pr_next := Suc (pr_next p)\<rparr>)"
  by (simp add: createSlidesInCurrentPresentation_def getSlidesResponse_def appendSlide_def Let_def)

text \<open>C22: the two pathways give the same slide for the same content when there is no code: a parsed slide (whose \<open>sectionHeader\<close> is set exactly when it has no points, as \<open>parseMarkdownToSlides\<close> guarantees) rendered by \<open>createSlidesFromMarkdown\<close> and the same slide as JSON rendered by \<open>createSlidesInCurrentPresentation\<close> have the same title, body and code boxes; only the layout of a title-only slide differs (SECTION_HEADER against TITLE_AND_BODY).\<close>

theorem pathways_agree_without_code:
  assumes "code s = None" "sectionHeader s \<longleftrightarrow> points s = []"
  shows "render_json_slide (json_of_slide s) = ((fst (render_md_slide s))\<lparr>rs_layout := TITLE_AND_BODY\<rparr>, None)"
proof -
  have "list_all valid_point (map JText (points s))" by (simp add: list_all_iff)
  from render_points_spec [OF this] assms show ?thesis
    by (simp add: render_json_slide_def json_of_slide_def render_md_slide_def Let_def layout_shapes_def
        comp_def)
qed

subsection \<open>Witnesses\<close>

theorem render_points_spec_witness:
  "list_all valid_point [JText ''a'', JObj (Some ''x\<newline>y''), JText ''b'']
   \<and> render_points [JText ''a'', JObj (Some ''x\<newline>y''), JText ''b'']
       \<lparr>rs_layout = TITLE_AND_BODY, rs_title = ''T'', rs_body = [], rs_code = []\<rparr>
     = (\<lparr>rs_layout = TITLE_AND_BODY, rs_title = ''T'', rs_body = [''a'', ''b''],
         rs_code = [\<lparr>cb_copied = [''a''], cb_paragraphs = [''x'', ''y''], cb_fontSize = 12\<rparr>]\<rparr>, None)"
proof -
  let ?ps = "[JText ''a'', JObj (Some ''x\<newline>y''), JText ''b'']"
  let ?r = "\<lparr>rs_layout = TITLE_AND_BODY, rs_title = ''T'', rs_body = [], rs_code = []\<rparr>"
  have v: "list_all valid_point ?ps" by simp
  have "render_points ?ps ?r =
     (?r\<lparr>rs_body := rs_body ?r @ concat (map point_text ?ps),
        rs_code := rs_code ?r @ concat (map (\<lambda>i. point_box (rs_body ?r @ concat (map point_text (take i ?ps))) (?ps ! i))
                                       [0..<length ?ps])\<rparr>, None)"
    by (rule render_points_spec [OF v])
  also have "\<dots> = (\<lparr>rs_layout = TITLE_AND_BODY, rs_title = ''T'', rs_body = [''a'', ''b''],
         rs_code = [\<lparr>cb_copied = [''a''], cb_paragraphs = [''x'', ''y''], cb_fontSize = 12\<rparr>]\<rparr>, None)"
    by code_simp
  finally show ?thesis using v by simp
qed

theorem createSlidesInCurrentPresentation_order_witness:
  "map snd (pr_slides (snd (createSlidesInCurrentPresentation (\<lambda>_. Some ''{}'')
      (\<lambda>_. Some \<lparr>jo_title = ''T'', jo_slides = Some [\<lparr>js_title = ''A'', js_points = Some [JText ''a''], js_code = None\<rparr>]\<rparr>)
      ''topic'' 1 ''low'' 0 \<lparr>pr_slides = [(0, title_rslide ''x''), (1, title_rslide ''y'')], pr_next = 2\<rparr>)))
   = [title_rslide ''x'', title_rslide ''T'',
      \<lparr>rs_layout = TITLE_AND_BODY, rs_title = ''A'', rs_body = [''a''], rs_code = []\<rparr>, title_rslide ''y'']"
proof -
  let ?f = "\<lambda>_::slides_request. Some ''{}''"
  let ?j = "\<lparr>jo_title = ''T'', jo_slides = Some [\<lparr>js_title = ''A'', js_points = Some [JText ''a''], js_code = None\<rparr>]\<rparr>"
  let ?g = "\<lambda>_::string. Some ?j"
  let ?p = "\<lparr>pr_slides = [(0::nat, title_rslide ''x''), (1, title_rslide ''y'')], pr_next = 2\<rparr>"
  have d: "distinct (map fst (pr_slides ?p))" and b: "\<forall>i\<in>set (map fst (pr_slides ?p)). i < pr_next ?p"
    and s: "0 \<in> set (map fst (pr_slides ?p))" by simp_all
  have r: "getSlidesResponse ?f ?g ''topic'' 1 ''low'' = Inr ?j" by (simp add: getSlidesResponse_def)
  have j: "jo_slides ?j = Some [\<lparr>js_title = ''A'', js_points = Some [JText ''a''], js_code = None\<rparr>]" by simp
  have ok: "fst (createSlidesInCurrentPresentation ?f ?g ''topic'' 1 ''low'' 0 ?p) = None" by code_simp
  have "map snd (pr_slides (snd (createSlidesInCurrentPresentation ?f ?g ''topic'' 1 ''low'' 0 ?p)))
      = take (Suc (pos_of 0 (map fst (pr_slides ?p)))) (map snd (pr_slides ?p))
        @ title_rslide (jo_title ?j) # map (\<lambda>s. fst (render_json_slide s)) [\<lparr>js_title = ''A'', js_points = Some [JText ''a''], js_code = None\<rparr>]
        @ drop (Suc (pos_of 0 (map fst (pr_slides ?p)))) (map snd (pr_slides ?p))"
    by (rule createSlidesInCurrentPresentation_order [OF d b s r j ok])
  also have "\<dots> = [title_rslide ''x'', title_rslide ''T'',
      \<lparr>rs_layout = TITLE_AND_BODY, rs_title = ''A'', rs_body = [''a''], rs_code = []\<rparr>, title_rslide ''y'']"
    by code_simp
  finally show ?thesis .
qed

theorem createSlidesInCurrentPresentation_no_slides_witness:
  "(\<lambda>_::slides_request. Some ''```json{}```'') \<lparr>sr_prompt = ''topic'', sr_numPages = 2, sr_temperature = temperature ''mid''\<rparr>
     = Some ''```json{}```''
   \<and> (\<lambda>_::string. Some \<lparr>jo_title = ''T'', jo_slides = None\<rparr>) (removeJsonCodeBlock (trim ''```json{}```''))
     = Some \<lparr>jo_title = ''T'', jo_slides = None\<rparr>
   \<and> jo_slides \<lparr>jo_title = ''T'', jo_slides = None\<rparr> = None
   \<and> createSlidesInCurrentPresentation (\<lambda>_. Some ''```json{}```'') (\<lambda>_. Some \<lparr>jo_title = ''T'', jo_slides = None\<rparr>)
      ''topic'' 2 ''mid'' 0 \<lparr>pr_slides = [(0, title_rslide ''x'')], pr_next = 1\<rparr>
   = (Some NoSlides, \<lparr>pr_slides = [(0, title_rslide ''x''), (1, title_rslide ''T'')], pr_next = 2\<rparr>)"
proof -
  have a: "(\<lambda>_::slides_request. Some ''```json{}```'') \<lparr>sr_prompt = ''topic'', sr_numPages = 2, sr_temperature = temperature ''mid''\<rparr>
     = Some ''```json{}```''" by simp
  have b: "(\<lambda>_::string. Some \<lparr>jo_title = ''T'', jo_slides = None\<rparr>) (removeJsonCodeBlock (trim ''```json{}```''))
     = Some \<lparr>jo_title = ''T'', jo_slides = None\<rparr>" by simp
  have c: "jo_slides \<lparr>jo_title = ''T'', jo_slides = None\<rparr> = None" by simp
  from createSlidesInCurrentPresentation_no_slides [OF a b c] a b c show ?thesis by simp
qed

theorem pathways_agree_without_code_witness:
  "render_json_slide (json_of_slide \<lparr>title = ''A'', points = [''a'', ''b''], code = None, sectionHeader = False\<rparr>)
   = (\<lparr>rs_layout = TITLE_AND_BODY, rs_title = ''A'', rs_body = [''a'', ''b''], rs_code = []\<rparr>, None)"
proof -
  have "code \<lparr>title = ''A'', points = [''a'', ''b''], code = None, sectionHeader = False\<rparr> = None"
    and "sectionHeader \<lparr>title = ''A'', points = [''a'', ''b''], code = None, sectionHeader = False\<rparr>
         \<longleftrightarrow> points \<lparr>title = ''A'', points = [''a'', ''b''], code = None, sectionHeader = False\<rparr> = []"
    by simp_all
  from pathways_agree_without_code [OF this] show ?thesis
    by (simp add: render_md_slide_def layout_shapes_def)
qed

end
