(* ===== verification/Image.thy ===== *)
theory Image
  imports Client
begin

text \<open>
  Image generation for the current slide (\<open>src/code.js\<close>): \<open>generateImageInCurrentSlide\<close>
  (lines 97--104) collects the text of the slide's text boxes
  (\<open>getAllTextFromActiveSlide_\<close>, lines 197--217), asks the chat model for an image
  prompt (\<open>getImagePrompt_\<close>, lines 337--379), asks DALL-E for an image
  (\<open>generateImageFromDallE_\<close>, lines 395--423) and inserts it
  (\<open>insertImageBlobToActiveSlide_\<close>, lines 425--431).  The HTTP calls are parameters:
  \<open>chat\<close> from the varying parts of the chat request to the answer's text, \<open>img\<close> from
  the DALL-E request to the image URL, \<open>download\<close> from the URL to the image blob.  The
  first two give \<open>None\<close> when the call throws: an answer without \<open>choices[0]\<close>
  (line 374) or without \<open>data[0]\<close> (line 421) raises a \<open>TypeError\<close>, and the DALL-E
  request, sent without \<open>muteHttpExceptions\<close>, throws on an HTTP error; the exception
  leaves the slide unchanged.  The
  settings \<open>IMAGE_MAX_WORDS\<close> and \<open>IMAGE_TEMPERATURE\<close> (lines 3--4) are script
  properties with defaults; \<open>max_tokens\<close> is \<open>Math.round(Number.parseInt(words) * 3)\<close>,
  with \<open>Number.parseInt\<close> modelled (NaN is \<open>None\<close>); \<open>Number.parseFloat\<close> of the
  temperature setting is left to the runtime and the request records the setting.
\<close>

text \<open>\<open>getProperty(name) || default\<close>: a missing or empty property gives the default.\<close>

definition config_or :: "string option \<Rightarrow> string \<Rightarrow> string" where
  "config_or v d = (case v of None \<Rightarrow> d | Some s \<Rightarrow> if s = [] then d else s)"

definition IMAGE_MAX_WORDS :: "string option \<Rightarrow> string" where
  "IMAGE_MAX_WORDS prop = config_or prop ''40''"

definition IMAGE_TEMPERATURE :: "string option \<Rightarrow> string" where
  "IMAGE_TEMPERATURE prop = config_or prop ''0.5''"

text \<open>\<open>Number.parseInt(s)\<close> (ECMAScript, radix omitted): leading white space, a sign, a
  \<open>0x\<close> prefix selecting radix 16, then the longest prefix of digits of the radix; no digit
  gives NaN.\<close>

definition digit_val :: "nat \<Rightarrow> char \<Rightarrow> nat option" where
  "digit_val r c =
     (let n = of_char c;
          v = (if 48 \<le> n \<and> n \<le> 57 then n - 48
               else if 97 \<le> n \<and> n \<le> 122 then n - 87
               else if 65 \<le> n \<and> n \<le> 90 then n - 55 else r)
      in if v < r then Some v else None)"

fun take_digits :: "nat \<Rightarrow> string \<Rightarrow> nat list" where
  "take_digits r [] = []"
| "take_digits r (c # s) = (case digit_val r c of None \<Rightarrow> [] | Some d \<Rightarrow> d # take_digits r s)"

definition horner :: "nat \<Rightarrow> nat list \<Rightarrow> nat" where
  "horner r ds = fold (\<lambda>d acc. acc * r + d) ds 0"

definition parseInt :: "string \<Rightarrow> int option" where
  "parseInt s =
     (let s1 = dropWhile is_ws s;
          (neg, s2) = (case s1 of c # t \<Rightarrow> (if c = CHR ''-'' then (True, t)
                                            else if c = CHR ''+'' then (False, t) else (False, s1))
                                | [] \<Rightarrow> (False, s1));
          (r, s3) = (if starts_with ''0x'' s2 \<or> starts_with ''0X'' s2 then (16, drop 2 s2) else (10, s2));
          ds = take_digits r s3
      in if ds = [] then None else Some ((if neg then -1 else 1) * int (horner r ds)))"

text \<open>The varying parts of \<open>getImagePrompt_\<close>'s chat request: the word count written
  into the system message, the user message, \<open>max_tokens\<close> (\<open>None\<close>: NaN, which
  \<open>JSON.stringify\<close> sends as \<open>null\<close>) and the temperature setting.\<close>

record image_prompt_request =
  ipr_words :: string
  ipr_user :: string
  ipr_max_tokens :: "int option"
  ipr_temperature :: string

definition error_scene :: string where
  "error_scene = ''The message \"error\" in white wall.''"

definition getImagePrompt ::
  "(image_prompt_request \<Rightarrow> string option) \<Rightarrow> string \<Rightarrow> string \<Rightarrow> string \<Rightarrow> string option" where
  "getImagePrompt chat words temp targetText =
     map_option trim (chat \<lparr>ipr_words = words, ipr_user = (if targetText = [] then error_scene else targetText),
                 ipr_max_tokens = map_option (\<lambda>n. n * 3) (parseInt words), ipr_temperature = temp\<rparr>)"

record dalle_request =
  dr_model :: string
  dr_prompt :: string
  dr_size :: string
  dr_quality :: string
  dr_response_format :: string

definition generateImageFromDallE ::
  "(dalle_request \<Rightarrow> 'u option) \<Rightarrow> ('u \<Rightarrow> 'b) \<Rightarrow> string \<Rightarrow> string \<Rightarrow> 'b option" where
  "generateImageFromDallE img download prompt imageCaption =
     map_option download (img \<lparr>dr_model = ''dall-e-3'', dr_prompt = prompt @ '' '' @ imageCaption,
                    dr_size = ''1024x1024'', dr_quality = ''hd'', dr_response_format = ''url''\<rparr>)"

text \<open>The page elements of the current slide: shapes with their shape type and text,
  images with their position, anything else.\<close>

datatype shape_type = TEXT_BOX | OTHER_SHAPE

datatype 'b slide_element = SE_Shape shape_type string | SE_Image 'b nat nat | SE_Other

fun box_text :: "'b slide_element \<Rightarrow> string option" where
  "box_text (SE_Shape TEXT_BOX t) = Some t"
| "box_text _ = None"

definition getAllTextFromActiveSlide :: "'b slide_element list \<Rightarrow> string" where
  "getAllTextFromActiveSlide els =
     fold (\<lambda>pe allText. case box_text pe of Some t \<Rightarrow> allText @ t @ [nl] | None \<Rightarrow> allText) els []"

text \<open>\<open>slide.insertImage(blob).setLeft(200).setTop(10)\<close>\<close>

definition insertImageBlobToActiveSlide :: "'b \<Rightarrow> 'b slide_element list \<Rightarrow> 'b slide_element list" where
  "insertImageBlobToActiveSlide blob els = els @ [SE_Image blob 200 10]"

definition generateImageInCurrentSlide ::
  "(image_prompt_request \<Rightarrow> string option) \<Rightarrow> (dalle_request \<Rightarrow> 'u option) \<Rightarrow> ('u \<Rightarrow> 'b)
   \<Rightarrow> string option \<Rightarrow> string option \<Rightarrow> string \<Rightarrow> 'b slide_element list \<Rightarrow> 'b slide_element list option" where
  "generateImageInCurrentSlide chat img download wordsProp tempProp imageCaption els =
     (let allText = getAllTextFromActiveSlide els
      in case getImagePrompt chat (IMAGE_MAX_WORDS wordsProp) (IMAGE_TEMPERATURE tempProp) allText of
           None \<Rightarrow> None
         | Some prompt \<Rightarrow>
             (case generateImageFromDallE img download prompt imageCaption of
                None \<Rightarrow> None
              | Some blob \<Rightarrow> Some (insertImageBlobToActiveSlide blob els)))"

subsection \<open>The pipeline\<close>

lemma fold_box_text:
  "fold (\<lambda>pe allText. case box_text pe of Some t \<Rightarrow> allText @ t @ [nl] | None \<Rightarrow> allText) els acc
     = acc @ concat (map (\<lambda>t. t @ [nl]) (List.map_filter box_text els))"
proof (induction els arbitrary: acc)
  case Nil
  then show ?case by (simp add: map_filter_simps)
next
  case (Cons e els)
  then show ?case by (cases "box_text e") (simp_all add: map_filter_simps)
qed

lemma getAllTextFromActiveSlide_concat:
  "getAllTextFromActiveSlide els = concat (map (\<lambda>t. t @ [nl]) (List.map_filter box_text els))"
  by (simp add: getAllTextFromActiveSlide_def fold_box_text)

text \<open>C25: the text \<open>getAllTextFromActiveSlide_\<close> collects is empty exactly when the slide has no text box.  So \<open>getImagePrompt_\<close> falls back to the fixed \<open>"error"\<close> scene only for a slide without text boxes; a slide whose text boxes are all empty sends one newline per box.\<close>

theorem getAllTextFromActiveSlide_empty_iff:
  "getAllTextFromActiveSlide els = [] \<longleftrightarrow> List.map_filter box_text els = []"
  by (simp add: getAllTextFromActiveSlide_concat)

end
