(* ===== verification/Addon.thy ===== *)
theory Addon
  imports Outline Image "HOL-Library.State_Monad"
begin

text \<open>
  The add-on's host side in \<open>src/code.js\<close>: the menu entry \<open>onOpen\<close> installs, the
  sidebar \<open>showSidebar\<close> opens, and the request log \<open>log_\<close> (lines 433--437) that the
  three chat requests write to the first sheet of the spreadsheet \<open>SHEET_ID\<close>.  The user
  interface is a record of the menu and the sidebar (the sidebar's HTML file is not a
  source of the repository and is not modelled).  The sheet is the list of the rows
  appended to it; a row is the message \<open>log_\<close> is given, as a \<open>log_entry\<close> that keeps
  its tag and the varying data it carries, without the time stamp \<open>log_\<close> prefixes.  The
  functions that log thread the sheet through the \<open>State_Monad\<close>; each logged function is
  proved to return exactly what its model without logging returns, so logging never
  changes a result, and to append exactly the rows of the source in their order.
\<close>

subsection \<open>Menu and sidebar\<close>

record ui =
  ui_menu :: "(string \<times> string) list"
  ui_sidebar :: "(string \<times> nat) option"

text \<open>The add-on's name \<open>"GPT\<close>\<^emph>\<open>suraido\<close>\<open>"\<close> (GPT slide), as UTF-8 bytes.\<close>

definition addon_name :: string where
  "addon_name = ''GPT'' @ [CHR 0xE3, CHR 0x82, CHR 0xB9, CHR 0xE3, CHR 0x83, CHR 0xA9,
     CHR 0xE3, CHR 0x82, CHR 0xA4, CHR 0xE3, CHR 0x83, CHR 0x89]"

text \<open>\<open>createAddonMenu().addItem('GPT...', 'showSidebar').addToUi()\<close>: the add-on
  menu holds one item, which calls \<open>showSidebar\<close>.\<close>

definition onOpen :: "ui \<Rightarrow> ui" where
  "onOpen u = u\<lparr>ui_menu := [(addon_name, ''showSidebar'')]\<rparr>"

text \<open>The sidebar titled with the name and \<open>ver = "(ver:1)"\<close>, 300 pixels wide.\<close>

definition showSidebar :: "ui \<Rightarrow> ui" where
  "showSidebar u = u\<lparr>ui_sidebar := Some (addon_name @ ''(ver:1)'', 300)\<rparr>"

subsection \<open>The request log\<close>

text \<open>The messages the code logs: \<open>REQ_n\<close> with the request (\<open>JSON.stringify(data)\<close>,
  of which the varying fields are kept), \<open>RES_n\<close> with the trimmed answer, \<open>ERR_1\<close> when
  \<open>JSON.parse\<close> rejects the outline.  1 is \<open>getSlidesResponse_\<close>, 2
  \<open>getImagePrompt_\<close>, 3 \<open>getTextResponse_\<close>.\<close>

datatype log_entry =
    REQ_1 slides_request | RES_1 string | ERR_1
  | REQ_2 image_prompt_request | RES_2 string
  | REQ_3 text_request | RES_3 string

type_synonym sheet = "log_entry list"

text \<open>\<open>log_(message)\<close> (\<open>log_\<close> is no Isabelle name): \<open>appendRow([log])\<close> on the
  first sheet.\<close>

definition log_row :: "log_entry \<Rightarrow> (sheet, unit) state" where
  "log_row e = State (\<lambda>rows. ((), rows @ [e]))"

text \<open>\<open>getTextResponse_\<close> (lines 160--195) with its two log calls; an answer without
  \<open>choices[0]\<close> throws between them, so only the request is logged.\<close>

definition getTextResponse_logged ::
  "(text_request \<Rightarrow> string option) \<Rightarrow> string \<Rightarrow> string \<Rightarrow> (sheet, string option) state" where
  "getTextResponse_logged fetch prompt creativity =
     (let req = \<lparr>tr_prompt = prompt, tr_max_tokens = 1000, tr_temperature = temperature creativity\<rparr>
      in do {
           log_row (REQ_3 req);
           (case fetch req of
              None \<Rightarrow> State_Monad.return None
            | Some answer \<Rightarrow> do {
                let content = trim answer;
                log_row (RES_3 content);
                State_Monad.return (Some content)
              })
         })"

text \<open>\<open>getImagePrompt_\<close> (lines 338--379) with its two log calls; an answer without
  \<open>choices[0]\<close> throws between them.\<close>

definition getImagePrompt_logged ::
  "(image_prompt_request \<Rightarrow> string option) \<Rightarrow> string \<Rightarrow> string \<Rightarrow> string \<Rightarrow> (sheet, string option) state" where
  "getImagePrompt_logged chat words temp targetText =
     (let req = \<lparr>ipr_words = words, ipr_user = (if targetText = [] then error_scene else targetText),
                 ipr_max_tokens = map_option (\<lambda>n. n * 3) (parseInt words), ipr_temperature = temp\<rparr>
      in do {
           log_row (REQ_2 req);
           (case chat req of
              None \<Rightarrow> State_Monad.return None
            | Some answer \<Rightarrow> do {
                let content = trim answer;
                log_row (RES_2 content);
                State_Monad.return (Some content)
              })
         })"

text \<open>\<open>getSlidesResponse_\<close> (lines 232--288): the request and the answer are logged, an
  answer without \<open>choices[0]\<close> throws before the answer is logged, and a failed
  \<open>JSON.parse\<close> is logged in the \<open>catch\<close> before it is re-thrown.\<close>

definition getSlidesResponse_logged ::
  "(slides_request \<Rightarrow> string option) \<Rightarrow> (string \<Rightarrow> joutline option) \<Rightarrow> string \<Rightarrow> nat \<Rightarrow> string
   \<Rightarrow> (sheet, outline_error + joutline) state" where
  "getSlidesResponse_logged fetch parse prompt numPages creativity =
     (let req = \<lparr>sr_prompt = prompt, sr_numPages = numPages, sr_temperature = temperature creativity\<rparr>
      in do {
           log_row (REQ_1 req);
           (case fetch req of
              None \<Rightarrow> State_Monad.return (Inl NoAnswer)
            | Some answer \<Rightarrow> do {
                let content = trim answer;
                log_row (RES_1 content);
                (case parse (removeJsonCodeBlock content) of
                   None \<Rightarrow> do { log_row ERR_1; State_Monad.return (Inl BadJson) }
                 | Some j \<Rightarrow> State_Monad.return (Inr j))
              })
         })"

text \<open>\<open>generateImageInCurrentSlide\<close> (lines 97--104), its prompt request logged.\<close>

definition generateImageInCurrentSlide_logged ::
  "(image_prompt_request \<Rightarrow> string option) \<Rightarrow> (dalle_request \<Rightarrow> 'u option) \<Rightarrow> ('u \<Rightarrow> 'b)
   \<Rightarrow> string option \<Rightarrow> string option \<Rightarrow> string \<Rightarrow> 'b slide_element list
   \<Rightarrow> (sheet, 'b slide_element list option) state" where
  "generateImageInCurrentSlide_logged chat img download wordsProp tempProp imageCaption els =
     do {
       let allText = getAllTextFromActiveSlide els;
       prompt \<leftarrow> getImagePrompt_logged chat (IMAGE_MAX_WORDS wordsProp) (IMAGE_TEMPERATURE tempProp) allText;
       State_Monad.return
         (case prompt of
            None \<Rightarrow> None
          | Some pr \<Rightarrow> map_option (\<lambda>blob. insertImageBlobToActiveSlide blob els)
                          (generateImageFromDallE img download pr imageCaption))
     }"

subsection \<open>Logging is transparent\<close>

lemma run_log [simp]: "run_state (log_row e) rows = ((), rows @ [e])"
  by (simp add: log_row_def)

lemma getTextResponse_logged_run:
  "run_state (getTextResponse_logged fetch prompt creativity) rows
   = (getTextResponse fetch prompt creativity,
      rows @ REQ_3 \<lparr>tr_prompt = prompt, tr_max_tokens = 1000, tr_temperature = temperature creativity\<rparr>
        # (case getTextResponse fetch prompt creativity of None \<Rightarrow> [] | Some c \<Rightarrow> [RES_3 c]))"
  by (simp add: getTextResponse_logged_def getTextResponse_def State_Monad.return_def Let_def
      split: option.split)

lemma getImagePrompt_logged_run:
  "run_state (getImagePrompt_logged chat words temp targetText) rows
   = (getImagePrompt chat words temp targetText,
      rows @ REQ_2 \<lparr>ipr_words = words, ipr_user = (if targetText = [] then error_scene else targetText),
                    ipr_max_tokens = map_option (\<lambda>n. n * 3) (parseInt words), ipr_temperature = temp\<rparr>
        # (case getImagePrompt chat words temp targetText of None \<Rightarrow> [] | Some c \<Rightarrow> [RES_2 c]))"
  by (simp add: getImagePrompt_logged_def getImagePrompt_def State_Monad.return_def Let_def
      split: option.split)

lemma getSlidesResponse_logged_run:
  "run_state (getSlidesResponse_logged fetch parse prompt numPages creativity) rows
   = (let req = \<lparr>sr_prompt = prompt, sr_numPages = numPages, sr_temperature = temperature creativity\<rparr>;
          r = getSlidesResponse fetch parse prompt numPages creativity
      in (r, rows @ REQ_1 req
               # (case fetch req of
                    None \<Rightarrow> []
                  | Some a \<Rightarrow> RES_1 (trim a) # (case r of Inl _ \<Rightarrow> [ERR_1] | Inr _ \<Rightarrow> []))))"
  by (simp add: getSlidesResponse_logged_def getSlidesResponse_def State_Monad.return_def Let_def
      split: option.split)

text \<open>The logged image pipeline changes the slide as the model without logging does and
  writes the rows of its prompt request.\<close>

lemma generateImageInCurrentSlide_logged_run:
  "run_state (generateImageInCurrentSlide_logged chat img download wordsProp tempProp imageCaption els) rows
   = (generateImageInCurrentSlide chat img download wordsProp tempProp imageCaption els,
      snd (run_state (getImagePrompt_logged chat (IMAGE_MAX_WORDS wordsProp) (IMAGE_TEMPERATURE tempProp)
             (getAllTextFromActiveSlide els)) rows))"
  by (simp add: generateImageInCurrentSlide_logged_def generateImageInCurrentSlide_def
      getImagePrompt_logged_run State_Monad.return_def Let_def split: option.split)

end
