(* ===== verification/Spec2Isabelle.thy ===== *)
theory Spec2Isabelle
  imports Deck Addon
begin

text \<open>
  \<^bold>\<open>A verified model of gpt-slide's outline-to-slides converter.\<close>

  The repository is a Google Slides add-on (Apps Script).  \<open>src/code.js\<close> asks a
  language model for a JSON outline (\<open>getSlidesResponse_\<close>, \<open>removeJsonCodeBlock_\<close>)
  and renders it (\<open>createSlidesInCurrentPresentation\<close>, \<open>insertCodeBlockText_\<close>), and
  offers text and image generation for the selected element.  \<open>src/code2.js\<close> adds the
  second pathway: \<open>parseMarkdownToSlides\<close> turns hand-written outline text into the same
  deck value, which \<open>createSlidesFromMarkdown\<close> renders.  The parser is the core and is
  modelled first and in full.

  \<^bold>\<open>Theories.\<close>
  \<^item> \<^theory_text>\<open>Prelude\<close>: the JavaScript string primitives the parser calls
    (\<open>trim\<close>, \<open>startsWith\<close>, \<open>split("\n")\<close>, \<open>replace\<close>), on \<open>string\<close> =
    UTF-8 bytes; whitespace is ASCII whitespace.
  \<^item> \<^theory_text>\<open>Store\<close>: slide objects \<open>{title, points, code, sectionHeader}\<close> in an
    explicit heap (a list indexed by address).  The JavaScript keeps the same object in
    \<open>currentSlide\<close> and in \<open>slides\<close> and mutates it through both; the heap makes that
    aliasing, and its consequences, part of the model.  \<open>heap_ext\<close>: nothing is freed,
    titles never change, points only grow at the end.
  \<^item> \<^theory_text>\<open>Flush\<close>: the parser state \<open>pstate\<close> (the local variables of
    \<open>parseMarkdownToSlides\<close>) and \<open>flushContentGroup\<close> with its hierarchical branch
    (\<open>hier_walk\<close>, \<open>flush_hier\<close>) and flat branch (\<open>flush_flat\<close>); the
    well-formedness invariant \<open>wf_state\<close>.
  \<^item> \<^theory_text>\<open>Parser\<close>: the line tests (\<open>is_h1\<close>, \<open>is_h23\<close>, \<open>h1_text\<close>,
    \<open>h23_text\<close>, \<open>bullet_match\<close> for the regex \<open>/^(\s*)[-*]\s+(.*)/\<close>), one handler per
    branch of the loop body (\<open>fence_toggle\<close>, \<open>code_line\<close>, \<open>heading1\<close>,
    \<open>heading23\<close>, \<open>separator\<close>, \<open>add_item\<close>), the loop body \<open>step\<close> with the
    branches in the source's order, the loop \<open>run\<close>, the end of input \<open>finish\<close>, the
    post-pass \<open>mark_sections\<close> and \<open>parseMarkdownToSlides\<close>.
  \<^item> \<^theory_text>\<open>Render\<close>: \<open>createSlidesFromMarkdown\<close> (\<open>src/code2.js\<close>) and
    \<open>insertCodeBlockText_\<close> (\<open>src/code.js\<close>) over an abstract presentation: slides
    with object ids, \<open>appendSlide\<close>, \<open>Slide.move\<close> with its index read before the
    move, and the number of placeholder shapes of each layout.  The slide loop
    \<open>render_all\<close> takes the per-slide renderer as a parameter, so both renderers share it
    and its placement lemma (\<open>render_and_place\<close>).
  \<^item> \<^theory_text>\<open>Outline\<close>: the JSON pathway, \<open>getSlidesResponse_\<close> up to the HTTP
    call (the call, which may give an answer without \<open>choices\<close>, and \<open>JSON.parse\<close>
    are parameters) and
    \<open>createSlidesInCurrentPresentation\<close> (\<open>src/code.js\<close> lines 36--87), with the
    outline as the JSON value of the prompt's template and its exceptions as
    \<open>outline_error\<close>.
  \<^item> \<^theory_text>\<open>Client\<close>: \<open>removeJsonCodeBlock_\<close>, \<open>getTextResponse_\<close> up to
    the HTTP call, and \<open>generateTextInCurrentElement\<close> (\<open>src/code.js\<close>) over any text
    generator, the interface \<open>getTextResponse_\<close> instantiates; a generator may fail,
    and the failure stops the loops where it happens.
  \<^item> \<^theory_text>\<open>Image\<close>: \<open>generateImageInCurrentSlide\<close> and its helpers
    (\<open>getAllTextFromActiveSlide_\<close>, \<open>getImagePrompt_\<close> with the script-property
    defaults and \<open>Number.parseInt\<close>, \<open>generateImageFromDallE_\<close>,
    \<open>insertImageBlobToActiveSlide_\<close>), the HTTP calls being parameters.
  \<^item> \<^theory_text>\<open>Printer\<close>: the Markdown format of the specification written
    out (\<open>print_deck\<close>, modelled from \<open>spec.md\<close>, not from code) and the
    print-then-parse round trip, proved as a simulation over the printed slides
    (\<open>ready\<close>, \<open>run_print_slide\<close>).
  \<^item> \<^theory_text>\<open>Deck\<close>: properties of whole parsed decks.  The state invariant
    \<open>state_ok X\<close> (every text trimmed and free of the characters \<open>X\<close>, every stored
    code block free of fence lines, the code buffer a sequence of non-blank non-fence
    lines) is kept by every handler; it gives one-line texts, printability of parsed decks
    and idempotence of parsing up to code; and a progress theorem for headings.
  \<^item> \<^theory_text>\<open>Addon\<close>: the host side, \<open>onOpen\<close> and \<open>showSidebar\<close> on a record
    of the add-on menu and sidebar, and the request log \<open>log_\<close> (\<open>log_row\<close>) threaded
    through the \<open>State_Monad\<close> by logged versions of the three chat requests and of the
    image pipeline; logging is proved transparent (the result is the unlogged model's) and
    exact (the rows the source writes, in order, \<open>ERR_1\<close> only when the outline does
    not parse).
  \<^item> this theory: the properties that span the components and the places where the
    code and the specification part.

  \<^bold>\<open>What is proved.\<close>
  Every handler keeps \<open>wf_state\<close> and only extends the state (\<open>step_keeps\<close>,
  \<open>run_keeps\<close>); every emitted slide has \<open>sectionHeader\<close> iff its points are empty;
  the hierarchical flush pushes one slide per indent-0 bullet (plus a placeholder); a flat
  flush with an open slide creates none; code blocks are opaque to classification and
  their text is the trimmed buffer; the first level-1 heading is the deck title.  On the
  rendering side: the backwards loop of \<open>move\<close> calls puts the new slides, in order,
  right after the selected slide, in both pathways; a code block of two or more lines is
  drawn line by line; the JSON clean-up leaves no triple backtick; with a generator that
  always answers, the table loop regenerates every row but the first, and a failed request
  stops the regeneration where it happens.  Printing any deck of trimmed one-line texts and
  parsing it back returns the title, the slide titles and the bullets, marks exactly the
  slides without bullets as section headers, and loses every code block
  (\<open>Printer.parse_print_roundtrip\<close>).  The JSON renderer's point loop equals a
  reference that names the copied body of each code box, and on slides without code the
  two pathways produce the same slide up to the layout.
  Every text of a parsed deck is one trimmed line (\<open>Deck.parse_one_line\<close>, from the
  invariant \<open>state_ok\<close> of every handler).  Parsing is idempotent up to code: on an
  input without carriage returns whose parsed slides all have a title, printing the parsed
  deck and parsing it again gives the same deck with every code block removed
  (\<open>Deck.parse_print_parse\<close>).  Progress: a \<open>##\<close> heading the loop reaches outside a
  code block always ends up as a slide with its text as title, whatever follows it
  (\<open>Deck.heading2_slide_emitted\<close>).

  \<^bold>\<open>Findings the model exhibits\<close> (each a theorem over all inputs that meet its
  hypotheses): a flat group flushed with no slide open makes a placeholder that is both
  \<open>currentSlide\<close> and in \<open>slides\<close>, so the next level-2 heading pushes it a second
  time (\<open>parse_duplicate_push\<close>); a separator drops an open, unpushed slide, which then
  never reaches the deck (\<open>parse_separator_drops_slide\<close>); the code buffer is reset only
  when it is assigned, so a block closed without \<open>currentSlide\<close> stays in the buffer and
  is prepended to the next assigned block (\<open>parse_code_buffer_leak\<close> with
  \<open>Parser.code_block_captured\<close>); a block after a level-2 heading changes no slide (the
  specification's example 4 says it becomes that slide's code,
  \<open>heading2_code_dropped\<close>); the flat branch prefers the last pushed slide to
  \<open>currentSlide\<close>, so bullets under a later level-1 heading go to an earlier slide
  (\<open>Flush.flushContentGroup_flat\<close>); a one-line code block is never drawn; a slide
  without points that carries a multi-line code block gets the SECTION_HEADER layout,
  whose missing body shape makes the Markdown renderer fail (\<open>render_section_code_fails\<close>,
  under the layout assumption of \<^theory_text>\<open>Render\<close>); a code box is a duplicate of the
  body shape, so in the Markdown pathway it repeats the slide's bullets above the code; an
  outline without slides leaves its title slide at the end of the presentation; the image
  prompt's fallback for an empty slide fires only when the slide has no text box at all.
  A separator slide has an empty title, which prints as a line that is no heading, so
  \<open>Deck.parse_print_parse\<close> needs titled slides; a carriage return inside a plain-text
  line survives parsing but cuts the point short when the printed deck is parsed again
  (the bullet regex stops at it), which is why it excludes carriage returns too.

  \<^bold>\<open>Not modelled.\<close>  The HTTP calls themselves (\<open>UrlFetchApp.fetch\<close> in
  \<open>getSlidesResponse_\<close>, \<open>getTextResponse_\<close>, \<open>getImagePrompt_\<close>,
  \<open>generateImageFromDallE_\<close>) are parameters from the varying parts of each request
  to the answer, \<open>None\<close> when the answer lacks the field the code reads (the
  \<open>TypeError\<close> of \<open>choices[0]\<close> or \<open>data[0]\<close>); the authorisation headers and the
  constant prompt texts are not recorded.  \<open>createSlidesInCurrentPresentation\<close> takes the
  selected page's object id as given: the exception of \<open>getCurrentPage().getObjectId()\<close>
  when no page is selected (line 44, before anything is appended) is not modelled.  The sidebar's HTML file (not a source of the repository), the time stamp of
  each log row and the spreadsheet call that writes it are host I/O; the log is the list of
  its rows' messages.
  \<open>JSON.parse\<close> and \<open>Number.parseFloat\<close> are the runtime's: the first enters as a
  parameter, the second is left applied to the setting in the request.
  \<open>Number.parseInt\<close> of the word-count setting is modelled with an unbounded integer
  result; JavaScript's number loses precision above \<open>2^53\<close>, far beyond any word count.  The JSON renderer assumes that \<open>appendParagraph\<close> throws
  on a point that is an object without a non-empty \<open>code\<close> (Apps Script checks
  argument types).  Strings are UTF-8 byte lists and
  whitespace is ASCII whitespace, so non-ASCII Unicode spaces are outside the model.
  No loop needs fuel: every loop runs over a finite list (\<open>fold\<close> or structural
  recursion, and two \<^theory_text>\<open>function\<close>s with a length measure), so every function here
  is total and executable, and the witnesses are evaluated in the kernel by
  \<open>code_simp\<close>.
\<close>

section \<open>Properties of the whole parser\<close>

text \<open>C1: in the deck returned by \<open>parseMarkdownToSlides\<close>, every slide has
  \<open>sectionHeader\<close> set exactly when its list of points is empty.\<close>

theorem parse_sectionHeader_iff:
  "\<forall>s \<in> set (deck_slides (parseMarkdownToSlides md)). sectionHeader s \<longleftrightarrow> points s = []"
  using parse_section_iff by blast

text \<open>C2: every state the loop reaches from the initial state is well-formed (all held
  addresses allocated, no pending group inside a code block, nothing marked before the
  post-pass), and reading more lines only extends it: no slide object is freed, no title
  changes, no point is removed, and the array \<open>slides\<close> only grows at the end.\<close>

theorem run_wf_extends:
  "wf_state (run init_state (xs @ ys))
   \<and> extends_state (run init_state xs) (run init_state (xs @ ys))"
proof -
  have "wf_state (run init_state xs)" using run_keeps [OF wf_init] by blast
  from run_keeps [OF this, of ys] show ?thesis by (simp add: run_append)
qed

section \<open>Where the code and the specification part\<close>

lemma render_all_error:
  "s \<in> set ss \<Longrightarrow> snd (f s) = Some e \<Longrightarrow> \<exists>e' p' a'. render_all f ss p added = (Some e', p', a')"
proof (induction ss arbitrary: p added)
  case (Cons x ss)
  then show ?case
    by (cases "f x") (auto simp: Let_def split: prod.splits option.splits)
qed simp

lemma reach_extends:
  "wf_state st \<Longrightarrow> starts_with (p_slides st) (p_slides (finish (run st post)))"
  using run_keeps [of st post] finish_keeps [of "run st post"] extends_state_trans
  by (meson extends_state_def)

text \<open>C8: a flat group flushed while no slide is open creates a placeholder slide that
  is both pushed and kept as \<open>currentSlide\<close>; the level-2 heading that flushes it then
  pushes \<open>currentSlide\<close> again (the guard against a double push exists only at the end of
  input).  Whatever lines follow, the deck holds the same slide object twice.\<close>

theorem parse_duplicate_push:
  assumes wf: "wf_state st" and nc: "\<not> p_inCodeBlock st" and sl: "p_slides st = []"
    and cur: "p_currentSlide st = None"
    and g: "p_contentGroup st \<noteq> []" "\<not> hierarchical (p_contentGroup st)"
    and h: "is_h23 (trim l)"
  shows "\<not> distinct (p_slides (finish (run (step st l) post)))"
proof -
  let ?n = "length (p_heap st)"
  have "p_slides (step st l) = [?n, ?n, Suc ?n]"
    using step_h23_line [OF h nc] g sl cur
    by (simp add: heading23_def flushContentGroup_def flush_flat_def push_current_def alloc_def Let_def)
  moreover have "starts_with (p_slides (step st l)) (p_slides (finish (run (step st l) post)))"
    using step_keeps [OF wf] by (blast intro: reach_extends)
  ultimately show ?thesis by (auto simp: starts_with_iff)
qed

text \<open>C9: a separator clears \<open>currentSlide\<close> without pushing it: a slide that is open
  but not pushed (the slide of a level-1 heading) never reaches the deck, whatever lines
  follow; any bullets flushed into it are lost with it.\<close>

theorem parse_separator_drops_slide:
  assumes wf: "wf_state st" and nc: "\<not> p_inCodeBlock st" and cur: "p_currentSlide st = Some r"
    and nr: "r \<notin> set (p_slides st)" and sep: "trim l = ''---''"
  shows "r \<notin> set (p_slides (finish (run (step st l) post)))"
proof -
  let ?st1 = "flushContentGroup st"
  have r: "r < length (p_heap st)" using wf cur by (simp add: wf_state_def refs_ok_def)
  have len: "length (p_heap st) \<le> length (p_heap ?st1)"
    using flush_keeps [OF wf] by (simp add: extends_state_def heap_ext_length)
  have nr1: "r \<notin> set (p_slides ?st1)" using flush_unpushed [OF r nr] .
  have "step st l = separator st"
    using sep nc by (simp add: step_def is_h1_def is_h23_def)
  then have "orphan r (step st l)"
    using r len nr1 by (auto simp: separator_def Let_def alloc_def orphan_def)
  moreover have "wf_state (step st l)" using step_keeps [OF wf] by blast
  ultimately show ?thesis by (rule orphan_never_emitted)
qed

text \<open>C10: the code buffer is cleared only when it is assigned.  A block closed while no
  slide is open (for instance after a level-2 heading) leaves its lines in the buffer,
  where the next assignment (C3) picks them up.\<close>

theorem parse_code_buffer_leak:
  assumes "\<not> p_inCodeBlock st" "p_currentSlide st = None" "p_contentGroup st = []"
    and "\<forall>l\<in>set ls. trim l \<noteq> [] \<and> \<not> starts_with ''```'' (trim l)"
    and "starts_with ''```'' (trim f1)" "starts_with ''```'' (trim f2)"
  shows "p_codeBuffer (run st (f1 # ls @ [f2])) = p_codeBuffer st @ concat (map (\<lambda>l. l @ [nl]) ls)
         \<and> \<not> p_inCodeBlock (run st (f1 # ls @ [f2]))"
  using block_closed_without_slide [OF assms] assms(1) by simp

text \<open>C11: example 4 of the specification says a block right after \<open>## Title\<close>
  becomes that slide's code.  The code assigns only to \<open>currentSlide\<close>, which a level-2
  heading leaves empty: after a level-2 heading, a fenced block changes no slide object.\<close>

theorem heading2_code_dropped:
  assumes wf: "wf_state st" and nc: "\<not> p_inCodeBlock st" and h: "is_h23 (trim l)"
    and ls: "\<forall>l\<in>set ls. trim l \<noteq> [] \<and> \<not> starts_with ''```'' (trim l)"
    and f1: "starts_with ''```'' (trim f1)" and f2: "starts_with ''```'' (trim f2)"
  shows "p_heap (run st (l # f1 # ls @ [f2])) = p_heap (step st l)"
proof -
  have s: "step st l = heading23 st (h23_text (trim l))" by (rule step_h23_line [OF h nc])
  have "\<not> p_inCodeBlock (step st l)" "p_currentSlide (step st l) = None" "p_contentGroup (step st l) = []"
    using wf nc by (simp_all add: s heading23_def push_current_def Let_def wf_state_def
        flushContentGroup_fields split: option.splits prod.splits)
  from block_closed_without_slide [OF this ls f1 f2] show ?thesis by (simp add: run_Cons)
qed

text \<open>C15: a parsed slide without points carrying code of two or more lines is a section
  header, so the Markdown renderer gives it the SECTION_HEADER layout, which has no body
  shape; \<open>insertCodeBlockText_\<close> then dereferences the missing shape and
  \<open>createSlidesFromMarkdown\<close> stops with an error, whatever the rest of the deck.\<close>

theorem render_section_code_fails:
  assumes s: "s \<in> set (deck_slides (parseMarkdownToSlides md))" and p: "points s = []"
    and c: "code s = Some c" and two: "2 \<le> length (split_nl (collapse_nl c))"
  shows "fst (createSlidesFromMarkdown md sel pr) = Some NoBodyShape"
proof -
  have sh: "sectionHeader s" using parse_section_iff [OF s] p by simp
  have "c \<noteq> []" using two by auto
  with sh p c two have "snd (render_md_slide s) = Some NoBodyShape"
    by (auto simp: render_md_slide_def insertCodeBlockText_def layout_shapes_def Let_def)
  from render_all_error [where f = render_md_slide, OF s this]
  obtain e' p' a' where ra: "render_all render_md_slide (deck_slides (parseMarkdownToSlides md))
      (snd (appendSlide (title_rslide (deck_title (parseMarkdownToSlides md))) pr))
      [fst (appendSlide (title_rslide (deck_title (parseMarkdownToSlides md))) pr)] = (Some e', p', a')"
    by blast
  then show ?thesis
    by (cases e') (simp add: createSlidesFromMarkdown_def Let_def case_prod_beta)
qed

section \<open>Witnesses\<close>

theorem parse_sectionHeader_iff_witness:
  "deck_slides (parseMarkdownToSlides ''## A\<newline>- a\<newline>## B'') \<noteq> []
   \<and> (sectionHeader (hd (deck_slides (parseMarkdownToSlides ''## A\<newline>- a\<newline>## B'')))
        \<longleftrightarrow> points (hd (deck_slides (parseMarkdownToSlides ''## A\<newline>- a\<newline>## B''))) = [])"
proof -
  have ne: "deck_slides (parseMarkdownToSlides ''## A\<newline>- a\<newline>## B'') \<noteq> []" by code_simp
  from parse_sectionHeader_iff [of "''## A\<newline>- a\<newline>## B''"] ne show ?thesis
    by simp
qed

theorem run_wf_extends_witness:
  "wf_state (run init_state ([''# D'', ''- a''] @ [''## B'']))
   \<and> extends_state (run init_state [''# D'', ''- a'']) (run init_state ([''# D'', ''- a''] @ [''## B'']))"
  by (rule run_wf_extends)


theorem code_block_captured_witness:
  "wf_state (init_state\<lparr>p_title := ''D'', p_currentSlide := Some 0, p_heap := [new_slide ''A'']\<rparr>)
   \<and> code (p_heap (run (init_state\<lparr>p_title := ''D'', p_currentSlide := Some 0, p_heap := [new_slide ''A'']\<rparr>)
        (''```'' # [''x = 1''] @ [''```''])) ! 0) = Some ''x = 1''"
proof -
  let ?st = "init_state\<lparr>p_title := ''D'', p_currentSlide := Some 0, p_heap := [new_slide ''A'']\<rparr>"
  have wf: "wf_state ?st"
    by (simp add: wf_state_def init_state_def refs_ok_def unmarked_def)
  have nc: "\<not> p_inCodeBlock ?st" by (simp add: init_state_def)
  have cur: "p_currentSlide ?st = Some 0" by simp
  have ls: "[''x = 1''] \<noteq> []" "\<forall>l\<in>set [''x = 1'']. trim l \<noteq> [] \<and> \<not> starts_with ''```'' (trim l)"
    by (simp_all add: trim_def is_ws_def)
  have f: "starts_with ''```'' (trim ''```'')" by (simp add: trim_def is_ws_def)
  from Parser.code_block_captured [OF wf nc cur ls f f] wf show ?thesis
    by (simp add: init_state_def trim_def is_ws_def nl_def)
qed

theorem code_line_opaque_witness:
  "p_inCodeBlock (init_state\<lparr>p_inCodeBlock := True\<rparr>)
   \<and> \<not> starts_with ''```'' (trim ''## Not a heading'')
   \<and> step (init_state\<lparr>p_inCodeBlock := True\<rparr>) ''## Not a heading''
       = init_state\<lparr>p_inCodeBlock := True, p_codeBuffer := ''## Not a heading'' @ [nl]\<rparr>"
proof -
  have h: "p_inCodeBlock (init_state\<lparr>p_inCodeBlock := True\<rparr>)" by simp
  have f: "\<not> starts_with ''```'' (trim ''## Not a heading'')" by (simp add: trim_def is_ws_def)
  from Parser.code_line_opaque [OF h f] h f show ?thesis
    by (simp add: trim_def is_ws_def init_state_def)
qed

theorem flushContentGroup_hier_count_witness:
  "hierarchical (p_contentGroup (init_state\<lparr>p_contentGroup :=
      [\<lparr>indent = 0, content = ''x'', isPlainText = False\<rparr>, \<lparr>indent = 2, content = ''y'', isPlainText = False\<rparr>]\<rparr>))
   \<and> length (p_slides (flushContentGroup (init_state\<lparr>p_contentGroup :=
      [\<lparr>indent = 0, content = ''x'', isPlainText = False\<rparr>, \<lparr>indent = 2, content = ''y'', isPlainText = False\<rparr>]\<rparr>))) = 1"
proof -
  let ?st = "init_state\<lparr>p_contentGroup :=
      [\<lparr>indent = 0, content = ''x'', isPlainText = False\<rparr>, \<lparr>indent = 2, content = ''y'', isPlainText = False\<rparr>]\<rparr>"
  have h: "hierarchical (p_contentGroup ?st)" by (simp add: hierarchical_def)
  from Flush.flushContentGroup_hier_count [OF h] h show ?thesis
    by (simp add: n_heads_def is_head_def init_state_def)
qed

theorem flushContentGroup_flat_witness:
  "points (p_heap (flushContentGroup (init_state\<lparr>p_slides := [0], p_heap := [new_slide ''A''],
      p_contentGroup := [\<lparr>indent = 0, content = ''a'', isPlainText = False\<rparr>]\<rparr>)) ! 0) = [''a'']
   \<and> p_slides (flushContentGroup (init_state\<lparr>p_slides := [0], p_heap := [new_slide ''A''],
      p_contentGroup := [\<lparr>indent = 0, content = ''a'', isPlainText = False\<rparr>]\<rparr>)) = [0]"
proof -
  let ?st = "init_state\<lparr>p_slides := [0], p_heap := [new_slide ''A''],
      p_contentGroup := [\<lparr>indent = 0, content = ''a'', isPlainText = False\<rparr>]\<rparr>"
  have g: "p_contentGroup ?st \<noteq> []" "\<not> hierarchical (p_contentGroup ?st)"
    by (simp_all add: hierarchical_def)
  have ok: "refs_ok (p_slides ?st) (p_currentSlide ?st) (p_heap ?st)"
    by (simp add: refs_ok_def init_state_def)
  have t: "(0::nat) = (if p_slides ?st \<noteq> [] then last (p_slides ?st) else 0)" by simp
  have o: "p_slides ?st \<noteq> [] \<or> p_currentSlide ?st = Some 0" by simp
  from Flush.flushContentGroup_flat [OF g ok t o] show ?thesis
    by (simp add: new_slide_def)
qed

theorem parse_deck_title_witness:
  "deck_title (parseMarkdownToSlides (''# '' @ ''Deck'' @ nl # ''- a'')) = ''Deck''"
proof -
  have "''Deck'' \<noteq> []" "\<not> is_ws (hd ''Deck'')" "\<not> is_ws (last ''Deck'')" "nl \<notin> set ''Deck''"
    by (simp_all add: is_ws_def nl_def)
  from Parser.parse_deck_title [OF this] show ?thesis .
qed

theorem createSlidesFromMarkdown_order_witness:
  "map snd (pr_slides (snd (createSlidesFromMarkdown ''# D\<newline>## A\<newline>- a'' (Some 0)
      \<lparr>pr_slides = [(0, title_rslide ''x''), (1, title_rslide ''y'')], pr_next = 2\<rparr>)))
   = [title_rslide ''x'', title_rslide ''D'',
      \<lparr>rs_layout = TITLE_AND_BODY, rs_title = ''A'', rs_body = [''a''], rs_code = []\<rparr>,
      title_rslide ''y'']"
proof -
  let ?p = "\<lparr>pr_slides = [(0, title_rslide ''x''), (1, title_rslide ''y'')], pr_next = 2\<rparr>"
  have d: "distinct (map fst (pr_slides ?p))" by simp
  have b: "\<forall>i\<in>set (map fst (pr_slides ?p)). i < pr_next ?p" by simp
  have s: "(0::nat) \<in> set (map fst (pr_slides ?p))" by simp
  have ok: "fst (createSlidesFromMarkdown ''# D\<newline>## A\<newline>- a'' (Some 0) ?p) = None" by code_simp
  have "map snd (pr_slides (snd (createSlidesFromMarkdown ''# D\<newline>## A\<newline>- a'' (Some 0) ?p)))
      = take (Suc (pos_of 0 (map fst (pr_slides ?p)))) (map snd (pr_slides ?p))
        @ title_rslide (deck_title (parseMarkdownToSlides ''# D\<newline>## A\<newline>- a''))
          # map (\<lambda>s. fst (render_md_slide s)) (deck_slides (parseMarkdownToSlides ''# D\<newline>## A\<newline>- a''))
        @ drop (Suc (pos_of 0 (map fst (pr_slides ?p)))) (map snd (pr_slides ?p))"
    by (rule Render.createSlidesFromMarkdown_order [OF d b s ok])
  also have "\<dots> = [title_rslide ''x'', title_rslide ''D'',
      \<lparr>rs_layout = TITLE_AND_BODY, rs_title = ''A'', rs_body = [''a''], rs_code = []\<rparr>,
      title_rslide ''y'']"
    by code_simp
  finally show ?thesis .
qed

theorem insertCodeBlockText_lines_witness:
  "insertCodeBlockText (join_nl [''x = 1'', ''y = 2'']) [''a'']
     = Some \<lparr>cb_copied = [''a''], cb_paragraphs = [''x = 1'', ''y = 2''], cb_fontSize = 12\<rparr>"
proof -
  have "2 \<le> length [''x = 1'', ''y = 2'']" by simp
  moreover have "\<forall>l\<in>set [''x = 1'', ''y = 2'']. l \<noteq> [] \<and> nl \<notin> set l" by (simp add: nl_def)
  ultimately show ?thesis using Render.insertCodeBlockText_lines by fastforce
qed

theorem insertCodeBlockText_single_line_witness:
  "insertCodeBlockText ''print(1)'' [] = None"
proof -
  have "nl \<notin> set ''print(1)''" by (simp add: nl_def)
  then show ?thesis by (rule Render.insertCodeBlockText_single_line)
qed

theorem render_md_code_copies_points_witness:
  "rs_code (fst (render_md_slide \<lparr>title = ''A'', points = [''a''], code = Some ''x\<newline>y'', sectionHeader = False\<rparr>))
     = [\<lparr>cb_copied = [''a''], cb_paragraphs = [''x'', ''y''], cb_fontSize = 12\<rparr>]
   \<and> cb_copied \<lparr>cb_copied = [''a''], cb_paragraphs = [''x'', ''y''], cb_fontSize = 12\<rparr> = [''a'']"
proof -
  let ?s = "\<lparr>title = ''A'', points = [''a''], code = Some ''x\<newline>y'', sectionHeader = False\<rparr>"
  have h: "\<not> sectionHeader ?s" "code ?s = Some ''x\<newline>y''"
    "insertCodeBlockText ''x\<newline>y'' (points ?s) = Some \<lparr>cb_copied = [''a''], cb_paragraphs = [''x'', ''y''], cb_fontSize = 12\<rparr>"
    by code_simp+
  from Render.render_md_code_copies_points [OF h] show ?thesis by (simp only: slide.select_convs)
qed

theorem parse_duplicate_push_witness:
  "wf_state (run init_state [''- a'']) \<and> \<not> p_inCodeBlock (run init_state [''- a''])
   \<and> p_slides (run init_state [''- a'']) = [] \<and> p_currentSlide (run init_state [''- a'']) = None
   \<and> p_contentGroup (run init_state [''- a'']) \<noteq> [] \<and> \<not> hierarchical (p_contentGroup (run init_state [''- a'']))
   \<and> is_h23 (trim ''## B'')
   \<and> \<not> distinct (p_slides (finish (run (step (run init_state [''- a'']) ''## B'') [])))"
proof -
  have wf: "wf_state (run init_state [''- a''])" using run_keeps [OF wf_init] by blast
  have a: "\<not> p_inCodeBlock (run init_state [''- a''])" "p_slides (run init_state [''- a'']) = []"
    "p_currentSlide (run init_state [''- a'']) = None" "p_contentGroup (run init_state [''- a'']) \<noteq> []"
    "\<not> hierarchical (p_contentGroup (run init_state [''- a'']))" "is_h23 (trim ''## B'')"
    by code_simp+
  show ?thesis using parse_duplicate_push [OF wf a, of "[]"] wf a by simp
qed

theorem parse_separator_drops_slide_witness:
  "wf_state (run init_state [''# D'', ''# A'', ''- x'']) \<and> \<not> p_inCodeBlock (run init_state [''# D'', ''# A'', ''- x''])
   \<and> p_currentSlide (run init_state [''# D'', ''# A'', ''- x'']) = Some 0
   \<and> 0 \<notin> set (p_slides (run init_state [''# D'', ''# A'', ''- x''])) \<and> trim ''---'' = ''---''
   \<and> 0 \<notin> set (p_slides (finish (run (step (run init_state [''# D'', ''# A'', ''- x'']) ''---'') [])))"
proof -
  have wf: "wf_state (run init_state [''# D'', ''# A'', ''- x''])" using run_keeps [OF wf_init] by blast
  have a: "\<not> p_inCodeBlock (run init_state [''# D'', ''# A'', ''- x''])"
    "p_currentSlide (run init_state [''# D'', ''# A'', ''- x'']) = Some 0"
    "0 \<notin> set (p_slides (run init_state [''# D'', ''# A'', ''- x'']))" "trim ''---'' = ''---''"
    by code_simp+
  show ?thesis using parse_separator_drops_slide [OF wf a, of "[]"] wf a by simp
qed

theorem parse_code_buffer_leak_witness:
  "\<not> p_inCodeBlock (run init_state [''## A'']) \<and> p_currentSlide (run init_state [''## A'']) = None
   \<and> p_contentGroup (run init_state [''## A'']) = []
   \<and> trim ''old'' \<noteq> [] \<and> \<not> starts_with ''```'' (trim ''old'')
   \<and> starts_with ''```'' (trim ''```'') 
   \<and> p_codeBuffer (run (run init_state [''## A'']) (''```'' # [''old''] @ [''```''])) = ''old\<newline>''"
proof -
  have a: "\<not> p_inCodeBlock (run init_state [''## A''])" "p_currentSlide (run init_state [''## A'']) = None"
    "p_contentGroup (run init_state [''## A'']) = []"
    "\<forall>l\<in>set [''old'']. trim l \<noteq> [] \<and> \<not> starts_with ''```'' (trim l)"
    "starts_with ''```'' (trim ''```'')" "p_codeBuffer (run init_state [''## A'']) = []"
    by code_simp+
  show ?thesis using parse_code_buffer_leak [OF a(1-5) a(5)] a by (simp add: nl_def)
qed

theorem heading2_code_dropped_witness:
  "wf_state (run init_state [''# D'']) \<and> \<not> p_inCodeBlock (run init_state [''# D''])
   \<and> is_h23 (trim ''## T'') \<and> trim ''x = 1'' \<noteq> [] \<and> \<not> starts_with ''```'' (trim ''x = 1'')
   \<and> starts_with ''```'' (trim ''```'')
   \<and> p_heap (run (run init_state [''# D'']) (''## T'' # ''```'' # [''x = 1''] @ [''```'']))
       = [new_slide ''T'']"
proof -
  have wf: "wf_state (run init_state [''# D''])" using run_keeps [OF wf_init] by blast
  have a: "\<not> p_inCodeBlock (run init_state [''# D''])" "is_h23 (trim ''## T'')"
    "\<forall>l\<in>set [''x = 1'']. trim l \<noteq> [] \<and> \<not> starts_with ''```'' (trim l)"
    "starts_with ''```'' (trim ''```'')" "p_heap (step (run init_state [''# D'']) ''## T'') = [new_slide ''T'']"
    by code_simp+
  show ?thesis using heading2_code_dropped [OF wf a(1-4) a(4)] wf a by simp
qed

theorem render_section_code_fails_witness:
  "\<lparr>title = ''A'', points = [], code = Some ''x\<newline>y'', sectionHeader = True\<rparr>
     \<in> set (deck_slides (parseMarkdownToSlides ''# D\<newline># A\<newline>```\<newline>x\<newline>y\<newline>```''))
   \<and> points \<lparr>title = ''A'', points = [], code = Some ''x\<newline>y'', sectionHeader = True\<rparr> = []
   \<and> code \<lparr>title = ''A'', points = [], code = Some ''x\<newline>y'', sectionHeader = True\<rparr> = Some ''x\<newline>y''
   \<and> 2 \<le> length (split_nl (collapse_nl ''x\<newline>y''))
   \<and> fst (createSlidesFromMarkdown ''# D\<newline># A\<newline>```\<newline>x\<newline>y\<newline>```'' None
          \<lparr>pr_slides = [(0, title_rslide ''old'')], pr_next = 1\<rparr>) = Some NoBodyShape"
proof -
  have a: "\<lparr>title = ''A'', points = [], code = Some ''x\<newline>y'', sectionHeader = True\<rparr>
     \<in> set (deck_slides (parseMarkdownToSlides ''# D\<newline># A\<newline>```\<newline>x\<newline>y\<newline>```''))"
    "points \<lparr>title = ''A'', points = [], code = Some ''x\<newline>y'', sectionHeader = True\<rparr> = []"
    "code \<lparr>title = ''A'', points = [], code = Some ''x\<newline>y'', sectionHeader = True\<rparr> = Some ''x\<newline>y''"
    "2 \<le> length (split_nl (collapse_nl ''x\<newline>y''))"
    by code_simp+
  show ?thesis using render_section_code_fails [OF a] a by simp
qed

theorem regen_table_skips_first_row_witness:
  "regen_table (\<lambda>x. Some (rev x)) 2 2 [[''h1'', ''h2''], [''a'', ''b'']]
     = (None, [[''h1'', ''h2''], [rev ''a'', rev ''b'']])"
proof -
  let ?t = "[[''h1'', ''h2''], [''a'', ''b'']]"
  have ne: "?t \<noteq> []" by simp
  have rect: "\<forall>r\<in>set ?t. length r = length (hd ?t)" by simp
  have "regen_table (\<lambda>x. Some (rev x)) 2 2 ?t = regen_table (\<lambda>x. Some (rev x)) (length ?t) (length (hd ?t)) ?t"
    by (simp add: numeral_2_eq_2)
  also have "\<dots> = (None, hd ?t # map (map rev) (tl ?t))"
    by (rule Client.regen_table_skips_first_row [OF ne rect])
  also have "\<dots> = (None, [[''h1'', ''h2''], [rev ''a'', rev ''b'']])"
    by (simp only: list.sel list.map)
  finally show ?thesis .
qed

theorem generateTextInCurrentElement_error_witness:
  "fst (regen_element (\<lambda>p. if p = ''d\<newline>b'' then None else Some ''ok'') ''d'' (Shape ''a'')) = None
   \<and> fst (regen_element (\<lambda>p. if p = ''d\<newline>b'' then None else Some ''ok'') ''d'' OtherElement) = None
   \<and> (\<lambda>p. if p = ''d\<newline>b'' then None else Some ''ok'') (''d'' @ nl # ''b'') = None
   \<and> generateTextInCurrentElement (\<lambda>p. if p = ''d\<newline>b'' then None else Some ''ok'') ''d''
       (Some ([Shape ''a'', OtherElement] @ Shape ''b'' # [Shape ''c'']))
     = (Some ApiError, Some [Shape ''ok'', OtherElement, Shape ''b'', Shape ''c''])"
proof -
  have a: "\<forall>el\<in>set [Shape ''a'', OtherElement].
      fst (regen_element (\<lambda>p. if p = ''d\<newline>b'' then None else Some ''ok'') ''d'' el) = None"
    by (simp add: regen_def nl_def)
  have b: "(\<lambda>p. if p = ''d\<newline>b'' then None else Some ''ok'') (''d'' @ nl # ''b'') = None"
    by (simp add: nl_def)
  show ?thesis using Client.generateTextInCurrentElement_error [OF a b] a b by (simp add: regen_def nl_def)
qed

end
